(* ===== verification/Prelude.thy ===== *)
theory Prelude
  imports Main "HOL-Library.State_Monad" "HOL-Library.Sublist" "HOL-Library.Multiset"
    "HOL-Library.List_Lexorder" "HOL-Library.Char_ord" "HOL-Library.Product_Lexorder"
begin

section \<open>Prelude: effects, guarantees and shared lemmas\<close>

text \<open>
  The Go code talks to the outside (API server, SSH hosts, clock, event recorder) through
  calls. A program of the model is a state transformer over the \<^emph>\<open>log\<close> of the calls made so
  far, newest call first. The outside is a parameter that maps the log and the arguments of a
  call to its response, so it may answer in any way that depends on everything that happened;
  concurrent actors are part of it. \<open>issue\<close> makes one call and records it with its response.

  Two judgements carry the proofs:
  \<^item> \<open>rg \<rho> \<phi> m Q\<close>: rely and guarantee. Whatever the log was before, every call that \<open>m\<close> makes
    satisfies \<open>\<phi>\<close> as long as the answers to its earlier calls satisfied \<open>\<rho>\<close>, and if all of them
    did, the value it returns satisfies \<open>Q\<close>. \<open>guar \<phi> m Q\<close> is the case that relies on nothing;
  \<^item> \<open>valid P m Q\<close>: an ordinary Hoare triple over the log, for the properties that depend on
    the order of the calls.
  Both have one rule per construct, collected in \<open>guar_rules\<close> and \<open>valid_rules\<close>.
\<close>

named_theorems guar_rules "introduction rules for the guarantee judgement"
named_theorems valid_rules "introduction rules for the Hoare triples over the call log"
named_theorems grows_rules "the operations extend the call log"
named_theorems call_defs "definitions of the single calls to the outside"

type_synonym 'e log = "'e list"
type_synonym ('e, 'a) prog = "('e log, 'a) state"

abbreviation ret :: "'a \<Rightarrow> ('e, 'a) prog" where
  "ret \<equiv> State_Monad.return"

definition issue :: "('e log \<Rightarrow> 'r) \<Rightarrow> ('r \<Rightarrow> 'e) \<Rightarrow> ('e, 'r) prog" where
  "issue respond event = State (\<lambda>w. let r = respond w in (r, event r # w))"

lemma run_issue [simp]: "run_state (issue f ev) w = (f w, ev (f w) # w)"
  by (simp add: issue_def Let_def)

subsection \<open>Rely and guarantee\<close>

text \<open>\<open>upto \<rho> \<phi> evs\<close>: every call of \<open>evs\<close> satisfies \<open>\<phi>\<close> unless an earlier one of them broke \<open>\<rho>\<close>.\<close>

fun upto :: "('e \<Rightarrow> bool) \<Rightarrow> ('e \<Rightarrow> bool) \<Rightarrow> 'e log \<Rightarrow> bool" where
  "upto \<rho> \<phi> [] = True"
| "upto \<rho> \<phi> (e # w) \<longleftrightarrow> upto \<rho> \<phi> w \<and> (list_all \<rho> w \<longrightarrow> \<phi> e)"

lemma upto_append: "upto \<rho> \<phi> a \<Longrightarrow> upto \<rho> \<phi> b \<Longrightarrow> upto \<rho> \<phi> (a @ b)"
  by (induction a) auto

lemma upto_prefix: "\<not> list_all \<rho> b \<Longrightarrow> upto \<rho> \<phi> b \<Longrightarrow> upto \<rho> \<phi> (a @ b)"
  by (induction a) auto

lemma upto_weaken:
  "upto \<rho> \<phi> w \<Longrightarrow> (\<And>e. \<sigma> e \<Longrightarrow> \<rho> e) \<Longrightarrow> (\<And>e. \<phi> e \<Longrightarrow> \<psi> e) \<Longrightarrow> upto \<sigma> \<psi> w"
  by (induction w) (auto simp: list_all_iff)

lemma upto_conj: "upto \<rho> \<phi> w \<Longrightarrow> upto \<rho> \<psi> w \<Longrightarrow> upto \<rho> (\<lambda>e. \<phi> e \<and> \<psi> e) w"
  by (induction w) auto

lemma upto_all [simp]: "upto (\<lambda>_. True) \<phi> w \<longleftrightarrow> (\<forall>e \<in> set w. \<phi> e)"
  by (induction w) (auto simp: list_all_iff)

lemma upto_split: "upto \<rho> \<phi> (a @ e # b) \<Longrightarrow> list_all \<rho> b \<Longrightarrow> \<phi> e"
  by (induction a) auto

definition rg :: "('e \<Rightarrow> bool) \<Rightarrow> ('e \<Rightarrow> bool) \<Rightarrow> ('e, 'a) prog \<Rightarrow> ('a \<Rightarrow> bool) \<Rightarrow> bool" where
  "rg \<rho> \<phi> m Q \<longleftrightarrow> (\<forall>w r w'. run_state m w = (r, w') \<longrightarrow>
     (\<exists>evs. w' = evs @ w \<and> upto \<rho> \<phi> evs \<and> (list_all \<rho> evs \<longrightarrow> Q r)))"

abbreviation guar :: "('e \<Rightarrow> bool) \<Rightarrow> ('e, 'a) prog \<Rightarrow> ('a \<Rightarrow> bool) \<Rightarrow> bool" where
  "guar \<equiv> rg (\<lambda>_. True)"

lemma rgI:
  "(\<And>w r w'. run_state m w = (r, w') \<Longrightarrow>
     \<exists>evs. w' = evs @ w \<and> upto \<rho> \<phi> evs \<and> (list_all \<rho> evs \<longrightarrow> Q r)) \<Longrightarrow> rg \<rho> \<phi> m Q"
  by (simp add: rg_def)

lemma rgD:
  assumes "rg \<rho> \<phi> m Q" and "run_state m w = (r, w')"
  obtains evs where "w' = evs @ w" and "upto \<rho> \<phi> evs" and "list_all \<rho> evs \<longrightarrow> Q r"
  using assms unfolding rg_def by blast

lemma guarD:
  assumes "guar \<phi> m Q" and "run_state m w = (r, w')"
  obtains evs where "w' = evs @ w" and "\<forall>e \<in> set evs. \<phi> e" and "Q r"
  using assms by (auto elim: rgD simp: list_all_iff)

lemma guar_result: "guar \<phi> m Q \<Longrightarrow> run_state m w = (r, w') \<Longrightarrow> Q r"
  by (auto elim: guarD)

lemma guar_calls: "guar \<phi> m Q \<Longrightarrow> run_state m w = (r, evs @ w) \<Longrightarrow> \<forall>e \<in> set evs. \<phi> e"
  by (auto elim: guarD)

text \<open>A call that follows only good answers satisfies the guarantee.\<close>

lemma rg_call: "rg \<rho> \<phi> m Q \<Longrightarrow> run_state m [] = (r, later @ e # before) \<Longrightarrow> list_all \<rho> before \<Longrightarrow> \<phi> e"
  by (auto elim!: rgD intro: upto_split)

lemma rg_weaken:
  assumes "rg \<rho> \<phi> m Q" and "\<And>e. \<sigma> e \<Longrightarrow> \<rho> e" and "\<And>e. \<phi> e \<Longrightarrow> \<psi> e" and "\<And>r. Q r \<Longrightarrow> R r"
  shows "rg \<sigma> \<psi> m R"
proof (rule rgI)
  fix w r w'
  assume "run_state m w = (r, w')"
  with assms(1) obtain evs where e: "w' = evs @ w" "upto \<rho> \<phi> evs" "list_all \<rho> evs \<longrightarrow> Q r" by (rule rgD)
  have "upto \<sigma> \<psi> evs" using e(2) assms(2,3) by (rule upto_weaken)
  moreover have "list_all \<sigma> evs \<longrightarrow> R r" using e(3) assms(2,4) by (auto simp: list_all_iff)
  ultimately show "\<exists>evs. w' = evs @ w \<and> upto \<sigma> \<psi> evs \<and> (list_all \<sigma> evs \<longrightarrow> R r)" using e(1) by blast
qed

lemma guar_weaken:
  assumes "guar \<phi> m Q" and "\<And>e. \<phi> e \<Longrightarrow> \<psi> e" and "\<And>r. Q r \<Longrightarrow> R r"
  shows "rg \<sigma> \<psi> m R"
  using assms(1) by (rule rg_weaken) (simp_all add: assms(2,3))

lemma guar_post: "rg \<rho> \<phi> m Q \<Longrightarrow> (\<And>r. Q r \<Longrightarrow> R r) \<Longrightarrow> rg \<rho> \<phi> m R"
  by (rule rg_weaken)

lemma guar_return [guar_rules]: "Q a \<Longrightarrow> rg \<rho> \<phi> (ret a) Q"
  by (simp add: rg_def)

lemma guar_issue [guar_rules]:
  "(\<And>r. \<phi> (ev r)) \<Longrightarrow> (\<And>w. \<rho> (ev (f w)) \<Longrightarrow> Q (f w)) \<Longrightarrow> rg \<rho> \<phi> (issue f ev) Q"
  by (auto simp: rg_def)

text \<open>\<open>grows m\<close>: the log is only ever extended. Every program of the model has this property.\<close>

abbreviation grows :: "('e, 'a) prog \<Rightarrow> bool" where
  "grows m \<equiv> guar (\<lambda>_. True) m (\<lambda>_. True)"

lemma rg_grows: "rg \<rho> \<phi> m Q \<Longrightarrow> grows m"
  unfolding rg_def by (metis upto_all)

lemma rg_bind:
  assumes m: "rg \<rho> \<phi> m Q" and rest: "\<And>a. grows (f a) \<and> (Q a \<longrightarrow> rg \<rho> \<phi> (f a) R)"
  shows "rg \<rho> \<phi> (State_Monad.bind m f) R"
proof (rule rgI)
  fix w r w'
  assume run: "run_state (State_Monad.bind m f) w = (r, w')"
  obtain a v where a: "run_state m w = (a, v)" by (cases "run_state m w")
  with run have run': "run_state (f a) v = (r, w')" by simp
  from m a obtain evs where e: "v = evs @ w" "upto \<rho> \<phi> evs" "list_all \<rho> evs \<longrightarrow> Q a" by (rule rgD)
  have "\<exists>later. w' = later @ v \<and> upto \<rho> \<phi> (later @ evs) \<and> (list_all \<rho> (later @ evs) \<longrightarrow> R r)"
  proof (cases "list_all \<rho> evs")
    case True
    with e(3) rest have "rg \<rho> \<phi> (f a) R" by blast
    from this run' obtain later where "w' = later @ v" "upto \<rho> \<phi> later" "list_all \<rho> later \<longrightarrow> R r" by (rule rgD)
    with e(2) show ?thesis by (auto intro: upto_append)
  next
    case False
    from rest run' obtain later where "w' = later @ v" by (blast elim: guarD)
    with False e(2) show ?thesis by (auto intro: upto_prefix)
  qed
  then show "\<exists>evs. w' = evs @ w \<and> upto \<rho> \<phi> evs \<and> (list_all \<rho> evs \<longrightarrow> R r)" using e(1) by auto
qed

lemma guar_bind:
  assumes "guar \<phi> m Q" and "\<And>a. Q a \<Longrightarrow> guar \<phi> (f a) R"
  shows "guar \<phi> (State_Monad.bind m f) R"
  unfolding rg_def
proof (intro allI impI)
  fix w r w'
  assume run: "run_state (State_Monad.bind m f) w = (r, w')"
  obtain a v where a: "run_state m w = (a, v)" by (cases "run_state m w")
  with run have rest: "run_state (f a) v = (r, w')" by simp
  from assms(1) a obtain evs where "v = evs @ w" "\<forall>e \<in> set evs. \<phi> e" "Q a" by (rule guarD)
  moreover from assms(2) [OF this(3)] rest obtain later where "w' = later @ v" "\<forall>e \<in> set later. \<phi> e" "R r" by (rule guarD)
  ultimately show "\<exists>evs. w' = evs @ w \<and> upto (\<lambda>_. True) \<phi> evs \<and> (list_all (\<lambda>_. True) evs \<longrightarrow> R r)" by auto
qed

text \<open>The rule for sequences when nothing about the intermediate value is needed.\<close>

lemma guar_bind_any [guar_rules]:
  assumes "rg \<rho> \<phi> m (\<lambda>_. True)" and "\<And>a. rg \<rho> \<phi> (f a) R"
  shows "rg \<rho> \<phi> (State_Monad.bind m f) R"
  by (rule rg_bind [OF assms(1)]) (use assms(2) rg_grows in blast)

lemma grows_bind: "grows m \<Longrightarrow> (\<And>a. grows (f a)) \<Longrightarrow> grows (State_Monad.bind m f)"
  by (rule guar_bind_any)

lemma guar_if [guar_rules]:
  "(b \<Longrightarrow> rg \<rho> \<phi> m Q) \<Longrightarrow> (\<not> b \<Longrightarrow> rg \<rho> \<phi> n Q) \<Longrightarrow> rg \<rho> \<phi> (if b then m else n) Q"
  by simp

lemma guar_case_sum [guar_rules]:
  "(\<And>e. s = Inl e \<Longrightarrow> rg \<rho> \<phi> (f e) Q) \<Longrightarrow> (\<And>a. s = Inr a \<Longrightarrow> rg \<rho> \<phi> (g a) Q) \<Longrightarrow>
   rg \<rho> \<phi> (case s of Inl e \<Rightarrow> f e | Inr a \<Rightarrow> g a) Q"
  by (cases s) auto

lemma guar_case_option [guar_rules]:
  "(s = None \<Longrightarrow> rg \<rho> \<phi> f Q) \<Longrightarrow> (\<And>a. s = Some a \<Longrightarrow> rg \<rho> \<phi> (g a) Q) \<Longrightarrow>
   rg \<rho> \<phi> (case s of None \<Rightarrow> f | Some a \<Rightarrow> g a) Q"
  by (cases s) auto

lemma guar_case_prod [guar_rules]:
  "(\<And>a b. p = (a, b) \<Longrightarrow> rg \<rho> \<phi> (f a b) Q) \<Longrightarrow> rg \<rho> \<phi> (case p of (a, b) \<Rightarrow> f a b) Q"
  by (cases p) auto

lemma guar_case_list [guar_rules]:
  "(xs = [] \<Longrightarrow> rg \<rho> \<phi> f Q) \<Longrightarrow> (\<And>y ys. xs = y # ys \<Longrightarrow> rg \<rho> \<phi> (g y ys) Q) \<Longrightarrow>
   rg \<rho> \<phi> (case xs of [] \<Rightarrow> f | y # ys \<Rightarrow> g y ys) Q"
  by (cases xs) auto

lemma guar_let [guar_rules]: "rg \<rho> \<phi> (f x) Q \<Longrightarrow> rg \<rho> \<phi> (let y = x in f y) Q"
  by simp

text \<open>The rules without the one for sequences, for proofs that name the intermediate facts.\<close>

lemmas guar_steps = guar_return guar_issue guar_if guar_case_sum guar_case_option guar_case_prod
  guar_case_list guar_let

text \<open>Postconditions of an operation that returns an optional error together with the object it
  worked on.\<close>

definition on_result :: "('s \<Rightarrow> bool) \<Rightarrow> ('x \<Rightarrow> 's \<Rightarrow> bool) \<Rightarrow> 'x option \<times> 's \<Rightarrow> bool" where
  "on_result J K r = (case fst r of None \<Rightarrow> J (snd r) | Some x \<Rightarrow> K x (snd r))"

lemma on_result_simps [simp]:
  "on_result J K (None, s) = J s" "on_result J K (Some x, s) = K x s"
  by (simp_all add: on_result_def)

lemma on_resultI: "(fst r = None \<Longrightarrow> J (snd r)) \<Longrightarrow> (\<And>x. fst r = Some x \<Longrightarrow> K x (snd r)) \<Longrightarrow> on_result J K r"
  by (simp add: on_result_def split: option.splits)

lemma on_result_mono:
  "on_result J K r \<Longrightarrow> (\<And>s. J s \<Longrightarrow> J' s) \<Longrightarrow> (\<And>x s. K x s \<Longrightarrow> K' x s) \<Longrightarrow> on_result J' K' r"
  by (simp add: on_result_def split: option.splits)

lemma rg_bind_result:
  assumes "rg \<rho> \<phi> m (on_result J K)"
    and "\<And>s. J s \<Longrightarrow> rg \<rho> \<phi> (f (None, s)) R" and "\<And>x s. K x s \<Longrightarrow> rg \<rho> \<phi> (f (Some x, s)) R"
    and "\<And>r. grows (f r)"
  shows "rg \<rho> \<phi> (State_Monad.bind m f) R"
proof (rule rg_bind [OF assms(1)])
  fix r
  show "grows (f r) \<and> (on_result J K r \<longrightarrow> rg \<rho> \<phi> (f r) R)"
    using assms(2-4) by (cases r; cases "fst r") auto
qed

subsection \<open>Hoare triples over the log\<close>

definition valid :: "('e log \<Rightarrow> bool) \<Rightarrow> ('e, 'a) prog \<Rightarrow> ('a \<Rightarrow> 'e log \<Rightarrow> bool) \<Rightarrow> bool" where
  "valid P m Q \<longleftrightarrow> (\<forall>w. P w \<longrightarrow> (case run_state m w of (r, w') \<Rightarrow> Q r w'))"

lemma validD: "valid P m Q \<Longrightarrow> P w \<Longrightarrow> run_state m w = (r, w') \<Longrightarrow> Q r w'"
  by (auto simp: valid_def)

lemma valid_run: "valid P m Q \<Longrightarrow> P w \<Longrightarrow> Q (fst (run_state m w)) (snd (run_state m w))"
  by (simp add: valid_def case_prod_beta)

lemma validI: "(\<And>w r w'. P w \<Longrightarrow> run_state m w = (r, w') \<Longrightarrow> Q r w') \<Longrightarrow> valid P m Q"
  by (auto simp: valid_def split: prod.splits)

lemma valid_weaken:
  assumes "valid P m Q" and "\<And>w. P' w \<Longrightarrow> P w" and "\<And>r w. Q r w \<Longrightarrow> Q' r w"
  shows "valid P' m Q'"
  using assms by (fastforce simp: valid_def split: prod.splits)

lemma valid_pure: "(p \<Longrightarrow> valid P m Q) \<Longrightarrow> valid (\<lambda>w. p \<and> P w) m Q"
  by (auto simp: valid_def)

lemma valid_return [valid_rules]: "(\<And>w. P w \<Longrightarrow> Q a w) \<Longrightarrow> valid P (ret a) Q"
  by (simp add: valid_def)

lemma valid_issue [valid_rules]:
  "(\<And>w. P w \<Longrightarrow> Q (f w) (ev (f w) # w)) \<Longrightarrow> valid P (issue f ev) Q"
  by (simp add: valid_def)

lemma valid_bind:
  assumes "valid P m Q" and "\<And>a. valid (Q a) (f a) R"
  shows "valid P (State_Monad.bind m f) R"
  using assms by (fastforce simp: valid_def split: prod.splits)

text \<open>The rule for sequences when nothing about the first part is needed.\<close>

lemma valid_bind_any: "(\<And>a. valid (\<lambda>_. True) (f a) R) \<Longrightarrow> valid P (State_Monad.bind m f) R"
  by (rule valid_bind [where Q = "\<lambda>_ _. True"]) (auto simp: valid_def)

lemma valid_if [valid_rules]:
  "(b \<Longrightarrow> valid P m Q) \<Longrightarrow> (\<not> b \<Longrightarrow> valid P n Q) \<Longrightarrow> valid P (if b then m else n) Q"
  by simp

lemma valid_case_sum [valid_rules]:
  "(\<And>e. s = Inl e \<Longrightarrow> valid P (f e) Q) \<Longrightarrow> (\<And>a. s = Inr a \<Longrightarrow> valid P (g a) Q) \<Longrightarrow>
   valid P (case s of Inl e \<Rightarrow> f e | Inr a \<Rightarrow> g a) Q"
  by (cases s) auto

lemma valid_case_option [valid_rules]:
  "(s = None \<Longrightarrow> valid P f Q) \<Longrightarrow> (\<And>a. s = Some a \<Longrightarrow> valid P (g a) Q) \<Longrightarrow>
   valid P (case s of None \<Rightarrow> f | Some a \<Rightarrow> g a) Q"
  by (cases s) auto

lemma valid_case_prod [valid_rules]:
  "(\<And>a b. p = (a, b) \<Longrightarrow> valid P (f a b) Q) \<Longrightarrow> valid P (case p of (a, b) \<Rightarrow> f a b) Q"
  by (cases p) auto

text \<open>A program whose calls all satisfy \<open>\<phi>\<close> keeps every log property that such calls keep.\<close>

lemma guar_valid:
  assumes m: "guar \<phi> m Q" and keep: "\<And>e w. \<phi> e \<Longrightarrow> P w \<Longrightarrow> P (e # w)"
  shows "valid P m (\<lambda>r w. Q r \<and> P w)"
proof (rule validI)
  fix w r w'
  assume "P w" and "run_state m w = (r, w')"
  from m this(2) obtain evs where w': "w' = evs @ w" and evs: "\<forall>e\<in>set evs. \<phi> e" and "Q r"
    by (rule guarD)
  from evs \<open>P w\<close> have "P (evs @ w)" by (induction evs) (auto intro: keep)
  with w' \<open>Q r\<close> show "Q r \<and> P w'" by simp
qed

subsection \<open>Lists\<close>

lemma find_SomeD: "List.find P xs = Some x \<Longrightarrow> x \<in> set xs \<and> P x"
  by (auto simp: find_Some_iff)

lemma distinct_mapD: "distinct (map f xs) \<Longrightarrow> distinct xs"
  by (induction xs) auto

lemma sorted_key_unique:
  assumes "mset xs = mset ys" and "sorted (map f xs)" and "sorted (map f ys)"
    and "inj_on f (set xs)"
  shows "xs = ys"
proof -
  have "mset (map f xs) = mset (map f ys)" using assms(1) by simp
  with assms(2,3) have eq: "map f xs = map f ys"
    by (metis properties_for_sort sorted_sort_id)
  have "set xs = set ys" using assms(1) by (metis set_mset_mset)
  with assms(4) have "inj_on f (set xs \<union> set ys)" by simp
  with eq show ?thesis by (rule map_inj_on)
qed

end
