(* ===== verification/GoStrings.thy ===== *)
theory GoStrings
  imports Prelude
begin

section \<open>The part of Go's string and number formatting library the program uses\<close>

text \<open>
  A Go string is a sequence of bytes, here \<open>string\<close> (a list of 8-bit characters). The
  operations follow packages \<^verbatim>\<open>strings\<close>, \<^verbatim>\<open>strconv\<close>, \<^verbatim>\<open>fmt\<close> and
  \<^verbatim>\<open>encoding/base64\<close> for the arguments the program passes: separators are single bytes and
  the string to replace is never empty. Lemmas relate them to the library's \<open>prefix\<close>,
  \<open>suffix\<close> and \<open>sublist\<close>.
\<close>

subsection \<open>Prefixes, cutting and splitting\<close>

fun HasPrefix :: "string \<Rightarrow> string \<Rightarrow> bool" where
  "HasPrefix s [] = True"
| "HasPrefix [] (p # ps) = False"
| "HasPrefix (c # s) (p # ps) = (c = p \<and> HasPrefix s ps)"

definition HasSuffix :: "string \<Rightarrow> string \<Rightarrow> bool" where
  "HasSuffix s suf = HasPrefix (rev s) (rev suf)"

definition CutPrefix :: "string \<Rightarrow> string \<Rightarrow> string option" where
  "CutPrefix s p = (if HasPrefix s p then Some (drop (length p) s) else None)"

text \<open>
  \<open>Cut c s\<close> is \<^verbatim>\<open>strings.Cut(s, string(c))\<close>: the text before the first \<open>c\<close> and the text
  after it, or \<open>None\<close> when \<open>c\<close> does not occur (Go then returns \<open>s\<close> and false).
\<close>

fun Cut :: "char \<Rightarrow> string \<Rightarrow> (string \<times> string) option" where
  "Cut c [] = None"
| "Cut c (x # xs) = (if x = c then Some ([], xs)
     else map_option (\<lambda>(a, b). (x # a, b)) (Cut c xs))"

text \<open>\<open>SplitN2 c s\<close> is \<^verbatim>\<open>strings.SplitN(s, string(c), 2)\<close>.\<close>

definition SplitN2 :: "char \<Rightarrow> string \<Rightarrow> string list" where
  "SplitN2 c s = (case Cut c s of None \<Rightarrow> [s] | Some (a, b) \<Rightarrow> [a, b])"

fun Contains :: "string \<Rightarrow> string \<Rightarrow> bool" where
  "Contains [] sub = (sub = [])"
| "Contains (c # s) sub = (HasPrefix (c # s) sub \<or> Contains s sub)"

fun Join :: "string list \<Rightarrow> string \<Rightarrow> string" where
  "Join [] sep = []"
| "Join [x] sep = x"
| "Join (x # y # zs) sep = x @ sep @ Join (y # zs) sep"

text \<open>\<^verbatim>\<open>strings.ReplaceAll\<close> for a non-empty \<open>old\<close>: leftmost, non-overlapping.\<close>

function ReplaceAll :: "string \<Rightarrow> string \<Rightarrow> string \<Rightarrow> string" where
  "ReplaceAll [] old new = []"
| "ReplaceAll (c # s) old new =
     (if old \<noteq> [] \<and> HasPrefix (c # s) old
      then new @ ReplaceAll (drop (length old) (c # s)) old new
      else c # ReplaceAll s old new)"
  by pat_completeness auto
termination
  by (relation "measure (\<lambda>(s, old, new). length s)") (auto simp: length_greater_0_conv)

lemma HasPrefix_iff [simp]: "HasPrefix s p \<longleftrightarrow> prefix p s"
  by (induction s p rule: HasPrefix.induct) auto

lemma HasSuffix_iff: "HasSuffix s suf \<longleftrightarrow> suffix suf s"
  by (simp add: HasSuffix_def suffix_to_prefix)

lemma Contains_iff: "Contains s sub \<longleftrightarrow> sublist sub s"
  by (induction s sub rule: Contains.induct) (auto simp: sublist_Cons_right)

lemma CutPrefix_append [simp]: "CutPrefix (p @ s) p = Some s"
  by (simp add: CutPrefix_def)

lemma CutPrefix_Some: "CutPrefix s p = Some r \<longleftrightarrow> s = p @ r"
  by (auto simp: CutPrefix_def prefix_def)

lemma Cut_append [simp]: "c \<notin> set a \<Longrightarrow> Cut c (a @ c # b) = Some (a, b)"
  by (induction a) auto

lemma Cut_SomeD: "Cut c s = Some (a, b) \<Longrightarrow> s = a @ c # b \<and> c \<notin> set a"
  by (induction s arbitrary: a) (auto split: if_splits)

lemma Cut_Some: "Cut c s = Some (a, b) \<longleftrightarrow> s = a @ c # b \<and> c \<notin> set a"
  using Cut_SomeD by auto

lemma Cut_None: "Cut c s = None \<longleftrightarrow> c \<notin> set s"
  by (induction s) auto

lemma hd_SplitN2: "hd (SplitN2 c s) = (case Cut c s of None \<Rightarrow> s | Some (a, b) \<Rightarrow> a)"
  by (auto simp: SplitN2_def split: option.splits)

subsection \<open>Replacement removes what it replaces\<close>

lemma sublist_around_char:
  assumes "sublist w (a @ c # b)" and "c \<notin> set w"
  shows "sublist w a \<or> sublist w b"
proof -
  from assms(1) obtain ps ss where eq: "a @ c # b = ps @ w @ ss"
    by (auto simp: sublist_def)
  then consider us where "a = ps @ us" "us @ c # b = w @ ss"
    | us where "ps = a @ us" "us @ w @ ss = c # b"
    by (auto simp: append_eq_append_conv2)
  then show ?thesis
  proof cases
    case 1
    from 1(2) assms(2) have "prefix w us"
      by (auto simp: append_eq_append_conv2 Cons_eq_append_conv)
    with 1(1) show ?thesis by (auto simp: prefix_def sublist_def)
  next
    case 2
    show ?thesis
    proof (cases us)
      case Nil
      with 2(2) assms(2) have "w = []" by (cases w) auto
      then show ?thesis by simp
    next
      case (Cons u us')
      with 2(2) have "b = us' @ w @ ss" by simp
      then show ?thesis by (auto simp: sublist_def)
    qed
  qed
qed

text \<open>
  \<open>bracketed ph\<close> is the shape of a placeholder such as \<open>[REDACTED]\<close>: a body between two
  delimiters. A word without the delimiters that is not part of the body can occur in a text
  with placeholders only outside of them.
\<close>

definition bracketed :: "char \<Rightarrow> string \<Rightarrow> char \<Rightarrow> string" where
  "bracketed l body r = l # body @ [r]"

definition clear_of :: "char \<Rightarrow> string \<Rightarrow> char \<Rightarrow> string \<Rightarrow> bool" where
  "clear_of l body r w \<longleftrightarrow> l \<notin> set w \<and> r \<notin> set w \<and> \<not> sublist w body"

lemma sublist_skip_placeholder:
  assumes "sublist w (bracketed l body r @ y)" and "clear_of l body r w"
  shows "sublist w y"
proof -
  have "sublist w ([] @ l # (body @ r # y))"
    using assms(1) by (simp add: bracketed_def)
  with assms(2) have "sublist w [] \<or> sublist w (body @ r # y)"
    by (intro sublist_around_char) (auto simp: clear_of_def)
  with assms(2) have "sublist w (body @ r # y)"
    by (auto simp: clear_of_def)
  with assms(2) have "sublist w body \<or> sublist w y"
    by (intro sublist_around_char) (auto simp: clear_of_def)
  with assms(2) show ?thesis by (auto simp: clear_of_def)
qed

lemma prefix_ReplaceAll:
  assumes "prefix w (ReplaceAll s old (bracketed l body r))" and "l \<notin> set w"
  shows "prefix w s"
  using assms
proof (induction s arbitrary: w)
  case (Cons c s)
  show ?case
  proof (cases w)
    case w: (Cons x xs)
    with Cons.prems have "\<not> (old \<noteq> [] \<and> prefix old (c # s))"
      by (auto simp: bracketed_def)
    with Cons.prems w have "x = c" "prefix xs (ReplaceAll s old (bracketed l body r))"
      by (auto split: if_splits)
    with Cons.IH Cons.prems(2) w show ?thesis by auto
  qed simp
qed simp

lemma sublist_ReplaceAll:
  assumes "sublist w (ReplaceAll s old (bracketed l body r))" and "clear_of l body r w"
  shows "sublist w s"
  using assms(1)
proof (induction s old "bracketed l body r" rule: ReplaceAll.induct)
  case (2 c s old)
  show ?case
  proof (cases "old \<noteq> [] \<and> prefix old (c # s)")
    case True
    with 2(3) have "sublist w (bracketed l body r @
        ReplaceAll (drop (length old) (c # s)) old (bracketed l body r))" by simp
    then have "sublist w (ReplaceAll (drop (length old) (c # s)) old (bracketed l body r))"
      using assms(2) by (rule sublist_skip_placeholder)
    with 2(1) True have "sublist w (drop (length old) (c # s))" by simp
    then show ?thesis using sublist_drop sublist_order.order.trans by blast
  next
    case False
    with 2(3) have "prefix w (c # ReplaceAll s old (bracketed l body r))
        \<or> sublist w (ReplaceAll s old (bracketed l body r))"
      by (auto simp: sublist_Cons_right)
    then show ?thesis
    proof
      assume "prefix w (c # ReplaceAll s old (bracketed l body r))"
      with assms(2) have "prefix w (c # s)"
        by (cases w) (auto simp: clear_of_def intro: prefix_ReplaceAll)
      then show ?thesis by (rule prefix_imp_sublist)
    next
      assume "sublist w (ReplaceAll s old (bracketed l body r))"
      with 2(2) False have "sublist w s" by simp
      then show ?thesis by (simp add: sublist_Cons_right)
    qed
  qed
qed simp

lemma ReplaceAll_removes:
  assumes "clear_of l body r old" and "old \<noteq> []"
  shows "\<not> sublist old (ReplaceAll s old (bracketed l body r))"
proof (induction s rule: measure_induct_rule [of length])
  case (less s)
  show ?case
  proof (cases s)
    case Nil
    with assms(2) show ?thesis by simp
  next
    case (Cons c t)
    let ?R = "\<lambda>s. ReplaceAll s old (bracketed l body r)"
    show ?thesis
    proof (cases "prefix old (c # t)")
      case True
      have "\<not> sublist old (?R (drop (length old) s))"
        using assms(2) Cons by (intro less.IH) simp
      with True Cons assms show ?thesis
        by (auto dest: sublist_skip_placeholder)
    next
      case False
      have "\<not> sublist old (?R t)" using Cons by (intro less.IH) simp
      moreover have "\<not> prefix old (c # ?R t)"
      proof
        assume "prefix old (c # ?R t)"
        with assms have "prefix old (c # t)"
          by (cases old) (auto simp: clear_of_def intro: prefix_ReplaceAll)
        with False show False ..
      qed
      ultimately show ?thesis using Cons False by (simp add: sublist_Cons_right)
    qed
  qed
qed

subsection \<open>White space\<close>

text \<open>
  \<open>spaces\<close> lists the UTF-8 encodings of the runes for which \<^verbatim>\<open>unicode.IsSpace\<close>
  holds. Their first bytes never occur inside another rune, so looking for an encoding at every
  byte position finds exactly the white-space runes, in invalid UTF-8 too.
\<close>

definition bytes_of :: "nat list \<Rightarrow> string" where
  "bytes_of = map char_of"

definition spaces :: "string list" where
  "spaces = map bytes_of
     ([[9], [10], [11], [12], [13], [32], [0xC2, 0x85], [0xC2, 0xA0], [0xE1, 0x9A, 0x80]]
      @ map (\<lambda>b. [0xE2, 0x80, b]) [0x80..<0x8B]
      @ [[0xE2, 0x80, 0xA8], [0xE2, 0x80, 0xA9], [0xE2, 0x80, 0xAF], [0xE2, 0x81, 0x9F],
         [0xE3, 0x80, 0x80]])"

text \<open>The number of bytes of a white-space rune at the start of the string, 0 if none.\<close>

definition space_at :: "string \<Rightarrow> nat" where
  "space_at s = (case List.find (HasPrefix s) spaces of None \<Rightarrow> 0 | Some p \<Rightarrow> length p)"

definition space_end :: "string \<Rightarrow> nat" where
  "space_end s = (case List.find (HasSuffix s) spaces of None \<Rightarrow> 0 | Some p \<Rightarrow> length p)"

function trim_left :: "string \<Rightarrow> string" where
  "trim_left s = (if s \<noteq> [] \<and> 0 < space_at s then trim_left (drop (space_at s) s) else s)"
  by pat_completeness auto
termination
  by (relation "measure length") auto

declare trim_left.simps [simp del]

function trim_right :: "string \<Rightarrow> string" where
  "trim_right s = (if s \<noteq> [] \<and> 0 < space_end s
     then trim_right (take (length s - space_end s) s) else s)"
  by pat_completeness auto
termination
  by (relation "measure length") auto

declare trim_right.simps [simp del]

definition TrimSpace :: "string \<Rightarrow> string" where
  "TrimSpace s = trim_right (trim_left s)"

text \<open>\<^verbatim>\<open>strings.Fields\<close>: the maximal runs without white space; \<open>cur\<close> is the run being read.\<close>

function fields_from :: "string \<Rightarrow> string \<Rightarrow> string list" where
  "fields_from [] cur = (if cur = [] then [] else [cur])"
| "fields_from (c # s) cur =
     (if 0 < space_at (c # s)
      then (if cur = [] then [] else [cur]) @ fields_from (drop (space_at (c # s)) (c # s)) []
      else fields_from s (cur @ [c]))"
  by pat_completeness auto
termination
  by (relation "measure (\<lambda>(s, cur). length s)") auto

definition Fields :: "string \<Rightarrow> string list" where
  "Fields s = fields_from s []"

text \<open>A printable ASCII byte starts no white-space rune, and a line feed is one.\<close>

definition graphic :: "char \<Rightarrow> bool" where
  "graphic c \<longleftrightarrow> 32 < (of_char c :: nat) \<and> (of_char c :: nat) < 127"

lemma space_first_byte:
  "p \<in> set spaces \<Longrightarrow> p \<noteq> [] \<and> \<not> graphic (hd p)"
  by (auto simp: spaces_def bytes_of_def graphic_def upt_rec of_char_of take_bit_eq_mod)

lemma space_at_graphic [simp]: "graphic c \<Longrightarrow> space_at (c # s) = 0"
proof -
  assume c: "graphic c"
  have "List.find (HasPrefix (c # s)) spaces = None"
    unfolding find_None_iff
  proof
    assume "\<exists>p. p \<in> set spaces \<and> HasPrefix (c # s) p"
    then obtain p where "p \<in> set spaces" "prefix p (c # s)" by auto
    with space_first_byte [of p] c show False by (cases p) auto
  qed
  then show ?thesis by (simp add: space_at_def)
qed

lemma space_at_newline [simp]: "space_at (CHR 0x0A # s) = 1"
  by (simp add: space_at_def spaces_def bytes_of_def char_of_def bit_0)

lemma fields_from_word:
  "\<forall>c \<in> set u. graphic c \<Longrightarrow> fields_from (u @ s) cur = fields_from s (cur @ u)"
  by (induction u arbitrary: cur) auto

lemma fields_from_line:
  assumes "\<forall>c \<in> set u. graphic c" and "u \<noteq> []"
  shows "fields_from (u @ CHR 0x0A # s) [] = u # fields_from s []"
  using assms by (simp add: fields_from_word)

lemma Fields_line:
  "\<forall>c \<in> set u. graphic c \<Longrightarrow> u \<noteq> [] \<Longrightarrow> Fields (u @ CHR 0x0A # s) = u # Fields s"
  by (simp add: Fields_def fields_from_line)

lemma Fields_Nil [simp]: "Fields [] = []"
  by (simp add: Fields_def)

lemma space_last_byte: "p \<in> set spaces \<Longrightarrow> p \<noteq> [] \<and> \<not> graphic (last p)"
  by (auto simp: spaces_def bytes_of_def graphic_def upt_rec of_char_of take_bit_eq_mod)

lemma space_end_graphic: "graphic c \<Longrightarrow> space_end (s @ [c]) = 0"
proof -
  assume c: "graphic c"
  have "List.find (HasSuffix (s @ [c])) spaces = None"
    unfolding find_None_iff
  proof
    assume "\<exists>p. p \<in> set spaces \<and> HasSuffix (s @ [c]) p"
    then obtain p where "p \<in> set spaces" "suffix p (s @ [c])" by (auto simp: HasSuffix_iff)
    with space_last_byte [of p] c show False by (cases p rule: rev_cases) auto
  qed
  then show ?thesis by (simp add: space_end_def)
qed

lemma space_end_newline: "space_end (s @ [CHR 0x0A]) = 1"
  by (simp add: space_end_def spaces_def bytes_of_def char_of_def bit_0 HasSuffix_iff)

lemma TrimSpace_line:
  assumes "w \<noteq> []" and "graphic (hd w)" and "graphic (last w)"
  shows "TrimSpace (w @ [CHR 0x0A]) = w"
proof -
  obtain c u where w: "w = c # u" using assms(1) by (cases w) auto
  have "trim_left (w @ [CHR 0x0A]) = w @ [CHR 0x0A]"
    using assms(2) w by (subst trim_left.simps) simp
  moreover have "trim_right (w @ [CHR 0x0A]) = trim_right w"
    by (subst trim_right.simps) (simp add: space_end_newline)
  moreover have "space_end w = 0"
    using assms(1,3) space_end_graphic [of "last w" "butlast w"] by simp
  then have "trim_right w = w" by (subst trim_right.simps) simp
  ultimately show ?thesis by (simp add: TrimSpace_def)
qed

lemma Fields_word: "\<forall>c \<in> set u. graphic c \<Longrightarrow> u \<noteq> [] \<Longrightarrow> Fields u = [u]"
  using fields_from_word [of u "[]" "[]"] by (simp add: Fields_def)

subsection \<open>Upper case and numbers\<close>

text \<open>\<^verbatim>\<open>strings.ToUpper\<close> on ASCII strings (Kubernetes Secret keys are \<^verbatim>\<open>[-._a-zA-Z0-9]+\<close>).\<close>

definition upper_char :: "char \<Rightarrow> char" where
  "upper_char c = (let n = (of_char c :: nat) in
     if 97 \<le> n \<and> n \<le> 122 then char_of (n - 32) else c)"

definition ToUpper :: "string \<Rightarrow> string" where
  "ToUpper = map upper_char"

text \<open>
  \<^verbatim>\<open>strconv.Quote\<close> (the verb \<^verbatim>\<open>%q\<close>): control characters are escaped; bytes outside
  ASCII are kept, as Quote does for printable runes.
\<close>

definition hex_digit :: "nat \<Rightarrow> char" where
  "hex_digit n = (if n < 10 then char_of (48 + n) else char_of (87 + n))"

definition quote_char :: "char \<Rightarrow> string" where
  "quote_char c = (let n = (of_char c :: nat) in
     if n = 34 then [CHR 0x5C, CHR 0x22]
     else if n = 92 then [CHR 0x5C, CHR 0x5C]
     else if n = 7 then CHR 0x5C # ''a''
     else if n = 8 then CHR 0x5C # ''b''
     else if n = 12 then CHR 0x5C # ''f''
     else if n = 10 then CHR 0x5C # ''n''
     else if n = 13 then CHR 0x5C # ''r''
     else if n = 9 then CHR 0x5C # ''t''
     else if n = 11 then CHR 0x5C # ''v''
     else if n < 32 \<or> n = 127 then CHR 0x5C # CHR ''x'' # [hex_digit (n div 16), hex_digit (n mod 16)]
     else [c])"

definition Quote :: "string \<Rightarrow> string" where
  "Quote s = CHR 0x22 # concat (map quote_char s) @ [CHR 0x22]"

fun show_nat :: "nat \<Rightarrow> string" where
  "show_nat n = (if n < 10 then [char_of (48 + n)] else show_nat (n div 10) @ [char_of (48 + n mod 10)])"

declare show_nat.simps [simp del]

definition show_int :: "int \<Rightarrow> string" where
  "show_int i = (if i < 0 then CHR ''-'' # show_nat (nat (- i)) else show_nat (nat i))"

text \<open>
  \<^verbatim>\<open>v, _ := strconv.ParseInt(s, 10, 64)\<close>: the value with the error dropped, which is 0 for a
  syntax error and the nearest 64-bit value for a number out of range. The scan reports an
  overflow as soon as the digits read so far exceed 64 bits, before it looks at the rest.
\<close>

datatype scan = Syntax | Overflow | Number nat

fun scan_digits :: "nat \<Rightarrow> string \<Rightarrow> scan" where
  "scan_digits n [] = Number n"
| "scan_digits n (c # s) = (let d = (of_char c :: nat) in
     if \<not> (48 \<le> d \<and> d \<le> 57) then Syntax
     else if n * 10 + (d - 48) > 2 ^ 64 - 1 then Overflow
     else scan_digits (n * 10 + (d - 48)) s)"

definition ParseInt64 :: "string \<Rightarrow> int" where
  "ParseInt64 s =
     (let neg = HasPrefix s ''-'';
          digits = (if HasPrefix s ''-'' \<or> HasPrefix s ''+'' then tl s else s)
      in if digits = [] then 0
         else case scan_digits 0 digits of
           Syntax \<Rightarrow> 0
         | Overflow \<Rightarrow> if neg then - (2 ^ 63) else 2 ^ 63 - 1
         | Number n \<Rightarrow> if neg then max (- int n) (- (2 ^ 63)) else min (int n) (2 ^ 63 - 1))"

text \<open>Multiplication of Go's \<^verbatim>\<open>int64\<close>: two's complement wrap-around.\<close>

definition wrap64 :: "int \<Rightarrow> int" where
  "wrap64 x = (x + 2 ^ 63) mod 2 ^ 64 - 2 ^ 63"

lemma wrap64_id: "- (2 ^ 63) \<le> x \<Longrightarrow> x < 2 ^ 63 \<Longrightarrow> wrap64 x = x"
  by (simp add: wrap64_def)

lemma wrap64_range: "- (2 ^ 63) \<le> wrap64 x \<and> wrap64 x < 2 ^ 63"
proof -
  have "0 \<le> (x + 2 ^ 63) mod 2 ^ 64" "(x + 2 ^ 63) mod 2 ^ 64 < 2 ^ 64" by simp_all
  then show ?thesis by (simp add: wrap64_def)
qed

lemma ParseInt64_range: "- (2 ^ 63) \<le> ParseInt64 s \<and> ParseInt64 s < 2 ^ 63"
  by (auto simp: ParseInt64_def Let_def min_def max_def split: scan.splits)

lemma show_nat_graphic: "\<forall>c \<in> set (show_nat n). graphic c"
proof (induction n rule: show_nat.induct)
  case (1 n)
  show ?case
  proof (cases "n < 10")
    case True
    then show ?thesis
      by (simp add: show_nat.simps [of n] graphic_def of_char_of take_bit_eq_mod)
  next
    case False
    have "graphic (char_of (48 + n mod 10))"
      using mod_less_divisor [of 10 n] by (simp add: graphic_def of_char_of take_bit_eq_mod)
    with "1.IH" False show ?thesis by (simp add: show_nat.simps [of n])
  qed
qed

lemma show_nat_not_Nil [simp]: "show_nat n \<noteq> []"
  by (simp add: show_nat.simps [of n])

lemma scan_append:
  "scan_digits n (s @ t) = (case scan_digits n s of Number m \<Rightarrow> scan_digits m t | e \<Rightarrow> e)"
  by (induction n s rule: scan_digits.induct) (auto simp: Let_def)

lemma of_char_digit: "d < 10 \<Longrightarrow> (of_char (char_of (48 + d)) :: nat) = 48 + d"
  by (simp add: of_char_of take_bit_eq_mod)

lemma scan_show_nat: "n \<le> 2 ^ 64 - 1 \<Longrightarrow> scan_digits 0 (show_nat n) = Number n"
proof (induction n rule: show_nat.induct)
  case (1 n)
  show ?case
  proof (cases "n < 10")
    case True
    then show ?thesis using 1(2) by (simp add: show_nat.simps [of n] of_char_digit)
  next
    case False
    have "scan_digits 0 (show_nat (n div 10)) = Number (n div 10)"
      using 1 False by simp
    moreover have "n div 10 * 10 + n mod 10 = n" by simp
    ultimately show ?thesis using 1(2) False
      using mod_less_divisor [of 10 n]
      by (simp add: show_nat.simps [of n] scan_append of_char_digit Let_def less_Suc_eq_le)
  qed
qed

lemma show_nat_hd: "hd (show_nat n) \<noteq> CHR ''-'' \<and> hd (show_nat n) \<noteq> CHR ''+''"
proof (induction n rule: show_nat.induct)
  case (1 n)
  show ?case
  proof (cases "n < 10")
    case True
    then have "(of_char (hd (show_nat n)) :: nat) = 48 + n"
      by (simp add: show_nat.simps [of n] of_char_digit)
    then show ?thesis by auto
  next
    case False
    with 1 show ?thesis by (simp add: show_nat.simps [of n])
  qed
qed

lemma ParseInt64_show_nat: "n < 2 ^ 63 \<Longrightarrow> ParseInt64 (show_nat n) = int n"
proof -
  assume n: "n < 2 ^ 63"
  obtain c s where cs: "show_nat n = c # s" by (cases "show_nat n") auto
  with show_nat_hd [of n] have "\<not> prefix ''-'' (show_nat n)" "\<not> prefix ''+'' (show_nat n)" by auto
  with n show ?thesis by (simp add: ParseInt64_def scan_show_nat)
qed

end
