(* ===== verification/Errors.thy ===== *)
theory Errors
  imports GoStrings
begin

section \<open>Errors as values\<close>

text \<open>
  \<open>err\<close> is the type of the Go errors the program creates, wraps and classifies; a Go value of
  type \<^verbatim>\<open>error\<close> is an \<open>err option\<close>, with \<open>None\<close> for nil.
  \<^item> \<open>NotFoundErr\<close>, \<open>ConflictErr\<close>: API status errors with these reasons, which
    \<^verbatim>\<open>apierrors.IsNotFound\<close> and \<^verbatim>\<open>IsConflict\<close> recognise;
  \<^item> \<open>ExitErr\<close>: an SSH session error that carries the remote exit status;
  \<^item> \<open>OtherErr\<close>: every other error that comes from outside, with its text;
  \<^item> \<open>Errorf\<close>: \<^verbatim>\<open>fmt.Errorf\<close> without a wrapped error;
  \<^item> \<open>Wrapf p e\<close>: \<^verbatim>\<open>fmt.Errorf("p%w", e)\<close> (the program always wraps at the end);
  \<^item> \<open>ConfigError\<close>: \<^verbatim>\<open>configError\<close> of pkg/providers/instance/instance.go.
  \<open>cloud_err\<close> adds the error types of karpenter's cloudprovider package by which karpenter core
  decides what to do with a NodeClaim; \<open>Plain\<close> is any other error.
\<close>

datatype err =
    NotFoundErr string
  | ConflictErr string
  | ExitErr int string
  | OtherErr string
  | Errorf string
  | Wrapf string err
  | ConfigError err

datatype cloud_err =
    Plain err
  | NodeClaimNotFoundError err
  | InsufficientCapacityError err
  | NodeClassNotReadyError err
  | NodeRebootFailedError err
  | CreateError err string string

text \<open>\<open>Error e\<close> is \<^verbatim>\<open>e.Error()\<close>; a config error prints as the error it holds.\<close>

fun Error :: "err \<Rightarrow> string" where
  "Error (NotFoundErr t) = t"
| "Error (ConflictErr t) = t"
| "Error (ExitErr n t) = t"
| "Error (OtherErr t) = t"
| "Error (Errorf t) = t"
| "Error (Wrapf p e) = p @ Error e"
| "Error (ConfigError e) = Error e"

text \<open>The innermost error of the chain of \<^verbatim>\<open>Unwrap\<close> calls.\<close>

fun root :: "err \<Rightarrow> err" where
  "root (Wrapf p e) = root e"
| "root (ConfigError e) = root e"
| "root e = e"

fun isConfigError :: "err \<Rightarrow> bool" where
  "isConfigError (ConfigError e) = True"
| "isConfigError (Wrapf p e) = isConfigError e"
| "isConfigError e = False"

definition IsNotFound :: "err \<Rightarrow> bool" where
  "IsNotFound e = (case root e of NotFoundErr _ \<Rightarrow> True | _ \<Rightarrow> False)"

definition IsConflict :: "err \<Rightarrow> bool" where
  "IsConflict e = (case root e of ConflictErr _ \<Rightarrow> True | _ \<Rightarrow> False)"

text \<open>\<^verbatim>\<open>client.IgnoreNotFound\<close> on a non-nil error.\<close>

definition IgnoreNotFound :: "err \<Rightarrow> err option" where
  "IgnoreNotFound e = (if IsNotFound e then None else Some e)"

lemma IsNotFound_simps [simp]:
  "IsNotFound (NotFoundErr t)" "\<not> IsNotFound (ConflictErr t)" "\<not> IsNotFound (ExitErr n t)"
  "\<not> IsNotFound (OtherErr t)" "\<not> IsNotFound (Errorf t)"
  "IsNotFound (Wrapf p e) = IsNotFound e" "IsNotFound (ConfigError e) = IsNotFound e"
  by (simp_all add: IsNotFound_def)

lemma IsConflict_simps [simp]:
  "\<not> IsConflict (NotFoundErr t)" "IsConflict (ConflictErr t)" "\<not> IsConflict (ExitErr n t)"
  "\<not> IsConflict (OtherErr t)" "\<not> IsConflict (Errorf t)"
  "IsConflict (Wrapf p e) = IsConflict e" "IsConflict (ConfigError e) = IsConflict e"
  by (simp_all add: IsConflict_def)

lemma NotFound_not_Conflict: "IsNotFound e \<Longrightarrow> \<not> IsConflict e"
  by (induction e) auto

end
