(* ===== verification/ApiTypes.thy ===== *)
theory ApiTypes
  imports Errors
begin

section \<open>The API types of pkg/apis/v1beta1 and the karpenter and core types they meet\<close>

text \<open>
  Records follow the Go structs field by field; the metadata fields the program reads are part
  of the object's record. A Go map is an association list: its order is the iteration order the
  runtime happens to choose, so a statement about all lists covers all orders. A quantity is an
  integer number of nano-units, the finest unit \<^verbatim>\<open>resource.Quantity\<close> keeps. A time or a
  duration is an integer number of nanoseconds. A finite \<^verbatim>\<open>float64\<close> is an integer number of units of
  2 to the power -1074, the smallest positive float64.
\<close>

type_synonym Quantity = int
type_synonym ResourceList = "(string \<times> Quantity) list"
type_synonym time = int
type_synonym float64 = int
type_synonym nsname = "string \<times> string"

definition NewQuantity :: "int \<Rightarrow> Quantity" where
  "NewQuantity n = n * 10 ^ 9"

text \<open>\<^verbatim>\<open>ResourceList.Cpu()\<close> and \<^verbatim>\<open>Memory()\<close>: zero when the resource is absent.\<close>

definition quantity :: "ResourceList \<Rightarrow> string \<Rightarrow> Quantity" where
  "quantity rl n = (case map_of rl n of None \<Rightarrow> 0 | Some q \<Rightarrow> q)"

text \<open>Semantic equality of maps: the same value under every key.\<close>

definition same_map :: "('k \<times> 'v) list \<Rightarrow> ('k \<times> 'v) list \<Rightarrow> bool" where
  "same_map a b = list_all (\<lambda>k. map_of a k = map_of b k) (map fst a @ map fst b)"

lemma same_map_iff: "same_map a b \<longleftrightarrow> map_of a = map_of b"
proof
  assume s: "same_map a b"
  show "map_of a = map_of b"
  proof
    fix k
    show "map_of a k = map_of b k"
    proof (cases "k \<in> set (map fst a @ map fst b)")
      case True
      with s show ?thesis unfolding same_map_def list_all_iff by blast
    next
      case False
      then have "map_of a k = None" "map_of b k = None"
        by (auto simp: map_of_eq_None_iff)
      then show ?thesis by simp
    qed
  qed
qed (simp add: same_map_def list_all_iff)

subsection \<open>SSHHost\<close>

datatype HostState =
    StateUnset | Pending | Available | Claimed | InUse | Unhealthy | Leaving | Maintenance

fun show_state :: "HostState \<Rightarrow> string" where
  "show_state StateUnset = ''''"
| "show_state Pending = ''Pending''"
| "show_state Available = ''Available''"
| "show_state Claimed = ''Claimed''"
| "show_state InUse = ''InUse''"
| "show_state Unhealthy = ''Unhealthy''"
| "show_state Leaving = ''Leaving''"
| "show_state Maintenance = ''Maintenance''"

datatype ExecMode = ExecUnset | Raw | Verified

record ClaimReference =
  ref_Name :: string
  ref_UID :: string

datatype ConditionStatus = ConditionTrue | ConditionFalse | ConditionUnknown

record Condition =
  c_Type :: string
  c_Status :: ConditionStatus
  c_ObservedGeneration :: int
  c_LastTransitionTime :: time
  c_Reason :: string
  c_Message :: string

record SSHHostSpec =
  Address :: string
  Port :: int
  User :: string
  SSHKeySecretRef :: string
  NodeAddress :: string
  Capacity :: ResourceList
  spec_ExecMode :: ExecMode
  TrustedSigners :: "string list"
  spec_ShimCommand :: string

record SSHHostStatus =
  State' :: HostState
  Conditions :: "Condition list"
  ClaimRef :: "ClaimReference option"
  InstalledProfile :: string
  BootstrapTokenID :: string
  ProviderID' :: string
  HostKeyFingerprint :: string
  ObservedCapacity :: ResourceList
  ObservedArch :: string
  ObservedGeneration :: int
  LastProbeTime :: "time option"
  LastProbeError :: string

record SSHHost =
  h_Namespace :: string
  h_Name :: string
  h_Labels :: "(string \<times> string) list"
  h_Annotations :: "(string \<times> string) list"
  h_Generation :: int
  h_CreationTimestamp :: time
  h_ResourceVersion :: string
  Spec :: SSHHostSpec
  Status :: SSHHostStatus

definition MaintenanceAnnotation :: string where
  "MaintenanceAnnotation = ''karpenter.dklesev.github.io/maintenance''"

definition HostClassLabel :: string where
  "HostClassLabel = ''karpenter.dklesev.github.io/host-class''"

definition DefaultHostClass :: string where
  "DefaultHostClass = ''default''"

definition ProviderPrefix :: string where
  "ProviderPrefix = ''kpssh://''"

definition Group :: string where
  "Group = ''karpenter.dklesev.github.io''"

definition HostClass :: "SSHHost \<Rightarrow> string" where
  "HostClass h = (case map_of (h_Labels h) HostClassLabel of
       Some c \<Rightarrow> if c \<noteq> '''' then c else DefaultHostClass
     | None \<Rightarrow> DefaultHostClass)"

definition NodeIP :: "SSHHostSpec \<Rightarrow> string" where
  "NodeIP s = (if NodeAddress s \<noteq> '''' then NodeAddress s else Address s)"

text \<open>Replacing the status of a host: what a status write changes.\<close>

definition with_status :: "(SSHHostStatus \<Rightarrow> SSHHostStatus) \<Rightarrow> SSHHost \<Rightarrow> SSHHost" where
  "with_status f h = h\<lparr>Status := f (Status h)\<rparr>"

lemma with_status_simps [simp]:
  "Status (with_status f h) = f (Status h)" "Spec (with_status f h) = Spec h"
  "h_Name (with_status f h) = h_Name h" "h_Namespace (with_status f h) = h_Namespace h"
  "h_Labels (with_status f h) = h_Labels h" "h_Annotations (with_status f h) = h_Annotations h"
  "h_Generation (with_status f h) = h_Generation h"
  "h_ResourceVersion (with_status f h) = h_ResourceVersion h"
  "h_CreationTimestamp (with_status f h) = h_CreationTimestamp h"
  by (simp_all add: with_status_def)

lemma HostClass_with_status [simp]: "HostClass (with_status f h) = HostClass h"
  by (simp add: HostClass_def)

lemma HostClass_nonempty: "HostClass h \<noteq> ''''"
  by (simp add: HostClass_def DefaultHostClass_def split: option.splits)

subsection \<open>SSHNodeClass\<close>

datatype ProviderIDSource = SourceUnset | Static | Adopt

record LabelSelectorRequirement =
  lsr_Key :: string
  lsr_Operator :: string
  lsr_Values :: "string list"

record LabelSelector =
  MatchLabels :: "(string \<times> string) list"
  MatchExpressions :: "LabelSelectorRequirement list"

record PodsReadyCondition =
  pr_Namespace :: string
  pr_Selector :: LabelSelector
  pr_MinReady :: "int option"

record NodeConditionCondition =
  ncc_Type :: string
  ncc_Status :: "ConditionStatus option"

record StartupTaintCondition =
  PodsReady :: "PodsReadyCondition option"
  NodeCondition :: "NodeConditionCondition option"

record StartupTaintGate =
  TaintKey :: string
  RemoveWhen :: StartupTaintCondition

record ClusterAccess =
  Endpoint :: string
  CABundle :: string

record SSHNodeClassSpec =
  HostSelector :: "LabelSelector option"
  JoinProfileRef :: string
  Vars' :: "(string \<times> string) list"
  JoinSecretRef :: "string option"
  ProviderIDSource' :: ProviderIDSource
  PricePerCPUHour :: string
  KubeReserved :: ResourceList
  MaxPods :: "int option"
  Cluster :: "ClusterAccess option"
  StartupTaintGates :: "StartupTaintGate list"

record SSHNodeClass =
  ncl_Name :: string
  ncl_Generation :: int
  ncl_Finalizers :: "string list"
  ncl_Deleted :: bool
  ncl_Spec :: SSHNodeClassSpec
  ncl_Conditions :: "Condition list"

definition SSHNodeClassKind :: string where
  "SSHNodeClassKind = ''SSHNodeClass''"

definition TerminationFinalizer :: string where
  "TerminationFinalizer = ''karpenter.dklesev.github.io/termination''"

definition AnnotationNodeClassHash :: string where
  "AnnotationNodeClassHash = ''karpenter.dklesev.github.io/nodeclass-hash''"

definition AnnotationNodeClassHashVersion :: string where
  "AnnotationNodeClassHashVersion = ''karpenter.dklesev.github.io/nodeclass-hash-version''"

definition NodeClassHashVersion :: string where
  "NodeClassHashVersion = ''v1''"

definition MinReadyOrDefault :: "PodsReadyCondition \<Rightarrow> int" where
  "MinReadyOrDefault p = (case pr_MinReady p of
       None \<Rightarrow> 1
     | Some n \<Rightarrow> if n < 1 then 1 else n)"

definition StatusOrDefault :: "NodeConditionCondition \<Rightarrow> ConditionStatus" where
  "StatusOrDefault n = (case ncc_Status n of None \<Rightarrow> ConditionTrue | Some s \<Rightarrow> s)"

lemma MinReadyOrDefault_pos: "1 \<le> MinReadyOrDefault p"
  by (simp add: MinReadyOrDefault_def split: option.splits)

subsection \<open>SSHJoinProfile\<close>

record ProfileScripts =
  s_Install :: string
  s_Join :: string
  s_Leave :: string
  s_Uninstall :: string
  s_Reboot :: string

record ProfileTimeouts =
  t_Install :: "time option"
  t_Join :: "time option"
  t_Leave :: "time option"
  t_Reboot :: "time option"

record ProfileSignatures =
  g_Install :: string
  g_Join :: string
  g_Leave :: string
  g_Uninstall :: string
  g_Reboot :: string

record SSHJoinProfile =
  p_Name :: string
  Version :: string
  Scripts :: ProfileScripts
  Timeouts :: "ProfileTimeouts option"
  Signatures :: "ProfileSignatures option"

subsection \<open>NodeClaim, Node and Pod: the fields the program reads\<close>

record Taint =
  taint_Key :: string
  taint_Value :: string
  taint_Effect :: string

record NodeClassReference =
  ncr_Group :: string
  ncr_Kind :: string
  ncr_Name :: string

record NodeSelectorRequirement =
  nsr_Key :: string
  nsr_Operator :: string
  nsr_Values :: "string list"

record NodeClaim =
  nc_Name :: string
  nc_UID :: string
  nc_Labels :: "(string \<times> string) list"
  nc_Annotations :: "(string \<times> string) list"
  nc_CreationTimestamp :: time
  nc_Taints :: "Taint list"
  nc_StartupTaints :: "Taint list"
  nc_Requirements :: "NodeSelectorRequirement list"
  nc_Requests :: ResourceList
  nc_NodeClassRef :: "NodeClassReference option"
  nc_ProviderID :: string
  nc_NodeName :: string
  nc_Capacity :: ResourceList
  nc_Allocatable :: ResourceList

record OwnerReference =
  or_APIVersion :: string
  or_Kind :: string
  or_Name :: string

record Node =
  n_Name :: string
  n_ProviderID :: string
  n_Taints :: "Taint list"
  n_Addresses :: "(string \<times> string) list"
  n_Conditions :: "(string \<times> ConditionStatus) list"
  n_OwnerReferences :: "OwnerReference list"
  n_Deleted :: bool
  n_CreationTimestamp :: time

record Pod =
  pod_NodeName :: string
  pod_Deleted :: bool
  pod_Conditions :: "(string \<times> ConditionStatus) list"

text \<open>The index body: the \<^verbatim>\<open>InternalIP\<close> addresses of a Node, in order.\<close>

fun internal_ips :: "(string \<times> string) list \<Rightarrow> string list" where
  "internal_ips [] = []"
| "internal_ips ((t, a) # as) =
     (if t = ''InternalIP'' then a # internal_ips as else internal_ips as)"

definition NodeInternalIPs :: "Node \<Rightarrow> string list" where
  "NodeInternalIPs n = internal_ips (n_Addresses n)"

lemma NodeInternalIPs_iff: "ip \<in> set (NodeInternalIPs n) \<longleftrightarrow> (''InternalIP'', ip) \<in> set (n_Addresses n)"
proof -
  have "ip \<in> set (internal_ips as) \<longleftrightarrow> (''InternalIP'', ip) \<in> set as" for as
    by (induction as rule: internal_ips.induct) auto
  then show ?thesis by (simp add: NodeInternalIPs_def)
qed

end
