(* ===== verification/Profile.thy ===== *)
theory Profile
  imports ApiTypes "HOL-Library.AList"
begin

section \<open>Join profiles: internal/profile/profile.go\<close>

text \<open>
  The join context, its export as \<^verbatim>\<open>KPSSH_*\<close> environment variables, redaction of secret
  material, the choice of script, signature and deadline per phase, rendering and validation.
  The text/template engine is a parameter (\<open>template_engine\<close>): parsing a script may fail, and
  executing it in a context fails or yields the rendered text. Lemmas: the environment is built
  exactly when the secret keys stay distinct, and then maps every name to the right value;
  redaction leaves no secret of at least \<open>minRedactableLen\<close> bytes; the install marker
  determines profile name and version; a profile that passes validation renders its leave.
\<close>

definition PhaseInstall :: string where "PhaseInstall = ''install''"
definition PhaseJoin :: string where "PhaseJoin = ''join''"
definition PhaseLeave :: string where "PhaseLeave = ''leave''"
definition PhaseUninstall :: string where "PhaseUninstall = ''uninstall''"
definition PhaseReboot :: string where "PhaseReboot = ''reboot''"

lemmas phase_defs = PhaseInstall_def PhaseJoin_def PhaseLeave_def PhaseUninstall_def PhaseReboot_def

record Context =
  ClusterEndpoint :: string
  ClusterCACert :: string
  BootstrapToken :: string
  NodeName :: string
  ctx_ProviderID :: string
  NodeLabels :: string
  RegisterWithTaints :: string
  HostAddress :: string
  ctx_NodeAddress :: string
  Vars :: "(string \<times> string) list"
  Secrets :: "(string \<times> string) list"

definition empty_context :: Context where
  "empty_context = \<lparr>ClusterEndpoint = '''', ClusterCACert = '''', BootstrapToken = '''',
     NodeName = '''', ctx_ProviderID = '''', NodeLabels = '''', RegisterWithTaints = '''',
     HostAddress = '''', ctx_NodeAddress = '''', Vars = [], Secrets = []\<rparr>"

record template_engine =
  tpl_Parse :: "string \<Rightarrow> string option"
  tpl_Execute :: "string \<Rightarrow> Context \<Rightarrow> string + string"

subsection \<open>Environment variables\<close>

definition secretEnvName :: "string \<Rightarrow> string" where
  "secretEnvName key = ''KPSSH_SECRET_'' @
     ToUpper (map (\<lambda>c. if c = CHR ''-'' \<or> c = CHR ''.'' then CHR ''_'' else c) key)"

definition base_env :: "Context \<Rightarrow> (string \<times> string) list" where
  "base_env c =
     [(''KPSSH_CLUSTER_ENDPOINT'', ClusterEndpoint c),
      (''KPSSH_CLUSTER_CA_B64'', ClusterCACert c),
      (''KPSSH_BOOTSTRAP_TOKEN'', BootstrapToken c),
      (''KPSSH_NODE_NAME'', NodeName c),
      (''KPSSH_PROVIDER_ID'', ctx_ProviderID c),
      (''KPSSH_NODE_LABELS'', NodeLabels c),
      (''KPSSH_TAINTS'', RegisterWithTaints c),
      (''KPSSH_HOST_ADDRESS'', HostAddress c),
      (''KPSSH_NODE_ADDRESS'', ctx_NodeAddress c)]"

definition varEnvName :: "string \<Rightarrow> string" where
  "varEnvName k = ''KPSSH_VAR_'' @ k"

fun set_vars :: "(string \<times> string) list \<Rightarrow> (string \<times> string) list \<Rightarrow> (string \<times> string) list" where
  "set_vars [] env = env"
| "set_vars ((k, v) # vs) env = set_vars vs (AList.update (varEnvName k) v env)"

text \<open>The loop over the sorted secret keys; \<open>seen\<close> maps an env name to the key that took it.\<close>

fun set_secrets :: "(string \<times> string) list \<Rightarrow> string list \<Rightarrow> (string \<times> string) list \<Rightarrow>
    (string \<times> string) list \<Rightarrow> err + (string \<times> string) list" where
  "set_secrets secrets [] seen env = Inr env"
| "set_secrets secrets (k # ks) seen env =
     (let name = secretEnvName k in
      case map_of seen name of
        Some prev \<Rightarrow> Inl (Errorf (''secret keys '' @ Quote prev @ '' and '' @ Quote k @ '' both map to '' @ name))
      | None \<Rightarrow> set_secrets secrets ks (AList.update name k seen)
          (AList.update name (case map_of secrets k of None \<Rightarrow> '''' | Some v \<Rightarrow> v) env))"

definition Env :: "Context \<Rightarrow> err + (string \<times> string) list" where
  "Env c = set_secrets (Secrets c) (sort (map fst (Secrets c))) [] (set_vars (Vars c) (base_env c))"

subsection \<open>Redaction\<close>

definition redactionPlaceholder :: string where
  "redactionPlaceholder = ''[REDACTED]''"

definition minRedactableLen :: nat where
  "minRedactableLen = 8"

fun redact_values :: "string list \<Rightarrow> string \<Rightarrow> string" where
  "redact_values [] msg = msg"
| "redact_values (v # vs) msg =
     (if length v < minRedactableLen then redact_values vs msg
      else redact_values vs (ReplaceAll msg v redactionPlaceholder))"

definition secret_values :: "Context \<Rightarrow> string list" where
  "secret_values c =
     (if BootstrapToken c \<noteq> ''''
      then BootstrapToken c # (case Cut CHR ''.'' (BootstrapToken c) of
             None \<Rightarrow> [] | Some (_, secret) \<Rightarrow> [secret])
      else []) @ map snd (Secrets c)"

definition Redact :: "Context \<Rightarrow> string \<Rightarrow> string" where
  "Redact c msg = redact_values (sort_key (\<lambda>v. - int (length v)) (secret_values c)) msg"

subsection \<open>Deadlines, scripts and signatures per phase\<close>

definition Timeout :: "SSHJoinProfile \<Rightarrow> string \<Rightarrow> time \<Rightarrow> time" where
  "Timeout p phase def = (case Timeouts p of
       None \<Rightarrow> def
     | Some t \<Rightarrow>
        (let d = (if phase = PhaseInstall then t_Install t
                  else if phase = PhaseJoin then t_Join t
                  else if phase = PhaseLeave then t_Leave t
                  else if phase = PhaseReboot then t_Reboot t
                  else None)
         in case d of None \<Rightarrow> def | Some x \<Rightarrow> if x \<le> 0 then def else x))"

definition Script :: "SSHJoinProfile \<Rightarrow> string \<Rightarrow> string" where
  "Script p phase =
     (if phase = PhaseInstall then s_Install (Scripts p)
      else if phase = PhaseJoin then s_Join (Scripts p)
      else if phase = PhaseLeave then s_Leave (Scripts p)
      else if phase = PhaseUninstall then s_Uninstall (Scripts p)
      else if phase = PhaseReboot then s_Reboot (Scripts p)
      else '''')"

definition Signature :: "SSHJoinProfile \<Rightarrow> string \<Rightarrow> string" where
  "Signature p phase = (case Signatures p of
       None \<Rightarrow> ''''
     | Some s \<Rightarrow>
        if phase = PhaseInstall then g_Install s
        else if phase = PhaseJoin then g_Join s
        else if phase = PhaseLeave then g_Leave s
        else if phase = PhaseUninstall then g_Uninstall s
        else if phase = PhaseReboot then g_Reboot s
        else '''')"

definition HasTemplateActions :: "string \<Rightarrow> bool" where
  "HasTemplateActions raw = Contains raw ''{{''"

subsection \<open>Rendering and validation\<close>

definition parse_script :: "template_engine \<Rightarrow> string \<Rightarrow> string \<Rightarrow> err option" where
  "parse_script T phase raw = (case tpl_Parse T raw of
       None \<Rightarrow> None
     | Some t \<Rightarrow> Some (Wrapf (''parsing '' @ phase @ '' script: '') (OtherErr t)))"

definition Render :: "template_engine \<Rightarrow> SSHJoinProfile \<Rightarrow> string \<Rightarrow> Context \<Rightarrow> err + string" where
  "Render T p phase ctx =
     (if phase \<notin> {PhaseInstall, PhaseJoin, PhaseLeave, PhaseUninstall, PhaseReboot}
      then Inl (Errorf (''unknown phase '' @ Quote phase))
      else let raw = Script p phase in
       if raw = '''' then Inl (Errorf (''profile '' @ p_Name p @ '' has no '' @ phase @ '' script''))
       else case parse_script T phase raw of
          Some e \<Rightarrow> Inl (Wrapf (''profile '' @ p_Name p @ '': '') e)
        | None \<Rightarrow> (case tpl_Execute T raw ctx of
            Inl t \<Rightarrow> Inl (Wrapf (''rendering '' @ phase @ '' script of profile '' @ p_Name p @ '': '')
                             (OtherErr t))
          | Inr out \<Rightarrow> Inr out))"

fun validate_phases :: "template_engine \<Rightarrow> SSHJoinProfile \<Rightarrow> string list \<Rightarrow> err option" where
  "validate_phases T p [] = None"
| "validate_phases T p (phase # ps) =
     (let raw = Script p phase in
      if raw = '''' then
        (if phase = PhaseUninstall \<or> phase = PhaseReboot then validate_phases T p ps
         else Some (Errorf (''profile '' @ p_Name p @ '' has no '' @ phase @ '' script'')))
      else case parse_script T phase raw of
          Some e \<Rightarrow> Some e
        | None \<Rightarrow> validate_phases T p ps)"

definition Validate :: "template_engine \<Rightarrow> SSHJoinProfile \<Rightarrow> err option" where
  "Validate T p =
     (case validate_phases T p [PhaseInstall, PhaseJoin, PhaseLeave, PhaseUninstall, PhaseReboot] of
        Some e \<Rightarrow> Some e
      | None \<Rightarrow>
        (case Render T p PhaseLeave empty_context of
           Inl e \<Rightarrow> Some (Wrapf ''leave script must render without a node class (it runs on release and zombie-guard paths): '' e)
         | Inr _ \<Rightarrow>
           if Script p PhaseReboot \<noteq> '''' then
             (case Render T p PhaseReboot empty_context of
                Inl e \<Rightarrow> Some (Wrapf ''reboot script must render without a node class (repair runs it with the host alone): '' e)
              | Inr _ \<Rightarrow> None)
           else None))"

definition InstalledMarker :: "SSHJoinProfile \<Rightarrow> string" where
  "InstalledMarker p =
     (let v = (if Version p = '''' then ''1'' else Version p) in p_Name p @ ''@'' @ v)"

subsection \<open>The environment\<close>

lemma varEnvName_inject [simp]: "varEnvName a = varEnvName b \<longleftrightarrow> a = b"
  by (simp add: varEnvName_def)

lemma map_of_set_vars:
  "distinct (map fst vs) \<Longrightarrow> map_of (set_vars vs env) (varEnvName x) =
     (case map_of vs x of None \<Rightarrow> map_of env (varEnvName x) | Some v \<Rightarrow> Some v)"
  by (induction vs env rule: set_vars.induct)
    (force simp: update_conv' split: option.splits dest: map_of_SomeD)+

lemma map_of_set_vars_other:
  "\<forall>x. n \<noteq> varEnvName x \<Longrightarrow> map_of (set_vars vs env) n = map_of env n"
  by (induction vs env rule: set_vars.induct) (auto simp: update_conv')

text \<open>The loop succeeds exactly when the names are fresh, and then exports every secret.\<close>

abbreviation secret_value :: "(string \<times> string) list \<Rightarrow> string \<Rightarrow> string" where
  "secret_value S k \<equiv> (case map_of S k of None \<Rightarrow> '''' | Some v \<Rightarrow> v)"

lemma set_secrets_Inr:
  assumes "distinct (map secretEnvName ks)" and "\<forall>k \<in> set ks. map_of seen (secretEnvName k) = None"
  shows "set_secrets S ks seen env =
    Inr (fold (\<lambda>k. AList.update (secretEnvName k) (secret_value S k)) ks env)"
  using assms
proof (induction S ks seen env rule: set_secrets.induct)
  case (2 secrets k ks seen env)
  from 2(2) have "\<forall>x \<in> set ks. secretEnvName x \<noteq> secretEnvName k" by (auto simp: image_iff)
  with 2(3) have "\<forall>x \<in> set ks. map_of (AList.update (secretEnvName k) k seen) (secretEnvName x) = None"
    by (simp add: update_conv')
  with 2(1) [OF refl] 2(2,3) show ?case by (simp add: Let_def)
qed simp

lemma set_secrets_Inl:
  assumes "\<not> (distinct (map secretEnvName ks) \<and> (\<forall>k \<in> set ks. map_of seen (secretEnvName k) = None))"
  shows "\<exists>e. set_secrets S ks seen env = Inl e"
  using assms
proof (induction S ks seen env rule: set_secrets.induct)
  case (2 secrets k ks seen env)
  show ?case
  proof (cases "map_of seen (secretEnvName k)")
    case None
    let ?seen = "AList.update (secretEnvName k) k seen"
    have "\<not> (distinct (map secretEnvName ks) \<and> (\<forall>x \<in> set ks. map_of ?seen (secretEnvName x) = None))"
    proof
      assume a: "distinct (map secretEnvName ks) \<and> (\<forall>x \<in> set ks. map_of ?seen (secretEnvName x) = None)"
      then have "\<forall>x \<in> set ks. secretEnvName x \<noteq> secretEnvName k \<and> map_of seen (secretEnvName x) = None"
        by (auto simp: update_conv' split: if_splits)
      with a None 2(2) show False by (auto simp: image_iff)
    qed
    with 2(1) [OF refl None] None show ?thesis by (simp add: Let_def)
  next
    case (Some prev)
    then show ?thesis by (simp add: Let_def)
  qed
qed simp

lemma map_of_fold_update:
  assumes "distinct (map f ks)"
  shows "map_of (fold (\<lambda>k. AList.update (f k) (g k)) ks env) n =
    (case List.find (\<lambda>k. f k = n) ks of Some k \<Rightarrow> Some (g k) | None \<Rightarrow> map_of env n)"
  using assms
proof (induction ks arbitrary: env)
  case (Cons k ks)
  show ?case
  proof (cases "f k = n")
    case True
    with Cons.prems have "\<forall>x \<in> set ks. f x \<noteq> n" by (auto simp: image_iff)
    then have "List.find (\<lambda>k. f k = n) ks = None" by (auto simp: find_None_iff)
    with True Cons show ?thesis by (simp add: update_conv')
  next
    case False
    with Cons show ?thesis by (simp add: update_conv' split: option.splits)
  qed
qed simp

text \<open>
  The names under which secrets are exported are distinct from the fixed names and from the
  names of variables, which have other prefixes.
\<close>

lemma secretEnvName_not_var: "secretEnvName k \<noteq> varEnvName x"
  by (simp add: secretEnvName_def varEnvName_def)

lemma base_env_names:
  "(n, v) \<in> set (base_env c) \<Longrightarrow> n \<noteq> varEnvName x \<and> n \<noteq> secretEnvName k"
  by (auto simp: base_env_def secretEnvName_def varEnvName_def)

lemma base_env_lookup_other: "map_of (base_env c) (varEnvName x) = None"
  "map_of (base_env c) (secretEnvName k) = None"
  by (simp_all add: base_env_def varEnvName_def secretEnvName_def)

lemma find_inj:
  assumes "k \<in> set ks" and "distinct (map f ks)"
  shows "List.find (\<lambda>x. f x = f k) ks = Some k"
  using assms by (induction ks) (auto simp: image_iff)

lemma Env_Inr:
  assumes "distinct (map secretEnvName (map fst (Secrets c)))"
  shows "Env c = Inr (fold (\<lambda>k. AList.update (secretEnvName k) (secret_value (Secrets c) k))
      (sort (map fst (Secrets c))) (set_vars (Vars c) (base_env c)))"
proof -
  have "mset (map secretEnvName (sort (map fst (Secrets c)))) = mset (map secretEnvName (map fst (Secrets c)))"
    by (simp only: mset_map mset_sort)
  with assms have "distinct (map secretEnvName (sort (map fst (Secrets c))))"
    by (metis mset_eq_imp_distinct_iff)
  then show ?thesis by (simp add: Env_def set_secrets_Inr)
qed

lemma Env_lookup_secret:
  assumes "distinct (map secretEnvName (map fst (Secrets c)))" and "(k, v) \<in> set (Secrets c)"
    and "Env c = Inr env"
  shows "map_of env (secretEnvName k) = Some v"
proof -
  let ?ks = "sort (map fst (Secrets c))"
  have "mset (map secretEnvName ?ks) = mset (map secretEnvName (map fst (Secrets c)))"
    by (simp only: mset_map mset_sort)
  with assms(1) have d: "distinct (map secretEnvName ?ks)"
    by (metis mset_eq_imp_distinct_iff)
  have "k \<in> set ?ks" using assms(2) by force
  with d have f: "List.find (\<lambda>x. secretEnvName x = secretEnvName k) ?ks = Some k"
    by (intro find_inj)
  have "distinct (map fst (Secrets c))"
    using assms(1) by (rule distinct_mapD)
  with assms(2) have "map_of (Secrets c) k = Some v" by simp
  with assms(1,3) f show ?thesis
    by (auto simp: Env_Inr map_of_fold_update [OF d])
qed

lemma Env_lookup_other:
  assumes "distinct (map secretEnvName (map fst (Secrets c)))" and "Env c = Inr env"
    and "\<forall>k. n \<noteq> secretEnvName k"
  shows "map_of env n = map_of (set_vars (Vars c) (base_env c)) n"
proof -
  let ?ks = "sort (map fst (Secrets c))"
  have "mset (map secretEnvName ?ks) = mset (map secretEnvName (map fst (Secrets c)))"
    by (simp only: mset_map mset_sort)
  with assms(1) have d: "distinct (map secretEnvName ?ks)"
    by (metis mset_eq_imp_distinct_iff)
  have "List.find (\<lambda>x. secretEnvName x = n) ?ks = None"
    using assms(3) by (auto simp: find_None_iff)
  with assms(1,2) show ?thesis by (auto simp: Env_Inr map_of_fold_update [OF d])
qed

lemma base_env_distinct: "distinct (map fst (base_env c))"
  by (simp add: base_env_def)

text \<open>\<^bold>\<open>The exported environment is complete and unambiguous.\<close> For a context whose variable and
  secret maps are maps (distinct keys), \<^verbatim>\<open>Env\<close> fails exactly when two secret keys normalise to
  the same variable name; otherwise every fixed \<^verbatim>\<open>KPSSH_*\<close> name, every variable and every secret
  is exported under its name with its own value, whatever the iteration order of the maps.\<close>

theorem Env_correct:
  assumes "distinct (map fst (Vars c))" and "distinct (map fst (Secrets c))"
  shows "case Env c of
      Inl e \<Rightarrow> \<not> inj_on secretEnvName (set (map fst (Secrets c)))
    | Inr env \<Rightarrow> inj_on secretEnvName (set (map fst (Secrets c)))
        \<and> (\<forall>(n, v) \<in> set (base_env c). map_of env n = Some v)
        \<and> (\<forall>(k, v) \<in> set (Vars c). map_of env (varEnvName k) = Some v)
        \<and> (\<forall>(k, v) \<in> set (Secrets c). map_of env (secretEnvName k) = Some v)"
proof (cases "inj_on secretEnvName (set (map fst (Secrets c)))")
  case True
  with assms(2) have d: "distinct (map secretEnvName (map fst (Secrets c)))"
    using distinct_map [of secretEnvName "map fst (Secrets c)"] by blast
  then obtain env where env: "Env c = Inr env" by (simp add: Env_Inr)
  have base: "map_of env n = Some v" if "(n, v) \<in> set (base_env c)" for n v
  proof -
    have "map_of env n = map_of (base_env c) n"
      using Env_lookup_other [OF d env, of n] map_of_set_vars_other [of n] base_env_names [OF that]
      by simp
    then show ?thesis using that base_env_distinct by simp
  qed
  have vars: "map_of env (varEnvName k) = Some v" if "(k, v) \<in> set (Vars c)" for k v
  proof -
    have "map_of env (varEnvName k) = map_of (set_vars (Vars c) (base_env c)) (varEnvName k)"
      using Env_lookup_other [OF d env, of "varEnvName k"] secretEnvName_not_var by metis
    also have "\<dots> = Some v" using assms(1) that by (simp add: map_of_set_vars)
    finally show ?thesis .
  qed
  show ?thesis using True base vars Env_lookup_secret [OF d _ env] by (auto simp: env)
next
  case False
  have "\<not> distinct (map secretEnvName (sort (map fst (Secrets c))))"
    using False by (simp add: distinct_map)
  then obtain e where "Env c = Inl e"
    unfolding Env_def using set_secrets_Inl by blast
  with False show ?thesis by simp
qed

definition sample_context :: Context where
  "sample_context = empty_context\<lparr>NodeName := ''n1'', Vars := [(''dns'', ''10.0.0.10'')],
     Secrets := [(''code-b'', ''s3cr3t-value''), (''id.a'', ''activation'')]\<rparr>"

lemma Env_correct_witness:
  "(case Env sample_context of Inl _ \<Rightarrow> False | Inr env \<Rightarrow>
      map_of env ''KPSSH_NODE_NAME'' = Some ''n1''
      \<and> map_of env (varEnvName ''dns'') = Some ''10.0.0.10''
      \<and> map_of env (secretEnvName ''id.a'') = Some ''activation'')"
proof -
  have c: "Vars sample_context = [(''dns'', ''10.0.0.10'')]"
    "Secrets sample_context = [(''code-b'', ''s3cr3t-value''), (''id.a'', ''activation'')]"
    "(''KPSSH_NODE_NAME'', ''n1'') \<in> set (base_env sample_context)"
    by (simp_all add: sample_context_def base_env_def)
  have "inj_on secretEnvName (set (map fst (Secrets sample_context)))"
    by (simp add: c inj_on_def secretEnvName_def ToUpper_def)
  then show ?thesis
    using Env_correct [of sample_context] c by (auto split: sum.splits)
qed

subsection \<open>Redaction leaves no secret behind\<close>

lemma placeholder_bracketed: "redactionPlaceholder = bracketed CHR ''['' ''REDACTED'' CHR '']''"
  by (simp add: redactionPlaceholder_def bracketed_def)

abbreviation redactable :: "string \<Rightarrow> bool" where
  "redactable \<equiv> clear_of CHR ''['' ''REDACTED'' CHR '']''"

lemma redact_values_keeps_out:
  assumes "redactable s" and "\<not> sublist s msg"
  shows "\<not> sublist s (redact_values vs msg)"
  using assms(2)
proof (induction vs msg rule: redact_values.induct)
  case (2 v vs msg)
  have "\<not> sublist s (ReplaceAll msg v redactionPlaceholder)"
    using 2(3) assms(1) sublist_ReplaceAll unfolding placeholder_bracketed by blast
  with 2 show ?case by simp
qed simp

lemma redact_values_removes:
  assumes "redactable s" and "s \<in> set vs" and "minRedactableLen \<le> length s"
  shows "\<not> sublist s (redact_values vs msg)"
  using assms(2)
proof (induction vs arbitrary: msg)
  case (Cons v vs)
  show ?case
  proof (cases "s = v")
    case True
    with assms(3) have "s \<noteq> []" by (auto simp: minRedactableLen_def)
    with assms(1) have "\<not> sublist s (ReplaceAll msg s redactionPlaceholder)"
      unfolding placeholder_bracketed by (rule ReplaceAll_removes)
    with True assms(1,3) show ?thesis by (simp add: redact_values_keeps_out)
  next
    case False
    with Cons show ?thesis by simp
  qed
qed simp

text \<open>C40. \<^bold>\<open>Redaction removes long secrets without square brackets.\<close> Let \<open>s\<close> be one of the secret values of the context: the
  bootstrap token, its secret half or a value of the join secret. If \<open>s\<close> has at least
  \<^verbatim>\<open>minRedactableLen\<close> bytes, contains no square bracket and is not the word of the placeholder
  itself, then \<open>s\<close> occurs nowhere in the redacted message, in whatever way secrets overlap or
  contain each other in the message. The lemma after the witness shows that brackets have to be excluded.\<close>

theorem Redact_no_secret:
  assumes "s \<in> set (secret_values c)" and "minRedactableLen \<le> length s" and "redactable s"
  shows "\<not> sublist s (Redact c msg)"
  unfolding Redact_def using assms by (intro redact_values_removes) auto

lemma Redact_no_secret_witness:
  "\<not> sublist ''s3cr3t-value'' (Redact sample_context ''export A=s3cr3t-values3cr3t-value'')
   \<and> sublist ''s3cr3t-value'' ''export A=s3cr3t-values3cr3t-value''"
proof -
  have "''s3cr3t-value'' \<in> set (secret_values sample_context)"
    by (simp add: secret_values_def sample_context_def empty_context_def)
  moreover have "redactable ''s3cr3t-value''"
    by (simp add: clear_of_def Contains_iff [symmetric])
  ultimately have "\<not> sublist ''s3cr3t-value'' (Redact sample_context ''export A=s3cr3t-values3cr3t-value'')"
    by (intro Redact_no_secret) (simp_all add: minRedactableLen_def)
  then show ?thesis by (simp add: Contains_iff [symmetric])
qed

text \<open>A secret that contains a part of the placeholder can come to be in the message by redaction itself.\<close>

lemma bracket_secret_appears:
  "let c = empty_context\<lparr>Secrets := [(''a'', ''abc[REDAC''), (''b'', ''12345678'')]\<rparr> in
   \<not> Contains ''abc12345678'' ''abc[REDAC'' \<and> Contains (Redact c ''abc12345678'') ''abc[REDAC''"
  by code_simp

subsection \<open>The install marker\<close>

definition effective_version :: "SSHJoinProfile \<Rightarrow> string" where
  "effective_version p = (if Version p = '''' then ''1'' else Version p)"

text \<open>\<^bold>\<open>The install marker identifies profile and version.\<close> For profile names without \<open>@\<close> (Kubernetes
  object names), the part of the marker before the first \<open>@\<close>, by which the leave and reboot
  paths find the installed profile again, is the profile's name, and two profiles have the same
  marker exactly when name and version agree, an empty version counting as version 1.\<close>

theorem InstalledMarker_roundtrip:
  assumes "CHR ''@'' \<notin> set (p_Name p)" and "CHR ''@'' \<notin> set (p_Name q)"
  shows "hd (SplitN2 CHR ''@'' (InstalledMarker p)) = p_Name p
    \<and> (InstalledMarker p = InstalledMarker q \<longleftrightarrow>
         p_Name p = p_Name q \<and> effective_version p = effective_version q)"
proof -
  have m: "InstalledMarker p = p_Name p @ CHR ''@'' # effective_version p" for p
    by (simp add: InstalledMarker_def effective_version_def Let_def)
  have cut: "Cut CHR ''@'' (InstalledMarker p) = Some (p_Name p, effective_version p)"
    if "CHR ''@'' \<notin> set (p_Name p)" for p
    using that by (simp add: m)
  have "InstalledMarker p = InstalledMarker q \<longleftrightarrow>
      Cut CHR ''@'' (InstalledMarker p) = Cut CHR ''@'' (InstalledMarker q)"
    (is "?l \<longleftrightarrow> ?r")
  proof
    assume ?r
    then have "Some (p_Name p, effective_version p) = Some (p_Name q, effective_version q)"
      unfolding cut [OF assms(1)] cut [OF assms(2)] .
    then show ?l by (simp add: m)
  qed simp
  then show ?thesis using assms by (simp add: cut SplitN2_def)
qed

definition sample_profile :: SSHJoinProfile where
  "sample_profile = \<lparr>p_Name = ''tls-bootstrap'', Version = ''2'',
     Scripts = \<lparr>s_Install = ''apt install'', s_Join = ''kubeadm join'', s_Leave = ''systemctl stop kubelet'',
       s_Uninstall = '''', s_Reboot = ''''\<rparr>, Timeouts = None, Signatures = None\<rparr>"

lemma InstalledMarker_roundtrip_witness:
  "hd (SplitN2 CHR ''@'' (InstalledMarker sample_profile)) = ''tls-bootstrap''
   \<and> InstalledMarker sample_profile \<noteq> InstalledMarker (sample_profile\<lparr>Version := ''3''\<rparr>)"
  using InstalledMarker_roundtrip [of sample_profile "sample_profile\<lparr>Version := ''3''\<rparr>"]
  by (simp add: sample_profile_def effective_version_def)

subsection \<open>Validation\<close>

lemma validate_phases_None:
  "validate_phases T p ps = None \<longleftrightarrow>
     (\<forall>ph \<in> set ps. if Script p ph = '''' then ph = PhaseUninstall \<or> ph = PhaseReboot
        else tpl_Parse T (Script p ph) = None)"
  by (induction T p ps rule: validate_phases.induct)
    (auto simp: Let_def parse_script_def split: option.splits)

lemma Render_ok:
  assumes "ph \<in> {PhaseInstall, PhaseJoin, PhaseLeave, PhaseUninstall, PhaseReboot}"
  shows "(\<exists>out. Render T p ph ctx = Inr out) \<longleftrightarrow>
    Script p ph \<noteq> '''' \<and> tpl_Parse T (Script p ph) = None \<and> (\<exists>out. tpl_Execute T (Script p ph) ctx = Inr out)"
  using assms by (auto simp: Render_def Let_def parse_script_def split: option.splits sum.splits)

text \<open>\<^bold>\<open>Validation accepts exactly the usable profiles.\<close> \<^verbatim>\<open>Validate\<close> reports no error if and only if
  install, join and leave are present, every present script parses, the leave script executes in
  the empty context, and so does the reboot script when there is one.\<close>

theorem Validate_iff:
  "Validate T p = None \<longleftrightarrow>
     (\<forall>ph \<in> {PhaseInstall, PhaseJoin, PhaseLeave}. Script p ph \<noteq> '''')
   \<and> (\<forall>ph \<in> {PhaseInstall, PhaseJoin, PhaseLeave, PhaseUninstall, PhaseReboot}.
        Script p ph \<noteq> '''' \<longrightarrow> tpl_Parse T (Script p ph) = None)
   \<and> (\<exists>out. Render T p PhaseLeave empty_context = Inr out)
   \<and> (Script p PhaseReboot \<noteq> '''' \<longrightarrow> (\<exists>out. Render T p PhaseReboot empty_context = Inr out))"
proof -
  have "PhaseInstall \<noteq> PhaseUninstall" "PhaseInstall \<noteq> PhaseReboot" "PhaseJoin \<noteq> PhaseUninstall"
    "PhaseJoin \<noteq> PhaseReboot" "PhaseLeave \<noteq> PhaseUninstall" "PhaseLeave \<noteq> PhaseReboot"
    by (simp_all add: phase_defs)
  moreover have "Validate T p = None \<longleftrightarrow>
      validate_phases T p [PhaseInstall, PhaseJoin, PhaseLeave, PhaseUninstall, PhaseReboot] = None
      \<and> (\<exists>out. Render T p PhaseLeave empty_context = Inr out)
      \<and> (Script p PhaseReboot \<noteq> '''' \<longrightarrow> (\<exists>out. Render T p PhaseReboot empty_context = Inr out))"
    unfolding Validate_def
    by (simp del: validate_phases.simps split: option.splits sum.splits)
  ultimately show ?thesis unfolding validate_phases_None by auto
qed

definition verbatim_engine :: template_engine where
  "verbatim_engine = \<lparr>tpl_Parse = (\<lambda>_. None), tpl_Execute = (\<lambda>raw _. Inr raw)\<rparr>"

lemma Validate_iff_witness: "Validate verbatim_engine sample_profile = None"
  unfolding Validate_iff
  by (simp add: verbatim_engine_def sample_profile_def Script_def phase_defs Render_def parse_script_def)

end
