(* ===== verification/Codec.thy ===== *)
theory Codec
  imports GoStrings
begin

section \<open>Encodings\<close>

text \<open>
  The interface of an encoding: decoding what was encoded gives the value back, for the values
  the encoding supports. Clients get injectivity from it. \<open>line_codec\<close> adds that an encoded
  value never contains a line feed, which is what line-based framing needs. Standard base64
  (\<^verbatim>\<open>encoding/base64.StdEncoding\<close>) is an instance of both; the envelope fields, the SSH wire
  strings and the provider ids of later theories are further instances.
\<close>

locale codec =
  fixes enc :: "'a \<Rightarrow> string" and dec :: "string \<Rightarrow> 'a option" and ok :: "'a \<Rightarrow> bool"
  assumes dec_enc: "ok x \<Longrightarrow> dec (enc x) = Some x"
begin

lemma enc_inject: "ok x \<Longrightarrow> ok y \<Longrightarrow> enc x = enc y \<longleftrightarrow> x = y"
  using dec_enc by (metis option.inject)

lemma enc_decodes_only_to: "ok x \<Longrightarrow> dec (enc x) = Some y \<longleftrightarrow> y = x"
  using dec_enc by auto

end

locale line_codec = codec +
  assumes enc_one_line: "ok x \<Longrightarrow> CHR 0x0A \<notin> set (enc x)"
begin

text \<open>A field line followed by anything splits at the end of the field.\<close>

lemma cut_line: "ok x \<Longrightarrow> Cut CHR 0x0A (enc x @ CHR 0x0A # rest) = Some (enc x, rest)"
  using enc_one_line by simp

end

text \<open>A self-delimiting encoding: the decoder finds the end of the encoded value by itself, so
  encoded values can be concatenated. Read on a whole string it is a \<open>codec\<close>.\<close>

definition whole :: "(string \<Rightarrow> ('a \<times> string) option) \<Rightarrow> string \<Rightarrow> 'a option" where
  "whole dec s = (case dec s of Some (x, []) \<Rightarrow> Some x | _ \<Rightarrow> None)"

locale prefix_codec =
  fixes penc :: "'a \<Rightarrow> string" and pdec :: "string \<Rightarrow> ('a \<times> string) option" and pok :: "'a \<Rightarrow> bool"
  assumes pdec_penc: "pok x \<Longrightarrow> pdec (penc x @ rest) = Some (x, rest)"
begin

lemma penc_append_inject: "pok x \<Longrightarrow> pok y \<Longrightarrow> penc x @ s = penc y @ t \<longleftrightarrow> x = y \<and> s = t"
  using pdec_penc by (metis option.inject prod.inject)

end

sublocale prefix_codec \<subseteq> whole: codec penc "whole pdec" pok
proof
  show "whole pdec (penc x) = Some x" if "pok x" for x
    using pdec_penc [OF that, of "[]"] by (simp add: whole_def)
qed

subsection \<open>Base64\<close>

definition b64_char :: "nat \<Rightarrow> char" where
  "b64_char n = (if n < 26 then char_of (65 + n) else if n < 52 then char_of (71 + n)
     else if n < 62 then char_of (n - 4) else if n = 62 then CHR ''+'' else CHR ''/'')"

definition b64_val :: "char \<Rightarrow> nat option" where
  "b64_val c = (let k = (of_char c :: nat) in
     if 65 \<le> k \<and> k \<le> 90 then Some (k - 65)
     else if 97 \<le> k \<and> k \<le> 122 then Some (k - 71)
     else if 48 \<le> k \<and> k \<le> 57 then Some (k + 4)
     else if k = 43 then Some 62 else if k = 47 then Some 63 else None)"

text \<open>The four 6-bit digits of a group of three bytes \<open>m\<close>, \<open>n\<close>, \<open>l\<close>.\<close>

definition digit1 :: "nat \<Rightarrow> nat" where "digit1 m = m div 4"
definition digit2 :: "nat \<Rightarrow> nat \<Rightarrow> nat" where "digit2 m n = m mod 4 * 16 + n div 16"
definition digit3 :: "nat \<Rightarrow> nat \<Rightarrow> nat" where "digit3 n l = n mod 16 * 4 + l div 64"
definition digit4 :: "nat \<Rightarrow> nat" where "digit4 l = l mod 64"

text \<open>The three bytes of a group of four digits.\<close>

definition byte1 :: "nat \<Rightarrow> nat \<Rightarrow> nat" where "byte1 a b = a * 4 + b div 16"
definition byte2 :: "nat \<Rightarrow> nat \<Rightarrow> nat" where "byte2 b c = b mod 16 * 16 + c div 4"
definition byte3 :: "nat \<Rightarrow> nat \<Rightarrow> nat" where "byte3 c d = c mod 4 * 64 + d"

fun b64_encode :: "string \<Rightarrow> string" where
  "b64_encode [] = []"
| "b64_encode [a] = [b64_char (digit1 (of_char a)), b64_char (digit2 (of_char a) 0), CHR ''='', CHR ''='']"
| "b64_encode [a, b] =
     [b64_char (digit1 (of_char a)), b64_char (digit2 (of_char a) (of_char b)),
      b64_char (digit3 (of_char b) 0), CHR ''='']"
| "b64_encode (a # b # c # s) =
     [b64_char (digit1 (of_char a)), b64_char (digit2 (of_char a) (of_char b)),
      b64_char (digit3 (of_char b) (of_char c)), b64_char (digit4 (of_char c))] @ b64_encode s"

text \<open>A strict decoder: groups of four digits, padding only in the last group.\<close>

fun b64_decode :: "string \<Rightarrow> string option" where
  "b64_decode [] = Some []"
| "b64_decode [p, q, r, s] =
     (case (b64_val p, b64_val q) of
        (Some a, Some b) \<Rightarrow>
          (if r = CHR ''='' \<and> s = CHR ''='' then
             (if b mod 16 = 0 then Some [char_of (byte1 a b)] else None)
           else case b64_val r of
              None \<Rightarrow> None
            | Some c \<Rightarrow>
               if s = CHR ''='' then
                 (if c mod 4 = 0 then Some [char_of (byte1 a b), char_of (byte2 b c)] else None)
               else map_option (\<lambda>d. [char_of (byte1 a b), char_of (byte2 b c), char_of (byte3 c d)])
                      (b64_val s))
      | _ \<Rightarrow> None)"
| "b64_decode (p # q # r # s # rest) =
     (case (b64_val p, b64_val q, b64_val r, b64_val s) of
        (Some a, Some b, Some c, Some d) \<Rightarrow>
          map_option (\<lambda>t. char_of (byte1 a b) # char_of (byte2 b c) # char_of (byte3 c d) # t)
            (b64_decode rest)
      | _ \<Rightarrow> None)"
| "b64_decode _ = None"

lemma of_char_less [simp]: "(of_char c :: nat) < 256"
proof -
  have "(of_char c :: nat) = of_char c mod 256"
    using of_char_of [of "of_char c :: nat"] by simp
  then show ?thesis by (metis mod_less_divisor zero_less_numeral)
qed

lemma b64_val_char [simp]: "n < 64 \<Longrightarrow> b64_val (b64_char n) = Some n"
  by (auto simp: b64_val_def b64_char_def Let_def)

lemma b64_char_not_pad [simp]: "n < 64 \<Longrightarrow> b64_char n \<noteq> CHR ''=''"
  using b64_val_char [of n] by (auto simp: b64_val_def)

lemma b64_char_not_newline [simp]: "n < 64 \<Longrightarrow> CHR 0x0A \<noteq> b64_char n"
  using b64_val_char [of n] by (auto simp: b64_val_def dest: sym)

lemma b64_char_not_nul [simp]: "n < 64 \<Longrightarrow> CHR 0x00 \<noteq> b64_char n"
  using b64_val_char [of n] by (auto simp: b64_val_def dest: sym)

lemma digit_bounds [simp]:
  "m < 256 \<Longrightarrow> digit1 m < 64" "m < 256 \<Longrightarrow> n < 256 \<Longrightarrow> digit2 m n < 64"
  "n < 256 \<Longrightarrow> l < 256 \<Longrightarrow> digit3 n l < 64" "l < 256 \<Longrightarrow> digit4 l < 64"
proof -
  have "n div 16 < 16" if "n < 256" for n :: nat using that by (simp add: less_mult_imp_div_less)
  moreover have "l div 64 < 4" if "l < 256" for l :: nat using that by (simp add: less_mult_imp_div_less)
  moreover have "m mod 4 < 4" "n mod 16 < 16" for m n :: nat by simp_all
  ultimately show "m < 256 \<Longrightarrow> n < 256 \<Longrightarrow> digit2 m n < 64" "n < 256 \<Longrightarrow> l < 256 \<Longrightarrow> digit3 n l < 64"
    unfolding digit2_def digit3_def by fastforce+
qed (simp_all add: digit1_def digit4_def less_mult_imp_div_less)

lemma byte_digit [simp]:
  "n < 256 \<Longrightarrow> byte1 (digit1 m) (digit2 m n) = m"
  "l < 256 \<Longrightarrow> n < 256 \<Longrightarrow> byte2 (digit2 m n) (digit3 n l) = n"
  "l < 256 \<Longrightarrow> byte3 (digit3 n l) (digit4 l) = l"
proof -
  have n: "n div 16 < 16" if "n < 256" for n :: nat using that by (simp add: less_mult_imp_div_less)
  have l: "l div 64 < 4" if "l < 256" for l :: nat using that by (simp add: less_mult_imp_div_less)
  show "n < 256 \<Longrightarrow> byte1 (digit1 m) (digit2 m n) = m"
    using n [of n] by (simp add: byte1_def digit1_def digit2_def)
  show "l < 256 \<Longrightarrow> n < 256 \<Longrightarrow> byte2 (digit2 m n) (digit3 n l) = n"
    using n [of n] l [of l] by (simp add: byte2_def digit2_def digit3_def)
  show "l < 256 \<Longrightarrow> byte3 (digit3 n l) (digit4 l) = l"
    using l [of l] by (simp add: byte3_def digit3_def digit4_def)
qed

lemma digit_pad [simp]: "digit2 m 0 mod 16 = 0" "digit3 n 0 mod 4 = 0"
  by (simp_all add: digit2_def digit3_def)

lemma b64_decode_group:
  "b64_decode (b64_encode (a # b # c # s)) = map_option (\<lambda>t. a # b # c # t) (b64_decode (b64_encode s))"
  by (cases "b64_encode s") simp_all

lemma b64_roundtrip: "b64_decode (b64_encode s) = Some s"
proof (induction s rule: b64_encode.induct)
  case (4 a b c s)
  then show ?case unfolding b64_decode_group by simp
qed simp_all

lemma b64_one_line: "CHR 0x0A \<notin> set (b64_encode s)"
  by (induction s rule: b64_encode.induct) simp_all

lemma b64_no_nul: "CHR 0x00 \<notin> set (b64_encode s)"
  by (induction s rule: b64_encode.induct) simp_all

lemma b64_encode_Nil [simp]: "b64_encode s = [] \<longleftrightarrow> s = []"
  by (cases s rule: b64_encode.cases) simp_all

interpretation b64: line_codec b64_encode b64_decode "\<lambda>_. True"
  by unfold_locales (simp_all add: b64_roundtrip b64_one_line)

end
