(* ===== verification/SshSig.thy ===== *)
theory SshSig
  imports Codec Errors "HOL-Library.Word"
begin

section \<open>SSHSIG verification: internal/sshexec/sshsig.go\<close>

text \<open>
  The controller proves that a phase script is signed by a trusted signer before it connects.
  The parsing of the signature and the whole decision are modelled; golang.org/x/crypto/ssh, the
  PEM decoder and the hash functions are the parameter \<open>ssh_lib\<close>, over any type of keys. Bytes
  are characters, \<^verbatim>\<open>uint32\<close> is \<open>32 word\<close>. The main theorem says exactly which inputs are
  accepted; a second one, that the bytes that are signed determine what was signed.
\<close>

record 'k ssh_lib =
  pem_Decode :: "string \<Rightarrow> (string \<times> string) option"
  ParsePublicKey :: "string \<Rightarrow> err + 'k"
  ParseAuthorizedKey :: "string \<Rightarrow> err + 'k"
  ParseKnownHosts :: "string \<Rightarrow> err + 'k"
  MarshalKey :: "'k \<Rightarrow> string"
  VerifyKey :: "'k \<Rightarrow> string \<Rightarrow> string \<times> string \<Rightarrow> err option"
  sha256_Sum256 :: "string \<Rightarrow> string"
  sha512_Sum512 :: "string \<Rightarrow> string"

definition DefaultSignNamespace :: string where
  "DefaultSignNamespace = ''kpssh''"

definition sshsigMagic :: string where
  "sshsigMagic = ''SSHSIG''"

subsection \<open>SSH wire strings\<close>

text \<open>\<^verbatim>\<open>binary.BigEndian\<close> on four bytes.\<close>

definition PutUint32 :: "32 word \<Rightarrow> string" where
  "PutUint32 w = (let n = unat w in
     [char_of (n div 256 div 256 div 256), char_of (n div 256 div 256 mod 256),
      char_of (n div 256 mod 256), char_of (n mod 256)])"

fun Uint32 :: "string \<Rightarrow> 32 word" where
  "Uint32 (a # b # c # d # _) =
     word_of_nat (((of_char a * 256 + of_char b) * 256 + of_char c) * 256 + of_char d)"
| "Uint32 _ = 0"

definition readSSHString :: "string \<Rightarrow> err + string \<times> string" where
  "readSSHString b =
     (if length b < 4 then Inl (Errorf ''truncated length prefix'')
      else let n = Uint32 (take 4 b); b' = drop 4 b in
        if length b' < unat n then Inl (Errorf ''truncated string body'')
        else Inr (take (unat n) b', drop (unat n) b'))"

definition appendSSHString :: "string \<Rightarrow> string \<Rightarrow> string" where
  "appendSSHString dst s = (dst @ PutUint32 (word_of_nat (length s))) @ s"

subsection \<open>Trusted signers\<close>

fun parse_signers :: "'k ssh_lib \<Rightarrow> string list \<Rightarrow> err + 'k list" where
  "parse_signers L [] = Inr []"
| "parse_signers L (l # ls) =
     (let l' = TrimSpace l in
      if l' = '''' then parse_signers L ls
      else case ParseAuthorizedKey L l' of
          Inl e \<Rightarrow> Inl (Wrapf (''parsing trusted signer '' @ Quote l' @ '': '') e)
        | Inr pub \<Rightarrow> (case parse_signers L ls of Inl e \<Rightarrow> Inl e | Inr out \<Rightarrow> Inr (pub # out)))"

definition ParseTrustedSigners :: "'k ssh_lib \<Rightarrow> string list \<Rightarrow> err + 'k list" where
  "ParseTrustedSigners L lines =
     (case parse_signers L lines of
        Inl e \<Rightarrow> Inl e
      | Inr out \<Rightarrow> if out = [] then Inl (Errorf ''no trusted signers parsed'') else Inr out)"

subsection \<open>Verification\<close>

definition signatureAlgorithms :: "string list" where
  "signatureAlgorithms = [''ssh-ed25519'', ''rsa-sha2-256'', ''rsa-sha2-512'',
     ''ecdsa-sha2-nistp256'', ''ecdsa-sha2-nistp384'', ''ecdsa-sha2-nistp521'',
     ''sk-ssh-ed25519@openssh.com'', ''sk-ecdsa-sha2-nistp256@openssh.com'']"

text \<open>The fields after the version, in the order of the wire format; a field that cannot be read
  is reported under its name.\<close>

fun read_fields :: "string list \<Rightarrow> string \<Rightarrow> err + string list \<times> string" where
  "read_fields [] b = Inr ([], b)"
| "read_fields (f # fs) b =
     (case readSSHString b of
        Inl e \<Rightarrow> Inl (Wrapf (''sshsig: '' @ f @ '': '') e)
      | Inr (v, rest) \<Rightarrow>
          (case read_fields fs rest of Inl e \<Rightarrow> Inl e | Inr (vs, rest') \<Rightarrow> Inr (v # vs, rest')))"

definition authorized :: "'k ssh_lib \<Rightarrow> 'k option list \<Rightarrow> 'k \<Rightarrow> bool" where
  "authorized L allowed pub =
     list_ex (\<lambda>a. case a of None \<Rightarrow> False | Some k \<Rightarrow> MarshalKey L k = MarshalKey L pub) allowed"

definition message_hash :: "'k ssh_lib \<Rightarrow> string \<Rightarrow> string \<Rightarrow> string option" where
  "message_hash L alg message =
     (if alg = ''sha256'' then Some (sha256_Sum256 L message)
      else if alg = ''sha512'' then Some (sha512_Sum512 L message)
      else None)"

definition signed_blob :: "string \<Rightarrow> string \<Rightarrow> string \<Rightarrow> string" where
  "signed_blob ns hash mh =
     appendSSHString (appendSSHString (appendSSHString (appendSSHString sshsigMagic ns) '''') hash) mh"

definition verify_fields ::
  "'k ssh_lib \<Rightarrow> string \<Rightarrow> 'k option list \<Rightarrow> string \<Rightarrow> string list \<Rightarrow> err option" where
  "verify_fields L message allowed namespace vals =
     (let pkBytes = vals ! 0; nsBytes = vals ! 1; hashBytes = vals ! 3; sigBytes = vals ! 4 in
      if nsBytes \<noteq> namespace then
        Some (Errorf (''sshsig: namespace '' @ Quote nsBytes @ '', want '' @ Quote namespace))
      else case ParsePublicKey L pkBytes of
          Inl e \<Rightarrow> Some (Wrapf ''sshsig: parse publickey: '' e)
        | Inr pub \<Rightarrow>
            if \<not> authorized L allowed pub then Some (Errorf ''sshsig: signer not in the trusted set'')
            else case message_hash L hashBytes message of
                None \<Rightarrow> Some (Errorf (''sshsig: unsupported hash '' @ Quote hashBytes))
              | Some mh \<Rightarrow>
                  (case read_fields [''inner signature format'', ''inner signature blob''] sigBytes of
                     Inl e \<Rightarrow> Some e
                   | Inr (inner, _) \<Rightarrow>
                       let sigFormat = inner ! 0; sigBlob = inner ! 1 in
                       if sigFormat \<notin> set signatureAlgorithms then
                         Some (Errorf (''sshsig: signature algorithm '' @ Quote sigFormat @ '' is not permitted''))
                       else case VerifyKey L pub (signed_blob nsBytes hashBytes mh) (sigFormat, sigBlob) of
                           Some e \<Rightarrow> Some (Wrapf ''sshsig: signature verification failed: '' e)
                         | None \<Rightarrow> None))"

definition VerifySSHSIG ::
  "'k ssh_lib \<Rightarrow> string \<Rightarrow> string \<Rightarrow> 'k option list \<Rightarrow> string \<Rightarrow> err option" where
  "VerifySSHSIG L message armored allowed ns =
     (let namespace = (if ns = '''' then DefaultSignNamespace else ns) in
      if allowed = [] then Some (Errorf ''sshsig: no trusted signers configured'')
      else case pem_Decode L armored of
          None \<Rightarrow> Some (Errorf ''sshsig: not an armored SSH signature'')
        | Some (typ, b) \<Rightarrow>
            if typ \<noteq> ''SSH SIGNATURE'' then Some (Errorf ''sshsig: not an armored SSH signature'')
            else if length b < 10 \<or> take 6 b \<noteq> sshsigMagic then Some (Errorf ''sshsig: bad magic'')
            else if Uint32 (take 4 (drop 6 b)) \<noteq> 1 then
              Some (Errorf (''sshsig: unsupported version '' @ show_nat (unat (Uint32 (take 4 (drop 6 b))))))
            else case read_fields [''publickey'', ''namespace'', ''reserved'', ''hash_algorithm'', ''signature'']
                        (drop 10 b) of
                Inl e \<Rightarrow> Some e
              | Inr (vals, _) \<Rightarrow> verify_fields L message allowed namespace vals)"

subsection \<open>The wire strings are a self-delimiting code\<close>

lemma length_PutUint32 [simp]: "length (PutUint32 w) = 4"
  by (simp add: PutUint32_def Let_def)

lemma base256: "((n div 256 div 256 div 256 * 256 + n div 256 div 256 mod 256) * 256 + n div 256 mod 256) * 256
  + n mod 256 = (n :: nat)"
  by (simp add: div_mult_mod_eq)

lemma Uint32_PutUint32 [simp]: "Uint32 (PutUint32 w) = w"
proof -
  have "unat w < 2 ^ 32" using unsigned_less [of w] by simp
  then have top: "unat w div 256 div 256 div 256 < 256" by (simp add: less_mult_imp_div_less div_mult2_eq [symmetric])
  show ?thesis unfolding PutUint32_def Let_def by (simp add: base256 top)
qed

lemma base256_less:
  assumes "p < 256" and "q < 256" and "r < 256" and "s < 256"
  shows "((p * 256 + q) * 256 + r) * 256 + s < (4294967296 :: nat)"
proof -
  have step: "m * 256 + d < 256 * k" if "m < k" "d < 256" for m d k :: nat using that by linarith
  from step [OF step [OF step [OF assms(1,2)] assms(3)] assms(4)] show ?thesis by simp
qed

lemma PutUint32_Uint32:
  assumes "length b = 4"
  shows "PutUint32 (Uint32 b) = b"
proof -
  obtain p q r s where b: "b = [p, q, r, s]"
    using assms by (auto simp: length_Suc_conv numeral_eq_Suc)
  let ?p = "of_char p :: nat" and ?q = "of_char q :: nat" and ?r = "of_char r :: nat" and ?s = "of_char s :: nat"
  let ?n = "((?p * 256 + ?q) * 256 + ?r) * 256 + ?s"
  have lt: "?p < 256" "?q < 256" "?r < 256" "?s < 256" by simp_all
  then have "?n < 4294967296" by (rule base256_less)
  then have n: "unat (Uint32 b) = ?n" unfolding b
    using unat_of_nat [of ?n, where 'a = 32] by (simp del: of_nat_add of_nat_mult)
  have digit: "(m * 256 + d) div 256 = m" "(m * 256 + d) mod 256 = d" if "d < 256" for m d :: nat
    using that by simp_all
  show ?thesis unfolding PutUint32_def n Let_def unfolding b digit [OF lt(4)] digit [OF lt(3)] digit [OF lt(2)]
    by simp
qed

abbreviation ssh_string :: "string \<Rightarrow> string" where
  "ssh_string s \<equiv> appendSSHString [] s"

abbreviation fits32 :: "string \<Rightarrow> bool" where
  "fits32 s \<equiv> length s < 2 ^ 32"

lemma appendSSHString_eq: "appendSSHString dst s = dst @ ssh_string s"
  by (simp add: appendSSHString_def)

lemma readSSHString_append: "fits32 s \<Longrightarrow> readSSHString (ssh_string s @ rest) = Inr (s, rest)"
  by (simp add: readSSHString_def appendSSHString_def Let_def unat_of_nat)

lemma readSSHString_iff:
  "readSSHString b = Inr (v, rest) \<longleftrightarrow> fits32 v \<and> b = ssh_string v @ rest"
proof
  assume r: "readSSHString b = Inr (v, rest)"
  let ?n = "Uint32 (take 4 b)"
  from r have len: "4 \<le> length b" and body: "unat ?n \<le> length (drop 4 b)"
    and v: "v = take (unat ?n) (drop 4 b)" and rest: "rest = drop (unat ?n) (drop 4 b)"
    by (auto simp: readSSHString_def Let_def split: if_splits)
  from body v have lv: "length v = unat ?n" by simp
  then have "fits32 v" using unsigned_less [of ?n] by simp
  moreover have "ssh_string v @ rest = take 4 b @ v @ rest"
    unfolding appendSSHString_def lv using len by (simp add: PutUint32_Uint32)
  moreover have "v @ rest = drop 4 b" unfolding v rest by (simp only: append_take_drop_id)
  ultimately show "fits32 v \<and> b = ssh_string v @ rest" by simp
qed (simp add: readSSHString_append)

interpretation wire: prefix_codec ssh_string "\<lambda>b. case readSSHString b of Inl _ \<Rightarrow> None | Inr p \<Rightarrow> Some p" fits32
  by unfold_locales (simp add: readSSHString_append)

lemma read_fields_iff:
  "read_fields fs b = Inr (vs, rest) \<longleftrightarrow>
     length vs = length fs \<and> list_all fits32 vs \<and> b = concat (map ssh_string vs) @ rest"
proof (induction fs arbitrary: b vs)
  case (Cons f fs)
  show ?case
  proof (cases vs)
    case (Cons v vs')
    have "read_fields (f # fs) b = Inr (v # vs', rest) \<longleftrightarrow>
        (\<exists>b'. readSSHString b = Inr (v, b') \<and> read_fields fs b' = Inr (vs', rest))"
      by (auto split: sum.splits)
    also have "\<dots> \<longleftrightarrow> length vs' = length fs \<and> fits32 v \<and> list_all fits32 vs' \<and>
        b = ssh_string v @ concat (map ssh_string vs') @ rest"
      unfolding readSSHString_iff Cons.IH by auto
    finally show ?thesis using Cons by auto
  qed (auto split: sum.splits)
qed auto

subsection \<open>What is accepted\<close>

text \<open>The bytes of a signature in the wire format of OpenSSH's PROTOCOL.sshsig.\<close>

definition sshsig_bytes :: "string \<Rightarrow> string \<Rightarrow> string \<Rightarrow> string \<Rightarrow> string \<Rightarrow> string" where
  "sshsig_bytes pk ns reserved hash sig =
     sshsigMagic @ PutUint32 1 @ concat (map ssh_string [pk, ns, reserved, hash, sig])"

lemma header_iff:
  "\<not> (length b < 10 \<or> take 6 b \<noteq> sshsigMagic) \<and> Uint32 (take 4 (drop 6 b)) = 1 \<longleftrightarrow>
     (\<exists>rest. b = sshsigMagic @ PutUint32 1 @ rest)" (is "?l \<longleftrightarrow> ?r")
proof
  assume l: ?l
  then have "PutUint32 1 = take 4 (drop 6 b)" using PutUint32_Uint32 [of "take 4 (drop 6 b)"] by auto
  moreover from l have "sshsigMagic = take 6 b" by simp
  moreover have "take 6 b @ take 4 (drop 6 b) @ drop 4 (drop 6 b) = b" by (simp only: append_take_drop_id)
  ultimately show ?r by metis
qed (auto simp: sshsigMagic_def)

lemma parse_bytes:
  "(\<not> (length b < 10 \<or> take 6 b \<noteq> sshsigMagic) \<and> Uint32 (take 4 (drop 6 b)) = 1) \<and>
     read_fields [''publickey'', ''namespace'', ''reserved'', ''hash_algorithm'', ''signature'']
       (drop 10 b) = Inr (vals, trailing) \<longleftrightarrow>
   (\<exists>pk n reserved hash sig. vals = [pk, n, reserved, hash, sig] \<and>
      list_all fits32 [pk, n, reserved, hash, sig] \<and>
      b = sshsig_bytes pk n reserved hash sig @ trailing)"
proof -
  have drop: "drop 10 (sshsigMagic @ PutUint32 1 @ rest) = rest" for rest
    by (simp add: sshsigMagic_def)
  have five: "length vals = 5 \<longleftrightarrow> (\<exists>pk n reserved hash sig. vals = [pk, n, reserved, hash, sig])"
    by (auto simp: length_Suc_conv numeral_eq_Suc)
  have split: "(\<exists>rest. b = sshsigMagic @ PutUint32 1 @ rest) \<and> drop 10 b = c @ trailing \<longleftrightarrow>
      b = sshsigMagic @ PutUint32 1 @ c @ trailing" for c
    using drop by metis
  have names: "length [''publickey'', ''namespace'', ''reserved'', ''hash_algorithm'', ''signature''] = (5 :: nat)"
    by simp
  show ?thesis (is "?l \<longleftrightarrow> ?r")
  proof
    assume ?l
    then have l: "length vals = 5" "list_all fits32 vals" "drop 10 b = concat (map ssh_string vals) @ trailing"
      and "\<exists>rest. b = sshsigMagic @ PutUint32 1 @ rest"
      unfolding header_iff read_fields_iff names by simp_all
    then have "b = sshsigMagic @ PutUint32 1 @ concat (map ssh_string vals) @ trailing"
      using split [of "concat (map ssh_string vals)"] by (simp only: simp_thms)
    with l show ?r unfolding five sshsig_bytes_def by (metis append_assoc)
  next
    assume ?r
    then have "length vals = 5" "list_all fits32 vals"
      and "b = sshsigMagic @ PutUint32 1 @ concat (map ssh_string vals) @ trailing"
      unfolding sshsig_bytes_def by auto
    then show ?l unfolding header_iff read_fields_iff names using split by blast
  qed
qed

lemma authorized_iff:
  "authorized L allowed pub \<longleftrightarrow> (\<exists>k. Some k \<in> set allowed \<and> MarshalKey L k = MarshalKey L pub)"
  by (auto simp: authorized_def list_ex_iff split: option.splits)

lemma verify_fields_iff:
  "verify_fields L message allowed namespace [pk, ns, reserved, hash, sig] = None \<longleftrightarrow>
     ns = namespace \<and>
     (\<exists>pub mh fmt blob trailing.
        ParsePublicKey L pk = Inr pub \<and> authorized L allowed pub \<and>
        message_hash L hash message = Some mh \<and>
        fits32 fmt \<and> fits32 blob \<and> sig = ssh_string fmt @ ssh_string blob @ trailing \<and>
        fmt \<in> set signatureAlgorithms \<and>
        VerifyKey L pub (signed_blob ns hash mh) (fmt, blob) = None)" (is "?l \<longleftrightarrow> ?r")
proof
  assume ?l
  then obtain pub mh inner trailing where r: "ns = namespace" "ParsePublicKey L pk = Inr pub"
    "authorized L allowed pub" "message_hash L hash message = Some mh"
    "read_fields [''inner signature format'', ''inner signature blob''] sig = Inr (inner, trailing)"
    "inner ! 0 \<in> set signatureAlgorithms"
    "VerifyKey L pub (signed_blob ns hash mh) (inner ! 0, inner ! 1) = None"
    unfolding verify_fields_def Let_def
    by (auto split: if_splits sum.splits option.splits simp del: read_fields.simps)
  from r(5) obtain fmt blob where "inner = [fmt, blob]" "fits32 fmt" "fits32 blob"
    "sig = ssh_string fmt @ ssh_string blob @ trailing"
    unfolding read_fields_iff by (auto simp: length_Suc_conv)
  with r show ?r by (simp del: read_fields.simps) blast
next
  assume ?r
  then obtain pub mh fmt blob trailing where r: "ns = namespace" "ParsePublicKey L pk = Inr pub"
    "authorized L allowed pub" "message_hash L hash message = Some mh"
    "fits32 fmt" "fits32 blob" "sig = ssh_string fmt @ ssh_string blob @ trailing"
    "fmt \<in> set signatureAlgorithms" "VerifyKey L pub (signed_blob ns hash mh) (fmt, blob) = None" by blast
  then have "read_fields [''inner signature format'', ''inner signature blob''] sig = Inr ([fmt, blob], trailing)"
    unfolding read_fields_iff by simp
  with r show ?l by (simp add: verify_fields_def Let_def del: read_fields.simps)
qed

text \<open>C34. \<^bold>\<open>Which signatures the controller accepts.\<close> \<^verbatim>\<open>VerifySSHSIG\<close> accepts exactly the
  armored blocks of type \<^verbatim>\<open>SSH SIGNATURE\<close> in the wire format of PROTOCOL.sshsig whose namespace is
  the required one (\<^verbatim>\<open>kpssh\<close> when none is given), whose public key is one of the trusted keys,
  whose hash is SHA-256 or SHA-512, whose inner algorithm is on the allow-list, and whose inner
  signature the key verifies over the blob made of that namespace, that hash name and the digest
  of the message.\<close>

theorem VerifySSHSIG_iff:
  "VerifySSHSIG L message armored allowed ns = None \<longleftrightarrow>
     (\<exists>pk reserved hash fmt blob inner_trailing trailing pub k mh.
        let namespace = (if ns = '''' then ''kpssh'' else ns);
            sig = ssh_string fmt @ ssh_string blob @ inner_trailing in
        list_all fits32 [pk, namespace, reserved, hash, sig, fmt, blob] \<and>
        pem_Decode L armored = Some (''SSH SIGNATURE'', sshsig_bytes pk namespace reserved hash sig @ trailing) \<and>
        ParsePublicKey L pk = Inr pub \<and>
        Some k \<in> set allowed \<and> MarshalKey L k = MarshalKey L pub \<and>
        message_hash L hash message = Some mh \<and>
        fmt \<in> set signatureAlgorithms \<and>
        VerifyKey L pub (signed_blob namespace hash mh) (fmt, blob) = None)" (is "?l \<longleftrightarrow> ?r")
proof -
  let ?ns = "if ns = '''' then ''kpssh'' else ns"
  let ?names = "[''publickey'', ''namespace'', ''reserved'', ''hash_algorithm'', ''signature'']"
  have "?l \<longleftrightarrow> allowed \<noteq> [] \<and> (\<exists>b vals trailing. pem_Decode L armored = Some (''SSH SIGNATURE'', b) \<and>
      ((\<not> (length b < 10 \<or> take 6 b \<noteq> sshsigMagic) \<and> Uint32 (take 4 (drop 6 b)) = 1) \<and>
       read_fields ?names (drop 10 b) = Inr (vals, trailing)) \<and>
      verify_fields L message allowed ?ns vals = None)"
    unfolding VerifySSHSIG_def Let_def DefaultSignNamespace_def
    by (auto split: if_splits sum.splits option.splits simp del: read_fields.simps)
  also have "\<dots> \<longleftrightarrow> allowed \<noteq> [] \<and> (\<exists>pk n reserved hash sig trailing.
      pem_Decode L armored = Some (''SSH SIGNATURE'', sshsig_bytes pk n reserved hash sig @ trailing) \<and>
      list_all fits32 [pk, n, reserved, hash, sig] \<and>
      verify_fields L message allowed ?ns [pk, n, reserved, hash, sig] = None)"
    unfolding parse_bytes by (rule arg_cong [where f = "(\<and>) _"]) blast
  also have "\<dots> \<longleftrightarrow> ?r" (is "?m \<longleftrightarrow> _")
  proof
    assume ?m
    then obtain pk reserved hash sig trailing pub k mh fmt blob inner where m:
      "pem_Decode L armored = Some (''SSH SIGNATURE'', sshsig_bytes pk ?ns reserved hash sig @ trailing)"
      "list_all fits32 [pk, ?ns, reserved, hash, sig]" "ParsePublicKey L pk = Inr pub"
      "Some k \<in> set allowed" "MarshalKey L k = MarshalKey L pub" "message_hash L hash message = Some mh"
      "fits32 fmt" "fits32 blob" "sig = ssh_string fmt @ ssh_string blob @ inner"
      "fmt \<in> set signatureAlgorithms" "VerifyKey L pub (signed_blob ?ns hash mh) (fmt, blob) = None"
      unfolding verify_fields_iff authorized_iff by blast
    show ?r
      unfolding Let_def
      by (rule exI [of _ pk], rule exI [of _ reserved], rule exI [of _ hash], rule exI [of _ fmt],
          rule exI [of _ blob], rule exI [of _ inner], rule exI [of _ trailing], rule exI [of _ pub],
          rule exI [of _ k], rule exI [of _ mh]) (insert m, simp only: list.pred_inject simp_thms)
  next
    assume ?r
    then obtain pk reserved hash fmt blob inner trailing pub k mh where r:
      "list_all fits32 [pk, ?ns, reserved, hash, ssh_string fmt @ ssh_string blob @ inner, fmt, blob]"
      "pem_Decode L armored = Some (''SSH SIGNATURE'',
         sshsig_bytes pk ?ns reserved hash (ssh_string fmt @ ssh_string blob @ inner) @ trailing)"
      "ParsePublicKey L pk = Inr pub" "Some k \<in> set allowed" "MarshalKey L k = MarshalKey L pub"
      "message_hash L hash message = Some mh" "fmt \<in> set signatureAlgorithms"
      "VerifyKey L pub (signed_blob ?ns hash mh) (fmt, blob) = None" unfolding Let_def by blast
    then have "verify_fields L message allowed ?ns [pk, ?ns, reserved, hash, ssh_string fmt @ ssh_string blob @ inner] = None"
      unfolding verify_fields_iff authorized_iff list.pred_inject by blast
    with r show ?m by (metis empty_iff list.set(1) list.pred_inject)
  qed
  finally show ?thesis .
qed

text \<open>\<^bold>\<open>The signed bytes determine what is signed.\<close> The blob a signature covers has only one
  reading as namespace, hash name and digest, so a signature made for one namespace or hash
  cannot be taken for another.\<close>

theorem signed_blob_inject:
  assumes "list_all fits32 [ns, hash, mh, ns', hash', mh']"
  shows "signed_blob ns hash mh = signed_blob ns' hash' mh' \<longleftrightarrow> ns = ns' \<and> hash = hash' \<and> mh = mh'"
  using assms wire.penc_append_inject wire.whole.enc_inject
  unfolding signed_blob_def appendSSHString_eq [of sshsigMagic] appendSSHString_eq [of "_ @ _"] append_assoc
  by simp

theorem signed_blob_inject_witness:
  "signed_blob ''kpssh'' ''sha256'' ''d'' \<noteq> signed_blob ''kpsshs'' ''ha256'' ''d''"
  using signed_blob_inject [of "''kpssh''" "''sha256''" "''d''" "''kpsshs''" "''ha256''" "''d''"] by simp

text \<open>The signers that \<^verbatim>\<open>ParseTrustedSigners\<close> returns: never an empty trust root, one key per
  non-blank line, in order.\<close>

lemma parse_signers_Inr:
  "parse_signers L ls = Inr keys \<longleftrightarrow>
     map (ParseAuthorizedKey L) (filter (\<lambda>l. l \<noteq> '''') (map TrimSpace ls)) = map Inr keys"
proof (induction ls arbitrary: keys)
  case (Cons l ls)
  show ?case
  proof (cases keys)
    case Nil
    then show ?thesis using Cons.IH [of "[]"] by (auto simp: Let_def split: sum.splits)
  next
    case keys: (Cons k keys')
    show ?thesis
    proof (cases "TrimSpace l = ''''")
      case True
      then show ?thesis using Cons.IH [of keys] by (simp add: Let_def)
    next
      case False
      then show ?thesis using Cons.IH [of keys'] keys by (auto simp: Let_def split: sum.splits)
    qed
  qed
qed auto

lemma ParseTrustedSigners_Inr:
  "ParseTrustedSigners L ls = Inr keys \<longleftrightarrow> keys \<noteq> [] \<and>
     map (ParseAuthorizedKey L) (filter (\<lambda>l. l \<noteq> '''') (map TrimSpace ls)) = map Inr keys"
  unfolding ParseTrustedSigners_def parse_signers_Inr [symmetric]
  by (auto split: sum.splits)

end
