(* ===== verification/Envelope.thy ===== *)
theory Envelope
  imports Codec Errors
begin

section \<open>The verified-execution envelope: internal/sshexec/envelope.go and shim/kpssh-shim\<close>

text \<open>
  \<open>Marshal\<close> is the controller's side of the wire format. \<open>shim\<close> models the host's side, the shell
  script shim/kpssh-shim: it parses the envelope, refuses what it does not know, verifies the
  signature and checks the parameter names before it runs the script. The base64 decoder and
  \<^verbatim>\<open>ssh-keygen -Y verify\<close> are parameters of \<open>shim\<close>. The theorems relate the two sides: what the
  controller sends is read back exactly, the two parameter-name grammars agree, and only a script
  whose signature verifies is ever run.
\<close>

definition EnvelopeVersion :: string where
  "EnvelopeVersion = ''1''"

definition PhaseProbe :: string where
  "PhaseProbe = ''probe''"

definition signedPhases :: "string list" where
  "signedPhases = [''install'', ''join'', ''leave'', ''uninstall'', ''reboot'']"

definition validPhase :: "string \<Rightarrow> bool" where
  "validPhase p = (p = PhaseProbe \<or> p \<in> set signedPhases)"

definition exitUnknownPhase :: int where
  "exitUnknownPhase = 5"

definition IsUnknownPhase :: "err \<Rightarrow> bool" where
  "IsUnknownPhase e = (case root e of ExitErr n _ \<Rightarrow> n = exitUnknownPhase | _ \<Rightarrow> False)"

text \<open>The characters \<^verbatim>\<open>[A-Za-z0-9_]\<close> and the expression \<^verbatim>\<open>^KPSSH_[A-Za-z0-9_]+$\<close>.\<close>

definition name_char :: "char \<Rightarrow> bool" where
  "name_char c = (let n = (of_char c :: nat) in
     (65 \<le> n \<and> n \<le> 90) \<or> (97 \<le> n \<and> n \<le> 122) \<or> (48 \<le> n \<and> n \<le> 57) \<or> n = 95)"

definition paramNameRE :: "string \<Rightarrow> bool" where
  "paramNameRE k = (case CutPrefix k ''KPSSH_'' of
       None \<Rightarrow> False
     | Some rest \<Rightarrow> rest \<noteq> [] \<and> list_all name_char rest)"

record Envelope =
  Phase :: string
  e_Script :: string
  Sig :: string
  Params :: "(string \<times> string) list"

definition param_value :: "(string \<times> string) list \<Rightarrow> string \<Rightarrow> string" where
  "param_value ps k = (case map_of ps k of None \<Rightarrow> '''' | Some v \<Rightarrow> v)"

text \<open>The loop that writes the parameter block, over the sorted keys.\<close>

fun param_block :: "(string \<times> string) list \<Rightarrow> string list \<Rightarrow> err + string" where
  "param_block ps [] = Inr []"
| "param_block ps (k # ks) =
     (if \<not> paramNameRE k then
        Inl (Errorf (''invalid param name '' @ Quote k @
          '': verified-exec params must match ^KPSSH_[A-Za-z0-9_]+$''))
      else if CHR 0x0A \<in> set (param_value ps k) then
        Inl (Errorf (''param '' @ Quote k @ '' value contains a newline''))
      else case param_block ps ks of
          Inl e \<Rightarrow> Inl e
        | Inr rest \<Rightarrow> Inr (k @ ''='' @ param_value ps k @ CHR 0x0A # rest))"

definition header_line :: "string \<Rightarrow> string \<Rightarrow> string" where
  "header_line field val = field @ '': '' @ val @ [CHR 0x0A]"

definition Marshal :: "Envelope \<Rightarrow> err + string" where
  "Marshal e =
     (if \<not> validPhase (Phase e) then Inl (Errorf (''invalid phase '' @ Quote (Phase e)))
      else if Phase e \<noteq> PhaseProbe \<and> (e_Script e = [] \<or> Sig e = []) then
        Inl (Errorf (''phase '' @ Quote (Phase e) @ '' requires script and signature''))
      else
        let head = header_line ''kpssh-envelope'' EnvelopeVersion @ header_line ''phase'' (Phase e);
            tail = (if Sig e \<noteq> [] then header_line ''sig-b64'' (b64_encode (Sig e)) else []) @
                   (if e_Script e \<noteq> [] then header_line ''script-b64'' (b64_encode (e_Script e)) else [])
        in if Params e \<noteq> [] then
             (case param_block (Params e) (sort (map fst (Params e))) of
                Inl err \<Rightarrow> Inl err
              | Inr pb \<Rightarrow> Inr (head @ header_line ''params-b64'' (b64_encode pb) @ tail))
           else Inr (head @ tail))"

subsection \<open>The host's side: shim/kpssh-shim\<close>

text \<open>The lines a \<^verbatim>\<open>while IFS= read -r line || [ -n "$line" ]\<close> loop sees; the shell's
  \<^verbatim>\<open>read\<close> drops NUL bytes.\<close>

fun sh_lines :: "string \<Rightarrow> string \<Rightarrow> string list" where
  "sh_lines [] cur = (if cur = [] then [] else [cur])"
| "sh_lines (c # s) cur =
     (if c = CHR 0x0A then cur # sh_lines s []
      else if c = CHR 0x00 then sh_lines s cur
      else sh_lines s (cur @ [c]))"

record shim_header =
  sh_ver :: string
  sh_phase :: string
  sh_params :: string
  sh_sig :: string
  sh_script :: string

definition shim_header0 :: shim_header where
  "shim_header0 = \<lparr>sh_ver = '''', sh_phase = '''', sh_params = '''', sh_sig = '''', sh_script = ''''\<rparr>"

definition shim_field :: "string \<Rightarrow> shim_header \<Rightarrow> shim_header" where
  "shim_field line h =
     (case CutPrefix line ''kpssh-envelope: '' of Some v \<Rightarrow> h\<lparr>sh_ver := v\<rparr> | None \<Rightarrow>
      case CutPrefix line ''phase: '' of Some v \<Rightarrow> h\<lparr>sh_phase := v\<rparr> | None \<Rightarrow>
      case CutPrefix line ''params-b64: '' of Some v \<Rightarrow> h\<lparr>sh_params := v\<rparr> | None \<Rightarrow>
      case CutPrefix line ''sig-b64: '' of Some v \<Rightarrow> h\<lparr>sh_sig := v\<rparr> | None \<Rightarrow>
      case CutPrefix line ''script-b64: '' of Some v \<Rightarrow> h\<lparr>sh_script := v\<rparr> | None \<Rightarrow> h)"

text \<open>The two \<^verbatim>\<open>case\<close> patterns on a parameter name: \<^verbatim>\<open>KPSSH_?*\<close>, then \<^verbatim>\<open>*[!A-Za-z0-9_]*\<close>.\<close>

definition shim_name_ok :: "string \<Rightarrow> bool" where
  "shim_name_ok k = (HasPrefix k ''KPSSH_'' \<and> 6 < length k \<and> \<not> list_ex (\<lambda>c. \<not> name_char c) k)"

fun shim_exports :: "string list \<Rightarrow> nat + (string \<times> string) list" where
  "shim_exports [] = Inr []"
| "shim_exports (p # ps) =
     (if p = [] then shim_exports ps
      else case Cut CHR ''='' p of
        None \<Rightarrow> Inl 3
      | Some (k, v) \<Rightarrow>
          if \<not> shim_name_ok k then Inl 3
          else case shim_exports ps of Inl n \<Rightarrow> Inl n | Inr rest \<Rightarrow> Inr ((k, v) # rest))"

datatype shim_outcome = ShimExit nat | ShimProbe | ShimRun string "(string \<times> string) list"

definition shim :: "(string \<Rightarrow> string option) \<Rightarrow> (string \<Rightarrow> string \<Rightarrow> bool) \<Rightarrow> string \<Rightarrow> shim_outcome" where
  "shim b64d verify stdin =
     (let h = fold shim_field (sh_lines stdin []) shim_header0 in
      if sh_ver h \<noteq> ''1'' then ShimExit 4
      else if sh_phase h = '''' then ShimExit 4
      else if sh_phase h = ''probe'' then ShimProbe
      else if sh_phase h \<notin> {''install'', ''join'', ''leave'', ''uninstall'', ''reboot''} then ShimExit 5
      else if sh_sig h = '''' then ShimExit 4
      else if sh_script h = '''' then ShimExit 4
      else case b64d (sh_script h) of None \<Rightarrow> ShimExit 4 | Some script \<Rightarrow>
        (case b64d (sh_sig h) of None \<Rightarrow> ShimExit 4 | Some sig \<Rightarrow>
          if \<not> verify sig script then ShimExit 2
          else if sh_params h = '''' then ShimRun script []
          else case b64d (sh_params h) of None \<Rightarrow> ShimExit 4 | Some params \<Rightarrow>
            (case shim_exports (sh_lines params []) of
               Inl n \<Rightarrow> ShimExit n
             | Inr exports \<Rightarrow> ShimRun script exports)))"

subsection \<open>Lines\<close>

text \<open>Text that stays on one line and that the shell reads back unchanged.\<close>

definition one_line :: "string \<Rightarrow> bool" where
  "one_line s = list_all (\<lambda>c. c \<noteq> CHR 0x0A \<and> c \<noteq> CHR 0x00) s"

lemma one_line_append [simp]: "one_line (s @ t) \<longleftrightarrow> one_line s \<and> one_line t"
  by (simp add: one_line_def)

lemma one_line_Cons: "one_line (c # s) \<longleftrightarrow> c \<noteq> CHR 0x0A \<and> c \<noteq> CHR 0x00 \<and> one_line s"
  by (auto simp: one_line_def)

lemma one_line_b64 [simp]: "one_line (b64_encode s)"
  using b64_one_line [of s] b64_no_nul [of s] by (auto simp: one_line_def list_all_iff)

lemma sh_lines_append: "one_line l \<Longrightarrow> sh_lines (l @ s) cur = sh_lines s (cur @ l)"
  by (induction l arbitrary: cur) (auto simp: one_line_def)

lemma sh_lines_line: "one_line l \<Longrightarrow> sh_lines (l @ CHR 0x0A # s) [] = l # sh_lines s []"
  by (simp add: sh_lines_append)

lemma sh_lines_header:
  assumes "one_line field" and "one_line val"
  shows "sh_lines (header_line field val @ s) [] = (field @ '': '' @ val) # sh_lines s []"
  using assms sh_lines_line [of "field @ '': '' @ val" s] by (simp add: header_line_def one_line_def)

subsection \<open>Parameter names\<close>

lemma name_char_KPSSH: "list_all name_char ''KPSSH_''"
  by (simp add: name_char_def)

lemma name_char_not_special: "name_char c \<Longrightarrow> c \<noteq> CHR ''='' \<and> c \<noteq> CHR 0x0A \<and> c \<noteq> CHR 0x00"
  by (auto simp: name_char_def)

lemma paramNameRE_shim: "paramNameRE k \<longleftrightarrow> shim_name_ok k"
proof (cases "CutPrefix k ''KPSSH_''")
  case None
  then show ?thesis by (simp add: paramNameRE_def shim_name_ok_def CutPrefix_def split: if_splits)
next
  case (Some rest)
  then have k: "k = ''KPSSH_'' @ rest" by (simp only: CutPrefix_Some)
  have "paramNameRE k \<longleftrightarrow> rest \<noteq> [] \<and> list_all name_char rest"
    using Some by (simp add: paramNameRE_def)
  also have "\<dots> \<longleftrightarrow> shim_name_ok k"
    unfolding shim_name_ok_def k using name_char_KPSSH by (auto simp: list_ex_iff list_all_iff)
  finally show ?thesis .
qed

text \<open>\<^bold>\<open>Both gates accept the same parameter names.\<close> The controller's regular expression
  \<^verbatim>\<open>paramNameRE\<close> and the shim's two shell patterns accept exactly the same names.\<close>

theorem param_grammars_agree: "paramNameRE k \<longleftrightarrow> shim_name_ok k"
  by (rule paramNameRE_shim)

lemma paramNameRE_chars:
  assumes "paramNameRE k"
  shows "k \<noteq> []" "CHR ''='' \<notin> set k" "one_line k"
proof -
  from assms have ok: "shim_name_ok k" by (simp only: paramNameRE_shim)
  then have all: "\<forall>c \<in> set k. name_char c" by (auto simp: shim_name_ok_def list_ex_iff)
  from ok show "k \<noteq> []" by (auto simp: shim_name_ok_def)
  from all show "CHR ''='' \<notin> set k" "one_line k"
    using name_char_not_special by (auto simp: one_line_def list_all_iff)
qed

text \<open>The parameters the script sees, in the order in which the shim exports them.\<close>

definition exported :: "(string \<times> string) list \<Rightarrow> (string \<times> string) list" where
  "exported ps = map (\<lambda>k. (k, param_value ps k)) (sort (map fst ps))"

definition no_nul :: "(string \<times> string) list \<Rightarrow> bool" where
  "no_nul ps = list_all (\<lambda>(k, v). CHR 0x00 \<notin> set v) ps"

lemma param_value_no_nul: "no_nul ps \<Longrightarrow> CHR 0x00 \<notin> set (param_value ps k)"
  by (cases "map_of ps k") (auto simp: no_nul_def param_value_def list_all_iff dest!: map_of_SomeD)

lemma shim_exports_block:
  "param_block ps ks = Inr pb \<Longrightarrow> no_nul ps \<Longrightarrow>
   shim_exports (sh_lines pb []) = Inr (map (\<lambda>k. (k, param_value ps k)) ks)"
proof (induction ps ks arbitrary: pb rule: param_block.induct)
  case (2 ps k ks)
  from 2(2) have k: "paramNameRE k" and v: "CHR 0x0A \<notin> set (param_value ps k)"
    by (auto split: if_splits)
  with 2(2) obtain rest where rest: "param_block ps ks = Inr rest"
    and pb: "pb = (k @ CHR ''='' # param_value ps k) @ CHR 0x0A # rest"
    by (auto split: sum.splits)
  from 2(1) k v rest 2(3)
  have IH: "shim_exports (sh_lines rest []) = Inr (map (\<lambda>k. (k, param_value ps k)) ks)"
    by simp
  have "one_line (param_value ps k)"
    using v param_value_no_nul [OF 2(3), of k] by (auto simp: one_line_def list_all_iff)
  then have "sh_lines pb [] = (k @ CHR ''='' # param_value ps k) # sh_lines rest []"
    unfolding pb using paramNameRE_chars [OF k] by (intro sh_lines_line) (simp add: one_line_Cons)
  moreover have "shim_name_ok k" using k by (simp only: paramNameRE_shim)
  ultimately show ?case using IH paramNameRE_chars [OF k] by simp
qed simp

lemma param_block_Nil: "param_block ps ks = Inr [] \<Longrightarrow> ks = []"
  by (cases ks) (auto split: if_splits sum.splits)

subsection \<open>Header fields\<close>

lemma shim_field_simps:
  "shim_field (''kpssh-envelope'' @ '': '' @ v) h = h\<lparr>sh_ver := v\<rparr>"
  "shim_field (''phase'' @ '': '' @ v) h = h\<lparr>sh_phase := v\<rparr>"
  "shim_field (''params-b64'' @ '': '' @ v) h = h\<lparr>sh_params := v\<rparr>"
  "shim_field (''sig-b64'' @ '': '' @ v) h = h\<lparr>sh_sig := v\<rparr>"
  "shim_field (''script-b64'' @ '': '' @ v) h = h\<lparr>sh_script := v\<rparr>"
  by (simp_all add: shim_field_def CutPrefix_def)

lemma field_names_one_line:
  "one_line ''kpssh-envelope''" "one_line ''phase''" "one_line ''params-b64''"
  "one_line ''sig-b64''" "one_line ''script-b64''" "one_line EnvelopeVersion"
  by (simp_all add: one_line_def EnvelopeVersion_def)

definition shim_parse :: "string \<Rightarrow> shim_header \<Rightarrow> shim_header" where
  "shim_parse s h = fold shim_field (sh_lines s []) h"

lemma shim_parse_simps:
  "shim_parse [] h = h"
  "one_line v \<Longrightarrow> shim_parse (header_line ''kpssh-envelope'' v @ s) h = shim_parse s (h\<lparr>sh_ver := v\<rparr>)"
  "one_line v \<Longrightarrow> shim_parse (header_line ''phase'' v @ s) h = shim_parse s (h\<lparr>sh_phase := v\<rparr>)"
  "one_line v \<Longrightarrow> shim_parse (header_line ''params-b64'' v @ s) h = shim_parse s (h\<lparr>sh_params := v\<rparr>)"
  "one_line v \<Longrightarrow> shim_parse (header_line ''sig-b64'' v @ s) h = shim_parse s (h\<lparr>sh_sig := v\<rparr>)"
  "one_line v \<Longrightarrow> shim_parse (header_line ''script-b64'' v @ s) h = shim_parse s (h\<lparr>sh_script := v\<rparr>)"
  unfolding shim_parse_def
  by (simp_all only: sh_lines_header field_names_one_line sh_lines.simps fold_simps shim_field_simps)
     simp_all

lemma validPhase_one_line: "validPhase p \<Longrightarrow> one_line p"
  by (auto simp: validPhase_def PhaseProbe_def signedPhases_def one_line_def)

text \<open>The parameter block the controller sends, empty when there are no parameters.\<close>

definition param_field :: "(string \<times> string) list \<Rightarrow> err + string" where
  "param_field ps = (if ps = [] then Inr [] else param_block ps (sort (map fst ps)))"

lemma Marshal_parsed:
  assumes "Marshal e = Inr wire"
  obtains pb where "param_field (Params e) = Inr pb" and "validPhase (Phase e)"
    and "Phase e \<noteq> PhaseProbe \<longrightarrow> e_Script e \<noteq> [] \<and> Sig e \<noteq> []"
    and "shim_parse wire shim_header0 =
      \<lparr>sh_ver = ''1'', sh_phase = Phase e, sh_params = b64_encode pb,
       sh_sig = b64_encode (Sig e), sh_script = b64_encode (e_Script e)\<rparr>"
proof -
  from assms have v: "validPhase (Phase e)"
    and req: "Phase e \<noteq> PhaseProbe \<longrightarrow> e_Script e \<noteq> [] \<and> Sig e \<noteq> []"
    by (auto simp: Marshal_def split: if_splits)
  let ?head = "header_line ''kpssh-envelope'' EnvelopeVersion @ header_line ''phase'' (Phase e)"
  let ?tail = "(if Sig e \<noteq> [] then header_line ''sig-b64'' (b64_encode (Sig e)) else []) @
    (if e_Script e \<noteq> [] then header_line ''script-b64'' (b64_encode (e_Script e)) else [])"
  let ?mid = "\<lambda>pb. if Params e \<noteq> [] then header_line ''params-b64'' (b64_encode pb) else []"
  from assms obtain pb where pb: "param_field (Params e) = Inr pb"
    and wire: "wire = ?head @ ?mid pb @ ?tail"
    by (auto simp: Marshal_def param_field_def Let_def simp del: append_assoc split: if_splits sum.splits)
  have tail: "shim_parse ?tail h = h\<lparr>sh_sig := b64_encode (Sig e), sh_script := b64_encode (e_Script e)\<rparr>"
    if "sh_sig h = []" "sh_script h = []" for h
    using that shim_parse_simps(5) [of "b64_encode (Sig e)" "[]"]
      shim_parse_simps(6) [of "b64_encode (e_Script e)" "[]"]
    by (simp add: shim_parse_simps)
  have mid: "shim_parse (?mid pb @ s) h = shim_parse s (h\<lparr>sh_params := b64_encode pb\<rparr>)"
    if "sh_params h = []" for s h
    using that pb by (cases h) (auto simp: shim_parse_simps param_field_def)
  have "shim_parse wire shim_header0 = shim_parse (?mid pb @ ?tail)
      (shim_header0\<lparr>sh_ver := EnvelopeVersion, sh_phase := Phase e\<rparr>)"
    unfolding wire append_assoc
    by (simp only: shim_parse_simps field_names_one_line validPhase_one_line [OF v])
  also have "\<dots> = \<lparr>sh_ver = ''1'', sh_phase = Phase e, sh_params = b64_encode pb,
       sh_sig = b64_encode (Sig e), sh_script = b64_encode (e_Script e)\<rparr>"
    by (subst mid, simp add: shim_header0_def, subst tail) (simp_all add: shim_header0_def EnvelopeVersion_def)
  finally show thesis using that pb v req by blast
qed

lemma shim_exports_field:
  assumes "param_field ps = Inr pb" and "no_nul ps"
  shows "(if pb = [] then Inr [] else shim_exports (sh_lines pb [])) = Inr (exported ps)"
proof (cases "ps = []")
  case False
  with assms have block: "param_block ps (sort (map fst ps)) = Inr pb" by (simp add: param_field_def)
  moreover have "sort (map fst ps) \<noteq> []"
    using False by (metis length_0_conv length_map length_sort)
  ultimately have "pb \<noteq> []" using param_block_Nil by blast
  then show ?thesis using shim_exports_block [OF block assms(2)] by (simp add: exported_def)
qed (use assms in \<open>simp add: param_field_def exported_def\<close>)

lemma shim_unfold:
  "shim b64d verify stdin = (let h = shim_parse stdin shim_header0 in
      if sh_ver h \<noteq> ''1'' then ShimExit 4
      else if sh_phase h = '''' then ShimExit 4
      else if sh_phase h = PhaseProbe then ShimProbe
      else if sh_phase h \<notin> set signedPhases then ShimExit 5
      else if sh_sig h = '''' then ShimExit 4
      else if sh_script h = '''' then ShimExit 4
      else case b64d (sh_script h) of None \<Rightarrow> ShimExit 4 | Some script \<Rightarrow>
        (case b64d (sh_sig h) of None \<Rightarrow> ShimExit 4 | Some sig \<Rightarrow>
          if \<not> verify sig script then ShimExit 2
          else if sh_params h = '''' then ShimRun script []
          else case b64d (sh_params h) of None \<Rightarrow> ShimExit 4 | Some params \<Rightarrow>
            (case shim_exports (sh_lines params []) of
               Inl n \<Rightarrow> ShimExit n
             | Inr exports \<Rightarrow> ShimRun script exports)))"
  by (simp only: shim_def shim_parse_def PhaseProbe_def signedPhases_def list.set)

text \<open>\<^bold>\<open>The shim reads back exactly what the controller sent.\<close> For an envelope that
  \<^verbatim>\<open>Marshal\<close> accepts and a base64 decoder that inverts the standard encoding: a probe is answered
  as a probe; any other phase runs exactly the script bytes of the envelope, with exactly its
  parameters exported, if the signature verifies over these bytes, and is refused with exit
  status 2 otherwise. (The shell cannot carry NUL bytes in a value.)\<close>

theorem shim_reads_envelope:
  assumes sent: "Marshal e = Inr wire" and no_nul: "no_nul (Params e)"
    and decoder: "\<And>s. b64d (b64_encode s) = Some s"
  shows "shim b64d verify wire =
    (if Phase e = PhaseProbe then ShimProbe
     else if verify (Sig e) (e_Script e) then ShimRun (e_Script e) (exported (Params e))
     else ShimExit 2)"
proof -
  from sent obtain pb where pb: "param_field (Params e) = Inr pb" and v: "validPhase (Phase e)"
    and req: "Phase e \<noteq> PhaseProbe \<longrightarrow> e_Script e \<noteq> [] \<and> Sig e \<noteq> []"
    and parsed: "shim_parse wire shim_header0 =
      \<lparr>sh_ver = ''1'', sh_phase = Phase e, sh_params = b64_encode pb,
       sh_sig = b64_encode (Sig e), sh_script = b64_encode (e_Script e)\<rparr>"
    by (rule Marshal_parsed)
  have ne: "Phase e \<noteq> []" and known: "Phase e = PhaseProbe \<or> Phase e \<in> set signedPhases"
    using v by (auto simp: validPhase_def PhaseProbe_def signedPhases_def)
  note ex = shim_exports_field [OF pb no_nul]
  show ?thesis
    unfolding shim_unfold parsed using ne known req ex
    by (cases "pb = []") (auto simp: decoder split: sum.splits)
qed

definition sample_envelope :: Envelope where
  "sample_envelope = \<lparr>Phase = ''join'', e_Script = ''true'', Sig = ''sig'',
     Params = [(''KPSSH_B'', ''2''), (''KPSSH_A'', ''x=1'')]\<rparr>"

theorem shim_reads_envelope_witness:
  "\<exists>wire. Marshal sample_envelope = Inr wire \<and>
     shim b64_decode (\<lambda>sig script. sig = ''sig'') wire =
       ShimRun ''true'' [(''KPSSH_A'', ''x=1''), (''KPSSH_B'', ''2'')]"
proof -
  obtain wire where m: "Marshal sample_envelope = Inr wire"
    by (cases "Marshal sample_envelope") (simp_all add: sample_envelope_def Marshal_def validPhase_def
      PhaseProbe_def signedPhases_def Let_def paramNameRE_def CutPrefix_def name_char_def param_value_def
      insort_key.simps less_char_def split: sum.splits)
  have nn: "no_nul (Params sample_envelope)" by (simp add: sample_envelope_def no_nul_def)
  have ex: "exported (Params sample_envelope) = [(''KPSSH_A'', ''x=1''), (''KPSSH_B'', ''2'')]"
    by (simp add: exported_def sample_envelope_def param_value_def)
  have p: "Phase sample_envelope \<noteq> PhaseProbe" "Sig sample_envelope = ''sig''" "e_Script sample_envelope = ''true''"
    by (simp_all add: sample_envelope_def PhaseProbe_def)
  show ?thesis
    using shim_reads_envelope [OF m nn b64_roundtrip, of "\<lambda>sig script. sig = ''sig''"]
    unfolding ex using m p by (intro exI [of _ wire]) simp
qed

lemma shim_exports_names: "shim_exports ls = Inr xs \<Longrightarrow> list_all (\<lambda>p. paramNameRE (fst p)) xs"
  by (induction ls arbitrary: xs) (auto simp: paramNameRE_shim split: if_splits option.splits sum.splits)

text \<open>C35. \<^bold>\<open>The shim runs nothing but verified scripts, with nothing but documented
  parameters.\<close> Whatever bytes arrive on standard input, if the shim runs a script, a signature
  was received that verifies over that script, and every exported name has the documented shape,
  so no variable that steers the interpreter can be set.\<close>

theorem shim_runs_verified:
  assumes "shim b64d verify stdin = ShimRun script params"
  shows "(\<exists>sig. verify sig script) \<and> list_all (\<lambda>p. paramNameRE (fst p)) params
    \<and> sh_phase (fold shim_field (sh_lines stdin []) shim_header0) \<in> set signedPhases"
  using assms unfolding shim_unfold shim_parse_def [symmetric] Let_def
  by (auto split: if_splits option.splits sum.splits dest: shim_exports_names)

definition sample_wire :: string where
  "sample_wire = header_line ''kpssh-envelope'' ''1'' @ header_line ''phase'' ''leave'' @
     header_line ''sig-b64'' ''c2ln'' @ header_line ''script-b64'' ''dHJ1ZQ=='' @
     header_line ''params-b64'' ''S1BTU0hfQT0xCg==''"

theorem shim_runs_verified_witness:
  "shim b64_decode (\<lambda>sig script. sig = ''sig'') sample_wire = ShimRun ''true'' [(''KPSSH_A'', ''1'')] \<and>
   (\<exists>sig. sig = ''sig'') \<and> paramNameRE ''KPSSH_A''"
proof -
  have run: "shim b64_decode (\<lambda>sig script. sig = ''sig'') sample_wire = ShimRun ''true'' [(''KPSSH_A'', ''1'')]"
    by code_simp
  from shim_runs_verified [OF this] have "paramNameRE ''KPSSH_A''" by simp
  with run show ?thesis by simp
qed

end
