(* ===== verification/SshExec.thy ===== *)
theory SshExec
  imports SshSig Envelope
begin

section \<open>Running scripts over SSH: internal/sshexec/sshexec.go\<close>

text \<open>
  \<open>Run\<close> and \<open>RunShim\<close> as programs over a log of network events. The SSH library and the peer are
  the parameter \<open>net\<close>: whether the private key parses, whether dialing succeeds, the host key
  that the server proves in the key exchange, whether authentication succeeds, and what a session
  does. Deadlines and the concurrent reader of a session show only in its outcome. The theorems
  are that no credential and no command goes to a host whose key differs from the pin, and that
  the export preamble of \<open>Run\<close> hands the shell exactly the given environment and script.
\<close>

record Target =
  t_Address :: string
  t_Port :: int
  t_User :: string
  PrivateKey :: string
  PinnedHostKey :: string
  ShimCommand :: string

definition DefaultShimCommand :: string where
  "DefaultShimCommand = ''/opt/kpssh/kpssh-shim''"

record Result =
  Stdout :: string
  Stderr :: string
  HostKeyFingerprint' :: string

definition empty_result :: Result where
  "empty_result = \<lparr>Stdout = '''', Stderr = '''', HostKeyFingerprint' = ''''\<rparr>"

subsection \<open>Fingerprints\<close>

text \<open>\<^verbatim>\<open>strings.TrimRight(s, "=")\<close>\<close>

definition trim_pad :: "string \<Rightarrow> string" where
  "trim_pad s = rev (dropWhile ((=) CHR ''='') (rev s))"

definition Fingerprint :: "'k ssh_lib \<Rightarrow> 'k \<Rightarrow> string" where
  "Fingerprint L key = ''SHA256:'' @ trim_pad (b64_encode (sha256_Sum256 L (MarshalKey L key)))"

definition PinnedFingerprintFromKnownHost :: "'k ssh_lib \<Rightarrow> string \<Rightarrow> err + string" where
  "PinnedFingerprintFromKnownHost L data =
     (let s = TrimSpace data in
      if s = '''' then Inl (Errorf ''empty host key material'')
      else if HasPrefix s ''SHA256:'' then Inr s
      else case ParseKnownHosts L (s @ [CHR 0x0A]) of
          Inr key \<Rightarrow> Inr (Fingerprint L key)
        | Inl _ \<Rightarrow>
            (case ParseAuthorizedKey L s of
               Inr key \<Rightarrow> Inr (Fingerprint L key)
             | Inl _ \<Rightarrow> Inl (Errorf (''host key material is neither a SHA256 fingerprint, '' @
                 ''a known_hosts line, nor a public key''))))"

subsection \<open>The export preamble\<close>

text \<open>\<^verbatim>\<open>^[A-Za-z_][A-Za-z0-9_]*$\<close>\<close>

definition envNameRE :: "string \<Rightarrow> bool" where
  "envNameRE k = (case k of [] \<Rightarrow> False
     | c # cs \<Rightarrow> name_char c \<and> \<not> (48 \<le> (of_char c :: nat) \<and> (of_char c :: nat) \<le> 57) \<and> list_all name_char cs)"

definition shellQuote :: "string \<Rightarrow> string" where
  "shellQuote s = [CHR 0x27] @ ReplaceAll s [CHR 0x27] [CHR 0x27, CHR 0x5C, CHR 0x27, CHR 0x27] @ [CHR 0x27]"

fun export_lines :: "(string \<times> string) list \<Rightarrow> string list \<Rightarrow> err + string" where
  "export_lines env [] = Inr []"
| "export_lines env (k # ks) =
     (if \<not> envNameRE k then Inl (Errorf (''invalid environment variable name '' @ Quote k))
      else case export_lines env ks of
          Inl e \<Rightarrow> Inl e
        | Inr rest \<Rightarrow> Inr (''export '' @ k @ ''='' @ shellQuote (param_value env k) @ CHR 0x0A # rest))"

definition raw_stdin :: "string \<Rightarrow> (string \<times> string) list \<Rightarrow> err + string" where
  "raw_stdin script env =
     (case export_lines env (sort (map fst env)) of
        Inl e \<Rightarrow> Inl e
      | Inr exports \<Rightarrow> Inr (''set -euo pipefail'' @ CHR 0x0A # exports @ script))"

text \<open>The ellipsis is the three bytes of its UTF-8 encoding.\<close>

definition tail :: "string \<Rightarrow> nat \<Rightarrow> string" where
  "tail s n = (let t = TrimSpace s in
     if length t \<le> n then t else bytes_of [0xE2, 0x80, 0xA6] @ drop (length t - n) t)"

subsection \<open>Connections and sessions\<close>

definition effectiveUser :: "Target \<Rightarrow> string" where
  "effectiveUser t = (if t_User t = '''' then ''root'' else t_User t)"

datatype session_end = TimedOut err | Finished "err option"

datatype 'k net_event =
    Dialed string "err option"
  | HostKey string "err + 'k"
  | Authenticated string string "err option"
  | OpenedSession "err option"
  | Ran string string "string \<times> string \<times> session_end"
  | ClosedClient

record 'k net =
  net_ParsePrivateKey :: "string \<Rightarrow> err option"
  net_Dial :: "'k net_event log \<Rightarrow> string \<Rightarrow> err option"
  net_KeyExchange :: "'k net_event log \<Rightarrow> string \<Rightarrow> err + 'k"
  net_Refused :: "err \<Rightarrow> err"
  net_Auth :: "'k net_event log \<Rightarrow> string \<Rightarrow> string \<Rightarrow> string \<Rightarrow> err option"
  net_NewSession :: "'k net_event log \<Rightarrow> err option"
  net_Session :: "'k net_event log \<Rightarrow> string \<Rightarrow> string \<Rightarrow> string \<times> string \<times> session_end"

type_synonym ('k, 'a) net_prog = "('k net_event, 'a) prog"

text \<open>The callback the SSH library calls with the host key: the observed fingerprint and whether
  to refuse the key.\<close>

definition hostKeyCallback :: "'k ssh_lib \<Rightarrow> Target \<Rightarrow> string \<Rightarrow> 'k \<Rightarrow> string \<times> err option" where
  "hostKeyCallback L t hostname key =
     (let fp = Fingerprint L key in
      (fp, if PinnedHostKey t \<noteq> '''' \<and> PinnedHostKey t \<noteq> fp
           then Some (Errorf (''host key mismatch for '' @ hostname @ '': pinned '' @ PinnedHostKey t @ '', got '' @ fp))
           else None))"

text \<open>What the program relies on of \<^verbatim>\<open>ssh.NewClientConn\<close>, as golang.org/x/crypto/ssh documents it: the key exchange, then the
  callback on the key that the server has proved to hold, and authentication only if the callback accepts. Each of these
  steps is a parameter. Returns the fingerprint the callback stored and the error of the handshake.\<close>

definition NewClientConn :: "'k ssh_lib \<Rightarrow> 'k net \<Rightarrow> Target \<Rightarrow> string \<Rightarrow> ('k, string \<times> err option) net_prog" where
  "NewClientConn L N t addr = do {
     k \<leftarrow> issue (\<lambda>w. net_KeyExchange N w addr) (HostKey addr);
     case k of
       Inl e \<Rightarrow> ret ('''', Some e)
     | Inr key \<Rightarrow>
         (case hostKeyCallback L t addr key of
            (fp, Some e) \<Rightarrow> ret (fp, Some (net_Refused N e))
          | (fp, None) \<Rightarrow> do {
              a \<leftarrow> issue (\<lambda>w. net_Auth N w addr (effectiveUser t) (PrivateKey t)) (Authenticated addr (effectiveUser t));
              ret (fp, a) })
   }"

definition connect :: "'k ssh_lib \<Rightarrow> 'k net \<Rightarrow> Target \<Rightarrow> ('k, Result option \<times> err option) net_prog" where
  "connect L N t =
     (case net_ParsePrivateKey N (PrivateKey t) of
        Some e \<Rightarrow> ret (None, Some (Wrapf ''parsing private key: '' e))
      | None \<Rightarrow>
          (let port = (if t_Port t = 0 then 22 else t_Port t);
               addr = t_Address t @ '':'' @ show_int port in do {
             d \<leftarrow> issue (\<lambda>w. net_Dial N w addr) (Dialed addr);
             case d of
               Some e \<Rightarrow> ret (Some empty_result, Some (Wrapf (''dialing '' @ addr @ '': '') e))
             | None \<Rightarrow> do {
                 h \<leftarrow> NewClientConn L N t addr;
                 (case h of (fp, failure) \<Rightarrow>
                    let res = empty_result\<lparr>HostKeyFingerprint' := fp\<rparr> in
                    ret (Some res, map_option (Wrapf (''ssh handshake with '' @ addr @ '': '')) failure)) }
           }))"

definition runSession ::
  "'k net \<Rightarrow> string \<Rightarrow> string \<Rightarrow> Result \<Rightarrow> ('k, Result option \<times> err option) net_prog" where
  "runSession N cmd stdin res = do {
     s \<leftarrow> issue (net_NewSession N) OpenedSession;
     case s of
       Some e \<Rightarrow> ret (Some res, Some (Wrapf ''opening session: '' e))
     | None \<Rightarrow> do {
         r \<leftarrow> issue (\<lambda>w. net_Session N w cmd stdin) (Ran cmd stdin);
         (case r of (out, errout, ending) \<Rightarrow>
            let res' = res\<lparr>Stdout := out, Stderr := errout\<rparr> in
            (case ending of
               TimedOut e \<Rightarrow> do {
                 issue (\<lambda>_. ()) (\<lambda>_. ClosedClient);
                 ret (Some res', Some (Wrapf ''script timed out: '' e)) }
             | Finished (Some e) \<Rightarrow>
                 ret (Some res', Some (Wrapf (''script failed (stderr tail: '' @ tail errout 800 @ ''): '') e))
             | Finished None \<Rightarrow> ret (Some res', None))) }
   }"

text \<open>The common end of \<open>Run\<close> and \<open>RunShim\<close>: connect, run the session, close the client.\<close>

definition with_client ::
  "'k ssh_lib \<Rightarrow> 'k net \<Rightarrow> Target \<Rightarrow> string \<Rightarrow> string \<Rightarrow> ('k, Result option \<times> err option) net_prog" where
  "with_client L N t cmd stdin = do {
     c \<leftarrow> connect L N t;
     (case c of
        (res, Some e) \<Rightarrow> ret (res, Some e)
      | (None, None) \<Rightarrow> ret (None, None)
      | (Some res, None) \<Rightarrow> do {
          out \<leftarrow> runSession N cmd stdin res;
          issue (\<lambda>_. ()) (\<lambda>_. ClosedClient);
          ret out }) }"

definition Run ::
  "'k ssh_lib \<Rightarrow> 'k net \<Rightarrow> Target \<Rightarrow> string \<Rightarrow> (string \<times> string) list \<Rightarrow> ('k, Result option \<times> err option) net_prog" where
  "Run L N t script env =
     (case raw_stdin script env of
        Inl e \<Rightarrow> ret (None, Some e)
      | Inr stdin \<Rightarrow>
          with_client L N t (if effectiveUser t = ''root'' then ''bash -s'' else ''sudo bash -s'') stdin)"

definition RunShim ::
  "'k ssh_lib \<Rightarrow> 'k net \<Rightarrow> Target \<Rightarrow> Envelope \<Rightarrow> ('k, Result option \<times> err option) net_prog" where
  "RunShim L N t env =
     (case Marshal env of
        Inl e \<Rightarrow> ret (None, Some (Wrapf ''building envelope: '' e))
      | Inr wire \<Rightarrow>
          with_client L N t (if ShimCommand t = '''' then DefaultShimCommand else ShimCommand t) wire)"

subsection \<open>The pin guards credentials and commands\<close>

text \<open>Events that give the peer something: authentication with the pool's key, and sessions.\<close>

fun discloses :: "'k net_event \<Rightarrow> bool" where
  "discloses (Authenticated _ _ _) = True"
| "discloses (OpenedSession _) = True"
| "discloses (Ran _ _ _) = True"
| "discloses _ = False"

definition proved_key :: "('k \<Rightarrow> bool) \<Rightarrow> 'k net_event log \<Rightarrow> bool" where
  "proved_key good w = list_ex (\<lambda>e. case e of HostKey _ (Inr key) \<Rightarrow> good key | _ \<Rightarrow> False) w"

text \<open>Every disclosing event of the log comes after a key exchange with a good key.\<close>

fun disclosed_after :: "('k \<Rightarrow> bool) \<Rightarrow> 'k net_event log \<Rightarrow> bool" where
  "disclosed_after good [] = True"
| "disclosed_after good (e # w) = ((discloses e \<longrightarrow> proved_key good w) \<and> disclosed_after good w)"

lemma proved_key_Cons [simp]:
  "proved_key good (e # w) \<longleftrightarrow> (case e of HostKey _ (Inr key) \<Rightarrow> good key | _ \<Rightarrow> False) \<or> proved_key good w"
  by (simp add: proved_key_def)

abbreviation matches_pin :: "'k ssh_lib \<Rightarrow> Target \<Rightarrow> 'k \<Rightarrow> bool" where
  "matches_pin L t key \<equiv> Fingerprint L key = PinnedHostKey t"

lemma connect_pinned:
  assumes pin: "PinnedHostKey t \<noteq> ''''"
  shows "valid (disclosed_after (matches_pin L t)) (connect L N t)
    (\<lambda>r w. disclosed_after (matches_pin L t) w \<and>
       (snd r = None \<longrightarrow> fst r \<noteq> None \<and> proved_key (matches_pin L t) w))"
  unfolding valid_def using pin
  by (auto simp: connect_def NewClientConn_def hostKeyCallback_def Let_def
        split: option.splits sum.splits prod.splits if_splits)

lemma runSession_pinned:
  "valid (\<lambda>w. disclosed_after good w \<and> proved_key good w) (runSession N cmd stdin res)
    (\<lambda>r w. disclosed_after good w)"
  unfolding valid_def
  by (auto simp: runSession_def Let_def split: option.splits prod.splits session_end.splits)

lemma with_client_pinned:
  assumes "PinnedHostKey t \<noteq> ''''"
  shows "valid (disclosed_after (matches_pin L t)) (with_client L N t cmd stdin)
    (\<lambda>r. disclosed_after (matches_pin L t))"
proof -
  let ?D = "disclosed_after (matches_pin L t)" and ?K = "proved_key (matches_pin L t)"
  have session: "valid (\<lambda>w. ?D w \<and> ?K w)
      (do { out \<leftarrow> runSession N cmd stdin res; issue (\<lambda>_. ()) (\<lambda>_. ClosedClient); ret out }) (\<lambda>r. ?D)" for res
    by (rule valid_bind [OF runSession_pinned], rule valid_bind [where Q = "\<lambda>_. ?D"])
       (auto intro!: valid_rules)
  show ?thesis
    unfolding with_client_def
    by (rule valid_bind [OF connect_pinned [OF assms]])
       (auto split: prod.split option.split intro!: valid_rules valid_weaken [OF session])
qed

text \<open>C30. \<^bold>\<open>No credential and no command goes to a host whose key differs from the pin.\<close> With a
  pinned fingerprint, every authentication and every session of \<^verbatim>\<open>Run\<close> and of \<^verbatim>\<open>RunShim\<close> comes
  after a key exchange in which the host proved a key with exactly that fingerprint, whatever the
  network does.\<close>

theorem pin_guards_connection:
  assumes "PinnedHostKey t \<noteq> ''''"
  shows "disclosed_after (matches_pin L t) (snd (run_state (Run L N t script env) [])) \<and>
    disclosed_after (matches_pin L t) (snd (run_state (RunShim L N t envelope) []))"
proof -
  have "disclosed_after (matches_pin L t) (snd (run_state (with_client L N t cmd stdin) []))" for cmd stdin
    by (rule valid_run [OF with_client_pinned [OF assms]]) simp
  then show ?thesis by (simp add: Run_def RunShim_def split: sum.split)
qed

text \<open>A concrete library (keys are strings) and network (every host proves the key \<^verbatim>\<open>k\<close> and
  accepts everything), on which a session is really run.\<close>

definition plain_lib :: "string ssh_lib" where
  "plain_lib = \<lparr>pem_Decode = \<lambda>s. Some (''SSH SIGNATURE'', s), ParsePublicKey = Inr,
     ParseAuthorizedKey = Inr, ParseKnownHosts = Inr, MarshalKey = id, VerifyKey = \<lambda>k m s. None,
     sha256_Sum256 = id, sha512_Sum512 = id\<rparr>"

definition open_net :: "string net" where
  "open_net = \<lparr>net_ParsePrivateKey = \<lambda>_. None, net_Dial = \<lambda>_ _. None,
     net_KeyExchange = \<lambda>_ _. Inr ''k'', net_Refused = id, net_Auth = \<lambda>_ _ _ _. None,
     net_NewSession = \<lambda>_. None, net_Session = \<lambda>_ _ _. (''ok'', '''', Finished None)\<rparr>"

definition pinned_target :: Target where
  "pinned_target = \<lparr>t_Address = ''10.0.0.1'', t_Port = 0, t_User = '''', PrivateKey = ''pem'',
     PinnedHostKey = ''SHA256:aw'', ShimCommand = ''''\<rparr>"

theorem pin_guards_connection_witness:
  "disclosed_after (matches_pin plain_lib pinned_target)
     (snd (run_state (Run plain_lib open_net pinned_target ''true'' []) [])) \<and>
   list_ex discloses (snd (run_state (Run plain_lib open_net pinned_target ''true'' []) []))"
proof -
  have "PinnedHostKey pinned_target \<noteq> ''''" by (simp add: pinned_target_def)
  from pin_guards_connection [OF this, of plain_lib open_net "''true''" "[]"]
  have "disclosed_after (matches_pin plain_lib pinned_target)
     (snd (run_state (Run plain_lib open_net pinned_target ''true'' []) []))" by blast
  moreover have "list_ex discloses (snd (run_state (Run plain_lib open_net pinned_target ''true'' []) []))"
    by code_simp
  ultimately show ?thesis by blast
qed

subsection \<open>What the shell makes of the preamble\<close>

text \<open>The shell's own grammar of names: a letter or an underscore, then letters, underscores and digits.\<close>

definition sh_letter :: "char \<Rightarrow> bool" where
  "sh_letter c \<longleftrightarrow> of_char c \<in> {65..90::nat} \<or> of_char c \<in> {97..122::nat} \<or> of_char c = (95::nat)"

definition sh_digit :: "char \<Rightarrow> bool" where
  "sh_digit c \<longleftrightarrow> of_char c \<in> {48..57::nat}"

definition sh_identifier :: "string \<Rightarrow> bool" where
  "sh_identifier k \<longleftrightarrow> k \<noteq> [] \<and> sh_letter (hd k) \<and> list_all (\<lambda>c. sh_letter c \<or> sh_digit c) (tl k)"

text \<open>How a POSIX shell reads one word up to the end of its line: outside quotes, a backslash
  quotes the next character and an apostrophe opens a quoted part, in which every character up to
  the next apostrophe is literal. NUL bytes are dropped. Words with other special characters are
  outside this fragment (\<open>None\<close>).\<close>

fun sh_word :: "bool \<Rightarrow> string \<Rightarrow> string \<Rightarrow> (string \<times> string) option" where
  "sh_word quoted acc [] = (if quoted then None else Some (acc, []))"
| "sh_word quoted acc [c] =
     (if c = CHR 0x27 then (if quoted then Some (acc, []) else None)
      else if quoted then None
      else if c = CHR 0x0A then Some (acc, [])
      else if sh_letter c \<or> sh_digit c then Some (acc @ [c], []) else None)"
| "sh_word quoted acc (c # d # s) =
     (if c = CHR 0x00 then sh_word quoted acc (d # s)
      else if c = CHR 0x27 then sh_word (\<not> quoted) acc (d # s)
      else if quoted then sh_word quoted (acc @ [c]) (d # s)
      else if c = CHR 0x0A then Some (acc, d # s)
      else if c = CHR 0x5C then
        (if d = CHR 0x0A then sh_word quoted acc s else sh_word quoted (acc @ [d]) s)
      else if sh_letter c \<or> sh_digit c then sh_word quoted (acc @ [c]) (d # s)
      else None)"

text \<open>Reading \<open>n\<close> lines of the form \<^verbatim>\<open>export NAME=word\<close>.\<close>

fun sh_export :: "nat \<Rightarrow> string \<Rightarrow> ((string \<times> string) list \<times> string) option" where
  "sh_export 0 s = Some ([], s)"
| "sh_export (Suc n) s =
     (case CutPrefix s ''export '' of None \<Rightarrow> None | Some r \<Rightarrow>
      case Cut CHR ''='' r of None \<Rightarrow> None | Some (k, r') \<Rightarrow>
      if \<not> sh_identifier k then None else
      case sh_word False [] r' of None \<Rightarrow> None | Some (v, r'') \<Rightarrow>
        map_option (\<lambda>(kvs, rest). ((k, v) # kvs, rest)) (sh_export n r''))"

lemma ReplaceAll_char: "ReplaceAll s [c] new = concat (map (\<lambda>d. if d = c then new else [d]) s)"
  by (induction s) auto

lemma sh_word_quoted_char:
  assumes "c \<noteq> CHR 0x00"
  shows "sh_word True acc ((if c = CHR 0x27 then [CHR 0x27, CHR 0x5C, CHR 0x27, CHR 0x27] else [c]) @ d # s) =
    sh_word True (acc @ [c]) (d # s)"
  using assms by auto

lemma sh_word_body:
  assumes "CHR 0x00 \<notin> set v"
  shows "sh_word True acc
      (concat (map (\<lambda>d. if d = CHR 0x27 then [CHR 0x27, CHR 0x5C, CHR 0x27, CHR 0x27] else [d]) v) @ d # s) =
    sh_word True (acc @ v) (d # s)"
  using assms
proof (induction v arbitrary: acc)
  case (Cons c v)
  let ?q = "\<lambda>d. if d = CHR 0x27 then [CHR 0x27, CHR 0x5C, CHR 0x27, CHR 0x27] else [d]"
  obtain e r where rest: "concat (map ?q v) @ d # s = e # r"
    by (cases "concat (map ?q v) @ d # s") auto
  have "sh_word True acc (?q c @ e # r) = sh_word True (acc @ [c]) (e # r)"
    using Cons.prems by (intro sh_word_quoted_char) auto
  then show ?case using Cons.IH [of "acc @ [c]"] Cons.prems rest by (simp only: list.map concat.simps append_assoc) simp
qed simp

lemma sh_word_shellQuote:
  assumes "CHR 0x00 \<notin> set v"
  shows "sh_word False [] (shellQuote v @ CHR 0x0A # rest) = Some (v, rest)"
proof -
  let ?body = "concat (map (\<lambda>d. if d = CHR 0x27 then [CHR 0x27, CHR 0x5C, CHR 0x27, CHR 0x27] else [d]) v)"
  obtain e r where body: "?body @ CHR 0x27 # CHR 0x0A # rest = e # r"
    by (cases "?body @ CHR 0x27 # CHR 0x0A # rest") auto
  have "sh_word False [] (shellQuote v @ CHR 0x0A # rest) = sh_word True [] (?body @ CHR 0x27 # CHR 0x0A # rest)"
    unfolding shellQuote_def ReplaceAll_char append_assoc append_Cons append_Nil body by simp
  also have "\<dots> = sh_word True v (CHR 0x27 # CHR 0x0A # rest)" using sh_word_body [OF assms] by simp
  also have "\<dots> = Some (v, rest)" by (cases rest) simp_all
  finally show ?thesis .
qed

text \<open>Quoting is a self-delimiting encoding of values, one per line, for values without NUL.\<close>

interpretation quoting: prefix_codec "\<lambda>v. shellQuote v @ [CHR 0x0A]" "sh_word False []" "\<lambda>v. CHR 0x00 \<notin> set v"
  by unfold_locales (simp add: sh_word_shellQuote)

text \<open>The pattern of the source accepts exactly the names of the shell.\<close>

lemma envNameRE_identifier: "envNameRE k \<longleftrightarrow> sh_identifier k"
proof -
  have char: "name_char = (\<lambda>c. sh_letter c \<or> sh_digit c)"
    by (rule ext) (auto simp: name_char_def sh_letter_def sh_digit_def Let_def)
  have "name_char c \<and> \<not> (48 \<le> (of_char c :: nat) \<and> (of_char c :: nat) \<le> 57) \<longleftrightarrow> sh_letter c" for c
    by (auto simp: name_char_def sh_letter_def Let_def)
  then show ?thesis by (cases k) (auto simp: envNameRE_def sh_identifier_def char)
qed

lemma sh_identifier_no_eq: "sh_identifier k \<Longrightarrow> CHR ''='' \<notin> set k"
  by (cases k) (auto simp: sh_identifier_def sh_letter_def sh_digit_def list_all_iff)

lemma sh_export_lines:
  "export_lines env ks = Inr exports \<Longrightarrow> no_nul env \<Longrightarrow>
   sh_export (length ks) (exports @ script) = Some (map (\<lambda>k. (k, param_value env k)) ks, script)"
proof (induction env ks arbitrary: exports rule: export_lines.induct)
  case (2 env k ks)
  from 2(2) have k: "envNameRE k" by (auto split: if_splits)
  then have name: "sh_identifier k" by (simp add: envNameRE_identifier)
  from k 2(2) obtain rest where rest: "export_lines env ks = Inr rest"
    and ex: "exports = ''export '' @ k @ CHR ''='' # shellQuote (param_value env k) @ CHR 0x0A # rest"
    by (auto split: sum.splits)
  have IH: "sh_export (length ks) (rest @ script) = Some (map (\<lambda>k. (k, param_value env k)) ks, script)"
    using 2(1) k rest 2(3) by simp
  have cut: "CutPrefix (exports @ script) ''export '' =
      Some (k @ CHR ''='' # shellQuote (param_value env k) @ CHR 0x0A # (rest @ script))"
    unfolding ex
    using CutPrefix_append [of "''export ''" "k @ CHR ''='' # shellQuote (param_value env k) @ CHR 0x0A # (rest @ script)"]
    by simp
  show ?case
    using name IH sh_word_shellQuote [OF param_value_no_nul [OF 2(3), of k], of "rest @ script"] sh_identifier_no_eq [OF name]
    by (simp only: list.size sh_export.simps cut option.case add_Suc_right plus_nat.add_0) simp
qed simp

lemma export_lines_names: "(\<exists>e. export_lines env ks = Inl e) \<longleftrightarrow> (\<exists>k \<in> set ks. \<not> sh_identifier k)"
  by (induction env ks rule: export_lines.induct) (auto simp: envNameRE_identifier split: sum.splits)

text \<open>C33. \<^bold>\<open>The shell sees exactly the given environment and script.\<close> \<^verbatim>\<open>Run\<close> refuses an environment exactly when one of
  its names is not a name in the grammar of the shell. Otherwise what it feeds to
  \<^verbatim>\<open>bash -s\<close> is the line \<^verbatim>\<open>set -euo pipefail\<close>, then one export line per variable, which the shell
  reads back as exactly the given names and values (so neither a name nor a value can smuggle in shell syntax), then
  the script, byte for byte. (A value cannot carry NUL bytes into the shell.)\<close>

theorem preamble_exports_env:
  assumes "no_nul env"
  shows "case raw_stdin script env of
      Inl e \<Rightarrow> \<exists>k \<in> fst ` set env. \<not> sh_identifier k
    | Inr stdin \<Rightarrow> (\<forall>k \<in> fst ` set env. sh_identifier k) \<and>
        (\<exists>exports. stdin = ''set -euo pipefail'' @ [CHR 0x0A] @ exports \<and>
          sh_export (length env) exports = Some (exported env, script))"
proof (cases "export_lines env (sort (map fst env))")
  case (Inl e)
  with export_lines_names [of env "sort (map fst env)"] show ?thesis by (auto simp: raw_stdin_def)
next
  case (Inr exports)
  with export_lines_names [of env "sort (map fst env)"] have names: "\<forall>k \<in> fst ` set env. sh_identifier k" by auto
  from sh_export_lines [OF Inr assms, of script]
  have "sh_export (length env) (exports @ script) = Some (exported env, script)"
    by (simp add: exported_def)
  with Inr names show ?thesis by (simp add: raw_stdin_def)
qed

theorem preamble_exports_env_witness:
  "\<exists>stdin exports. raw_stdin ''id'' [(''B'', ''it's''), (''A'', ''$(x)'')] = Inr stdin \<and>
     stdin = ''set -euo pipefail'' @ [CHR 0x0A] @ exports \<and>
     sh_export 2 exports = Some ([(''A'', ''$(x)''), (''B'', ''it's'')], ''id'')"
proof -
  let ?env = "[(''B'', ''it's''), (''A'', ''$(x)'')]"
  have "case raw_stdin ''id'' ?env of Inl _ \<Rightarrow> False | Inr _ \<Rightarrow> True" by code_simp
  then obtain stdin where ok: "raw_stdin ''id'' ?env = Inr stdin" by (auto split: sum.splits)
  have "no_nul ?env" by (simp add: no_nul_def)
  from preamble_exports_env [OF this, of "''id''"] ok obtain exports where "stdin = ''set -euo pipefail'' @ [CHR 0x0A] @ exports"
    "sh_export (length ?env) exports = Some (exported ?env, ''id'')" by auto
  moreover have "exported ?env = [(''A'', ''$(x)''), (''B'', ''it's'')]" by code_simp
  ultimately show ?thesis using ok by (auto simp: numeral_2_eq_2)
qed

text \<open>The pin that the operator's material stands for: a fingerprint stays as it is, a key line
  gives the fingerprint of its key; only blank or unreadable material is refused.\<close>

lemma PinnedFingerprint_prefix:
  "PinnedFingerprintFromKnownHost L data = Inr fp \<Longrightarrow> HasPrefix fp ''SHA256:''"
  by (auto simp: PinnedFingerprintFromKnownHost_def Fingerprint_def Let_def split: if_splits sum.splits)

lemma tail_length: "length (tail s n) \<le> n + 3"
  by (simp add: tail_def Let_def bytes_of_def)

end
