(* ===== verification/Environment.thy ===== *)
theory Environment
  imports ApiTypes Profile SshExec
begin

section \<open>The outside world of the controllers\<close>

text \<open>
  \<open>event\<close> lists the calls the controllers and providers make, each with its arguments and its
  response; \<open>world\<close> holds the functions that answer them, from the log of all earlier calls and the
  arguments. The API server, the other controllers and replicas, karpenter core, the machines of
  the pool, the clock and the libraries are all behind it. Log lines of the program are not
  modelled.

  The subsection on the API server says what the program relies on of it: \<open>at rv\<close> is the SSHHost
  object stored under a resource version. A read may be stale, but returns an object of the history. A
  status update or patch with an optimistic lock succeeds only against the version it names; a
  patch is a JSON merge patch, so it writes exactly the fields in which the new object differs
  from the one it was computed against, and leaves the others as they are on the server. A
  conflict is reported for writes only. Timestamps are kept as they are written; the API server's
  rounding of them to whole seconds is not modelled.

  The last fields of \<open>world\<close> are library functions without effects: the label selector parser, the
  template engine, the SSH library, the condition helpers of apimachinery (\<open>w_SetStatusCondition\<close>) and
  operatorpkg (\<open>w_SetReady\<close>, \<open>w_GetReady\<close>), floating-point parsing and arithmetic, and the order in
  which the Go runtime iterates over a map that the program has built (\<open>w_MapOrder\<close>).
\<close>

type_synonym secret_data = "(string \<times> string) list"
type_synonym pubkey = string

record secret_object =
  so_Name :: string
  so_Namespace :: string
  so_Type :: string
  so_StringData :: secret_data

text \<open>\<^verbatim>\<open>events.Event\<close> of karpenter, with the name of the involved object.\<close>

record PublishedEvent =
  ev_InvolvedObject :: string
  ev_Type :: string
  ev_Reason :: string
  ev_Message :: string
  ev_DedupeValues :: "string list"

datatype event =
    GetHost nsname "err + SSHHost"
  | ListHosts string "LabelSelector option" "err + SSHHost list"
  | UpdateHostStatus SSHHost "err + SSHHost"
  | PatchHostStatus SSHHost SSHHost "err + SSHHost"
  | GetProfile string "err + SSHJoinProfile"
  | GetNodeClaim string "err + NodeClaim"
  | ListNodeClaims string "err + NodeClaim list"
  | GetNodeClass string "err + SSHNodeClass"
  | ListNodeClasses "err + SSHNodeClass list"
  | UpdateNodeClass SSHNodeClass "err + SSHNodeClass"
  | PatchNodeClassStatus SSHNodeClass SSHNodeClass "err option"
  | GetNode string "err + Node"
  | ListNodes string "err + Node list"
  | PatchNode Node Node "err option"
  | DeleteNode Node "err option"
  | ListPods string LabelSelector "err + Pod list"
  | GetSecret string string "err + secret_data"
  | CreateSecret secret_object "err option"
  | DeleteSecret string string "err option"
  | GetConfigMap string string "err + secret_data"
  | GenerateToken "err + string"
  | Exec time Target string "(string \<times> string) list" "err + Result"
  | ExecShim time Target Envelope "err + Result"
  | Clock time
  | ObservedPhase string string
  | ObservedProbe string
  | ZombieAction string
  | ObservedGate string time
  | RecordedEvent string string string string string
  | Published PublishedEvent

record world =
  w_GetHost :: "event log \<Rightarrow> nsname \<Rightarrow> err + SSHHost"
  w_ListHosts :: "event log \<Rightarrow> string \<Rightarrow> LabelSelector option \<Rightarrow> err + SSHHost list"
  w_UpdateHostStatus :: "event log \<Rightarrow> SSHHost \<Rightarrow> err + SSHHost"
  w_PatchHostStatus :: "event log \<Rightarrow> SSHHost \<Rightarrow> SSHHost \<Rightarrow> err + SSHHost"
  w_GetProfile :: "event log \<Rightarrow> string \<Rightarrow> err + SSHJoinProfile"
  w_GetNodeClaim :: "event log \<Rightarrow> string \<Rightarrow> err + NodeClaim"
  w_ListNodeClaims :: "event log \<Rightarrow> string \<Rightarrow> err + NodeClaim list"
  w_GetNodeClass :: "event log \<Rightarrow> string \<Rightarrow> err + SSHNodeClass"
  w_ListNodeClasses :: "event log \<Rightarrow> err + SSHNodeClass list"
  w_UpdateNodeClass :: "event log \<Rightarrow> SSHNodeClass \<Rightarrow> err + SSHNodeClass"
  w_PatchNodeClassStatus :: "event log \<Rightarrow> SSHNodeClass \<Rightarrow> SSHNodeClass \<Rightarrow> err option"
  w_GetNode :: "event log \<Rightarrow> string \<Rightarrow> err + Node"
  w_ListNodes :: "event log \<Rightarrow> string \<Rightarrow> err + Node list"
  w_PatchNode :: "event log \<Rightarrow> Node \<Rightarrow> Node \<Rightarrow> err option"
  w_DeleteNode :: "event log \<Rightarrow> Node \<Rightarrow> err option"
  w_ListPods :: "event log \<Rightarrow> string \<Rightarrow> LabelSelector \<Rightarrow> err + Pod list"
  w_GetSecret :: "event log \<Rightarrow> string \<Rightarrow> string \<Rightarrow> err + secret_data"
  w_CreateSecret :: "event log \<Rightarrow> secret_object \<Rightarrow> err option"
  w_DeleteSecret :: "event log \<Rightarrow> string \<Rightarrow> string \<Rightarrow> err option"
  w_GetConfigMap :: "event log \<Rightarrow> string \<Rightarrow> string \<Rightarrow> err + secret_data"
  w_GenerateToken :: "event log \<Rightarrow> err + string"
  w_Exec :: "event log \<Rightarrow> time \<Rightarrow> Target \<Rightarrow> string \<Rightarrow> (string \<times> string) list \<Rightarrow> err + Result"
  w_ExecShim :: "event log \<Rightarrow> time \<Rightarrow> Target \<Rightarrow> Envelope \<Rightarrow> err + Result"
  w_Now :: "event log \<Rightarrow> time"
  w_PoolNamespace :: string
  w_SelectorError :: "LabelSelector \<Rightarrow> err option"
  w_Templates :: template_engine
  w_Ssh :: "pubkey ssh_lib"
  w_Retries :: nat
  w_Polls :: nat
  w_PollTimeout :: err
  w_LoadKubeconfig :: "string \<Rightarrow> err + (string \<times> string \<times> string) list"
  w_TokenSecretName :: "string \<Rightarrow> string"
  w_FormatTime :: "time \<Rightarrow> string"
  w_QuantityString :: "Quantity \<Rightarrow> string"
  w_SetStatusCondition :: "time \<Rightarrow> Condition list \<Rightarrow> Condition \<Rightarrow> Condition list"
  w_SetReady :: "time \<Rightarrow> SSHNodeClass \<Rightarrow> ConditionStatus \<times> string \<times> string \<Rightarrow> Condition list"
  w_GetReady :: "SSHNodeClass \<Rightarrow> ConditionStatus \<times> string"
  w_MapOrder :: "string list \<Rightarrow> string list"
  w_ParseFloat :: "string \<Rightarrow> err + float64"
  w_CPUPrice :: "float64 \<Rightarrow> Quantity \<Rightarrow> float64"
  w_CloudErrorText :: "cloud_err \<Rightarrow> string"

type_synonym 'a io = "(event, 'a) prog"

subsection \<open>The calls\<close>

definition getHost :: "world \<Rightarrow> nsname \<Rightarrow> (err + SSHHost) io" where
  [call_defs]: "getHost E nn = issue (\<lambda>w. w_GetHost E w nn) (GetHost nn)"

definition listHosts :: "world \<Rightarrow> string \<Rightarrow> LabelSelector option \<Rightarrow> (err + SSHHost list) io" where
  [call_defs]: "listHosts E ns sel = issue (\<lambda>w. w_ListHosts E w ns sel) (ListHosts ns sel)"

definition updateHostStatus :: "world \<Rightarrow> SSHHost \<Rightarrow> (err + SSHHost) io" where
  [call_defs]: "updateHostStatus E h = issue (\<lambda>w. w_UpdateHostStatus E w h) (UpdateHostStatus h)"

definition patchHostStatus :: "world \<Rightarrow> SSHHost \<Rightarrow> SSHHost \<Rightarrow> (err + SSHHost) io" where
  [call_defs]: "patchHostStatus E orig h = issue (\<lambda>w. w_PatchHostStatus E w orig h) (PatchHostStatus orig h)"

definition getProfile :: "world \<Rightarrow> string \<Rightarrow> (err + SSHJoinProfile) io" where
  [call_defs]: "getProfile E n = issue (\<lambda>w. w_GetProfile E w n) (GetProfile n)"

definition getNodeClaim :: "world \<Rightarrow> string \<Rightarrow> (err + NodeClaim) io" where
  [call_defs]: "getNodeClaim E n = issue (\<lambda>w. w_GetNodeClaim E w n) (GetNodeClaim n)"

definition listNodeClaims :: "world \<Rightarrow> string \<Rightarrow> (err + NodeClaim list) io" where
  [call_defs]: "listNodeClaims E n = issue (\<lambda>w. w_ListNodeClaims E w n) (ListNodeClaims n)"

definition getNodeClass :: "world \<Rightarrow> string \<Rightarrow> (err + SSHNodeClass) io" where
  [call_defs]: "getNodeClass E n = issue (\<lambda>w. w_GetNodeClass E w n) (GetNodeClass n)"

definition listNodeClasses :: "world \<Rightarrow> (err + SSHNodeClass list) io" where
  [call_defs]: "listNodeClasses E = issue (w_ListNodeClasses E) ListNodeClasses"

definition updateNodeClass :: "world \<Rightarrow> SSHNodeClass \<Rightarrow> (err + SSHNodeClass) io" where
  [call_defs]: "updateNodeClass E c = issue (\<lambda>w. w_UpdateNodeClass E w c) (UpdateNodeClass c)"

definition patchNodeClassStatus :: "world \<Rightarrow> SSHNodeClass \<Rightarrow> SSHNodeClass \<Rightarrow> err option io" where
  [call_defs]: "patchNodeClassStatus E orig c =
     issue (\<lambda>w. w_PatchNodeClassStatus E w orig c) (PatchNodeClassStatus orig c)"

definition getNode :: "world \<Rightarrow> string \<Rightarrow> (err + Node) io" where
  [call_defs]: "getNode E n = issue (\<lambda>w. w_GetNode E w n) (GetNode n)"

definition listNodes :: "world \<Rightarrow> string \<Rightarrow> (err + Node list) io" where
  [call_defs]: "listNodes E ip = issue (\<lambda>w. w_ListNodes E w ip) (ListNodes ip)"

definition patchNode :: "world \<Rightarrow> Node \<Rightarrow> Node \<Rightarrow> err option io" where
  [call_defs]: "patchNode E stored n = issue (\<lambda>w. w_PatchNode E w stored n) (PatchNode stored n)"

definition deleteNode :: "world \<Rightarrow> Node \<Rightarrow> err option io" where
  [call_defs]: "deleteNode E n = issue (\<lambda>w. w_DeleteNode E w n) (DeleteNode n)"

definition listPods :: "world \<Rightarrow> string \<Rightarrow> LabelSelector \<Rightarrow> (err + Pod list) io" where
  [call_defs]: "listPods E ns sel = issue (\<lambda>w. w_ListPods E w ns sel) (ListPods ns sel)"

definition getSecret :: "world \<Rightarrow> string \<Rightarrow> string \<Rightarrow> (err + secret_data) io" where
  [call_defs]: "getSecret E ns n = issue (\<lambda>w. w_GetSecret E w ns n) (GetSecret ns n)"

definition createSecret :: "world \<Rightarrow> secret_object \<Rightarrow> err option io" where
  [call_defs]: "createSecret E s = issue (\<lambda>w. w_CreateSecret E w s) (CreateSecret s)"

definition deleteSecret :: "world \<Rightarrow> string \<Rightarrow> string \<Rightarrow> err option io" where
  [call_defs]: "deleteSecret E ns n = issue (\<lambda>w. w_DeleteSecret E w ns n) (DeleteSecret ns n)"

definition getConfigMap :: "world \<Rightarrow> string \<Rightarrow> string \<Rightarrow> (err + secret_data) io" where
  [call_defs]: "getConfigMap E ns n = issue (\<lambda>w. w_GetConfigMap E w ns n) (GetConfigMap ns n)"

definition generateToken :: "world \<Rightarrow> (err + string) io" where
  [call_defs]: "generateToken E = issue (w_GenerateToken E) GenerateToken"

text \<open>The two runners get their deadline from the context, as a duration from the call on.\<close>

definition exec :: "world \<Rightarrow> time \<Rightarrow> Target \<Rightarrow> string \<Rightarrow> (string \<times> string) list \<Rightarrow> (err + Result) io" where
  [call_defs]: "exec E d t script env = issue (\<lambda>w. w_Exec E w d t script env) (Exec d t script env)"

definition execShim :: "world \<Rightarrow> time \<Rightarrow> Target \<Rightarrow> Envelope \<Rightarrow> (err + Result) io" where
  [call_defs]: "execShim E d t e = issue (\<lambda>w. w_ExecShim E w d t e) (ExecShim d t e)"

definition now :: "world \<Rightarrow> time io" where
  [call_defs]: "now E = issue (w_Now E) Clock"

definition note_event :: "event \<Rightarrow> unit io" where
  [call_defs]: "note_event e = issue (\<lambda>_. ()) (\<lambda>_. e)"

subsection \<open>Histograms and counters of pkg/metrics/metrics.go\<close>

text \<open>An observation is an event with its labels; the recorded durations are not modelled, except for the
  time of the Node's creation from which a gate's latency counts.\<close>

definition outcome :: "err option \<Rightarrow> string" where
  "outcome e = (if e \<noteq> None then ''error'' else ''success'')"

definition ObserveProbe :: "err option \<Rightarrow> unit io" where
  [call_defs]: "ObserveProbe e = note_event (ObservedProbe (outcome e))"

definition ObservePhase :: "string \<Rightarrow> err option \<Rightarrow> unit io" where
  [call_defs]: "ObservePhase phase e = note_event (ObservedPhase phase (outcome e))"

definition ZombieActionLeft :: string where "ZombieActionLeft = ''left''"
definition ZombieActionParkedForeign :: string where "ZombieActionParkedForeign = ''parked_foreign''"
definition ZombieActionLeaveFailed :: string where "ZombieActionLeaveFailed = ''leave_failed''"

definition RecordZombieAction :: "string \<Rightarrow> unit io" where
  [call_defs]: "RecordZombieAction action = note_event (ZombieAction action)"

definition ObserveStartupTaintGate :: "string \<Rightarrow> time \<Rightarrow> unit io" where
  [call_defs]: "ObserveStartupTaintGate taintKey nodeCreated = note_event (ObservedGate taintKey nodeCreated)"

subsection \<open>What the API server promises\<close>

definition pick :: "'a \<Rightarrow> 'a \<Rightarrow> 'a \<Rightarrow> 'a" where
  "pick orig new base = (if new = orig then base else new)"

lemma pick_base [simp]: "pick b n b = n"
  by (simp add: pick_def)

lemma pick_changed: "n \<noteq> orig \<Longrightarrow> pick orig n b = n"
  by (simp add: pick_def)

lemma pick_same [simp]: "pick x x b = b"
  by (simp add: pick_def)

text \<open>The merge patch from \<open>orig\<close> to \<open>new\<close>, applied to what the server has.\<close>

definition merge_status :: "SSHHostStatus \<Rightarrow> SSHHostStatus \<Rightarrow> SSHHostStatus \<Rightarrow> SSHHostStatus" where
  "merge_status orig new base =
     \<lparr>State' = pick (State' orig) (State' new) (State' base),
      Conditions = pick (Conditions orig) (Conditions new) (Conditions base),
      ClaimRef = pick (ClaimRef orig) (ClaimRef new) (ClaimRef base),
      InstalledProfile = pick (InstalledProfile orig) (InstalledProfile new) (InstalledProfile base),
      BootstrapTokenID = pick (BootstrapTokenID orig) (BootstrapTokenID new) (BootstrapTokenID base),
      ProviderID' = pick (ProviderID' orig) (ProviderID' new) (ProviderID' base),
      HostKeyFingerprint = pick (HostKeyFingerprint orig) (HostKeyFingerprint new) (HostKeyFingerprint base),
      ObservedCapacity = pick (ObservedCapacity orig) (ObservedCapacity new) (ObservedCapacity base),
      ObservedArch = pick (ObservedArch orig) (ObservedArch new) (ObservedArch base),
      ObservedGeneration = pick (SSHHostStatus.ObservedGeneration orig)
        (SSHHostStatus.ObservedGeneration new) (SSHHostStatus.ObservedGeneration base),
      LastProbeTime = pick (LastProbeTime orig) (LastProbeTime new) (LastProbeTime base),
      LastProbeError = pick (LastProbeError orig) (LastProbeError new) (LastProbeError base)\<rparr>"

lemma merge_status_base [simp]: "merge_status s n s = n"
  by (simp add: merge_status_def)

definition stored :: "(string \<Rightarrow> SSHHost) \<Rightarrow> SSHHost \<Rightarrow> bool" where
  "stored at h \<longleftrightarrow> at (h_ResourceVersion h) = h"

definition base :: "(string \<Rightarrow> SSHHost) \<Rightarrow> SSHHost \<Rightarrow> SSHHost" where
  "base at h = at (h_ResourceVersion h)"

definition with_version :: "SSHHostStatus \<Rightarrow> string \<Rightarrow> SSHHost \<Rightarrow> SSHHost" where
  "with_version s rv h = h\<lparr>Status := s, h_ResourceVersion := rv\<rparr>"

lemma with_version_simps [simp]:
  "Status (with_version s rv h) = s" "h_ResourceVersion (with_version s rv h) = rv"
  "Spec (with_version s rv h) = Spec h" "h_Name (with_version s rv h) = h_Name h"
  "h_Namespace (with_version s rv h) = h_Namespace h" "h_Labels (with_version s rv h) = h_Labels h"
  "h_Annotations (with_version s rv h) = h_Annotations h"
  "h_Generation (with_version s rv h) = h_Generation h"
  "h_CreationTimestamp (with_version s rv h) = h_CreationTimestamp h"
  by (simp_all add: with_version_def)

lemma base_stored: "stored at h \<Longrightarrow> base at h = h"
  by (simp add: stored_def base_def)

text \<open>The effect a successful write has on the server.\<close>

definition patched :: "(string \<Rightarrow> SSHHost) \<Rightarrow> SSHHost \<Rightarrow> SSHHost \<Rightarrow> SSHHostStatus" where
  "patched at orig new = merge_status (Status orig) (Status new) (Status (base at orig))"

text \<open>A GET returns the object it was asked for.\<close>

definition by_name :: "world \<Rightarrow> bool" where
  "by_name E \<longleftrightarrow> (\<forall>w nn h. w_GetHost E w nn = Inr h \<longrightarrow> (h_Namespace h, h_Name h) = nn)"

lemma patched_stored: "stored at orig \<Longrightarrow> patched at orig new = Status new"
  by (simp add: patched_def base_stored)

subsection \<open>Concrete worlds\<close>

text \<open>A world in which every call fails and every library function is the simplest one; concrete
  runs override what they need.\<close>

definition refusal :: err where
  "refusal = OtherErr ''refused''"

definition dead_world :: world where
  "dead_world = \<lparr>w_GetHost = \<lambda>_ _. Inl refusal, w_ListHosts = \<lambda>_ _ _. Inl refusal,
     w_UpdateHostStatus = \<lambda>_ _. Inl refusal, w_PatchHostStatus = \<lambda>_ _ _. Inl refusal,
     w_GetProfile = \<lambda>_ _. Inl refusal, w_GetNodeClaim = \<lambda>_ _. Inl refusal,
     w_ListNodeClaims = \<lambda>_ _. Inl refusal, w_GetNodeClass = \<lambda>_ _. Inl refusal,
     w_ListNodeClasses = \<lambda>_. Inl refusal, w_UpdateNodeClass = \<lambda>_ _. Inl refusal,
     w_PatchNodeClassStatus = \<lambda>_ _ _. Some refusal, w_GetNode = \<lambda>_ _. Inl refusal,
     w_ListNodes = \<lambda>_ _. Inl refusal, w_PatchNode = \<lambda>_ _ _. Some refusal,
     w_DeleteNode = \<lambda>_ _. Some refusal, w_ListPods = \<lambda>_ _ _. Inl refusal,
     w_GetSecret = \<lambda>_ _ _. Inl refusal, w_CreateSecret = \<lambda>_ _. Some refusal,
     w_DeleteSecret = \<lambda>_ _ _. Some refusal, w_GetConfigMap = \<lambda>_ _ _. Inl refusal,
     w_GenerateToken = \<lambda>_. Inl refusal, w_Exec = \<lambda>_ _ _ _ _. Inl refusal,
     w_ExecShim = \<lambda>_ _ _ _. Inl refusal, w_Now = \<lambda>_. 0, w_PoolNamespace = ''kpssh-system'',
     w_SelectorError = \<lambda>_. None, w_Templates = verbatim_engine, w_Ssh = plain_lib, w_Retries = 3,
     w_Polls = 48, w_PollTimeout = OtherErr ''context deadline exceeded'',
     w_LoadKubeconfig = \<lambda>_. Inl refusal, w_TokenSecretName = \<lambda>i. ''bootstrap-token-'' @ i,
     w_FormatTime = \<lambda>_. ''2030-01-01T00:00:00Z'', w_QuantityString = \<lambda>_. ''1'',
     w_SetStatusCondition = \<lambda>_ cs c. c # filter (\<lambda>d. c_Type d \<noteq> c_Type c) cs,
     w_SetReady = \<lambda>t nc (st, reason, msg). \<lparr>c_Type = ''Ready'', c_Status = st, c_ObservedGeneration = ncl_Generation nc,
       c_LastTransitionTime = t, c_Reason = reason, c_Message = msg\<rparr> # filter (\<lambda>d. c_Type d \<noteq> ''Ready'') (ncl_Conditions nc),
     w_GetReady = \<lambda>nc. (case List.find (\<lambda>c. c_Type c = ''Ready'') (ncl_Conditions nc) of
       None \<Rightarrow> (ConditionUnknown, '''') | Some c \<Rightarrow> (c_Status c, c_Message c)),
     w_MapOrder = \<lambda>ks. ks, w_ParseFloat = \<lambda>_. Inr 1, w_CPUPrice = \<lambda>p q. p * q, w_CloudErrorText = \<lambda>_. ''failed''\<rparr>"

definition sample_status :: SSHHostStatus where
  "sample_status = \<lparr>State' = Available, Conditions = [], ClaimRef = None, InstalledProfile = '''',
     BootstrapTokenID = '''', ProviderID' = '''', HostKeyFingerprint = ''SHA256:aw'',
     ObservedCapacity = [], ObservedArch = ''amd64'', ObservedGeneration = 1, LastProbeTime = None,
     LastProbeError = ''''\<rparr>"

definition sample_host :: SSHHost where
  "sample_host = \<lparr>h_Namespace = ''kpssh-system'', h_Name = ''metal-1'', h_Labels = [], h_Annotations = [],
     h_Generation = 1, h_CreationTimestamp = 7, h_ResourceVersion = ''1'',
     Spec = \<lparr>Address = ''10.0.0.1'', Port = 22, User = ''ops'', SSHKeySecretRef = ''pool-key'',
       NodeAddress = '''', Capacity = [(''cpu'', 4000000000), (''memory'', 8000000000)],
       spec_ExecMode = Raw, TrustedSigners = [], spec_ShimCommand = ''''\<rparr>,
     Status = sample_status\<rparr>"

text \<open>One host that can be read and listed; every write is refused.\<close>

definition one_host_world :: "SSHHost \<Rightarrow> world" where
  "one_host_world h = dead_world\<lparr>
     w_GetHost := \<lambda>_ nn. if nn = (h_Namespace h, h_Name h) then Inr h else Inl (NotFoundErr ''no host''),
     w_ListHosts := \<lambda>_ _ _. Inr [h]\<rparr>"

lemma by_name_one_host: "by_name (one_host_world h)"
  by (simp add: by_name_def one_host_world_def)

text \<open>One host with its Secret and profile, on which every script succeeds; status writes are still
  refused.\<close>

definition ready_world :: "SSHHost \<Rightarrow> SSHJoinProfile \<Rightarrow> world" where
  "ready_world h prof = (one_host_world h)\<lparr>
     w_GetProfile := \<lambda>_ _. Inr prof, w_GetSecret := \<lambda>_ _ _. Inr [(''privateKey'', ''pem'')],
     w_GenerateToken := \<lambda>_. Inr ''abcdef.0123456789abcdef'', w_CreateSecret := \<lambda>_ _. None,
     w_DeleteSecret := \<lambda>_ _ _. None, w_Exec := \<lambda>_ _ _ _ _. Inr empty_result,
     w_ExecShim := \<lambda>_ _ _ _. Inr empty_result\<rparr>"

end
