(* ===== verification/HostRules.thy ===== *)
theory HostRules
  imports Environment
begin

section \<open>The rules of the shared host state machine\<close>

text \<open>
  The status of an SSHHost is written by the claim path, the release path and the probe
  controller, all by compare-and-swap. This theory states the rules they share as a rely and a
  guarantee over versions of the object:
  \<^item> \<open>host_inv\<close>: a host is in state Claimed or InUse exactly when it has a claim, and an unclaimed
    host backs no node (empty providerID);
  \<^item> \<open>legal b s\<close>: replacing the status of the stored version \<open>b\<close> by \<open>s\<close> keeps \<open>host_inv\<close>, does not
    hand a claim from one NodeClaim to another, takes a host only from Available (and not from one
    under maintenance), moves the state along an edge of the state machine (\<open>successors\<close>), and never
    replaces a pinned host key.
  \<open>good at e\<close> is what each actor relies on of an answer: a read returns a stored version that obeys
  \<open>host_inv\<close>, a write that is accepted has the effect the API server documents; \<open>legal_event\<close> is its
  guarantee, that every write it attempts is legal. Neither refers to the world as a whole: the
  guarantee for a call depends only on the answers the actor has got before. That is what lets
  HostMachine close the circle over any number of concurrent actors.
\<close>

definition host_inv :: "SSHHostStatus \<Rightarrow> bool" where
  "host_inv s \<longleftrightarrow> (ClaimRef s \<noteq> None \<longleftrightarrow> State' s \<in> {Claimed, InUse}) \<and>
     (ClaimRef s = None \<longrightarrow> ProviderID' s = '''')"

text \<open>The edges of the state machine, as the code takes them. \<open>StateUnset\<close> is the empty state of a host
  that was never written. Pending is entered from a stale claim, and from Maintenance when the
  first probe after it finds a kubelet.\<close>

fun successors :: "HostState \<Rightarrow> HostState list" where
  "successors StateUnset = [Available, Unhealthy, Leaving, Maintenance]"
| "successors Pending = [Available, Unhealthy, Leaving, Maintenance]"
| "successors Available = [Claimed, Unhealthy, Leaving, Maintenance]"
| "successors Claimed = [InUse, Available, Unhealthy, Pending]"
| "successors InUse = [Available, Unhealthy, Pending]"
| "successors Unhealthy = [Available, Leaving, Maintenance]"
| "successors Leaving = [Available, Unhealthy, Maintenance]"
| "successors Maintenance = [Available, Unhealthy, Pending]"

definition moves :: "HostState \<Rightarrow> HostState \<Rightarrow> bool" where
  "moves s t \<longleftrightarrow> t = s \<or> t \<in> set (successors s)"

lemma moves_simps [simp]:
  "moves s s" "moves s Available" "moves s Unhealthy"
  "moves s Pending \<longleftrightarrow> s \<in> {Claimed, InUse, Maintenance, Pending}"
  "moves s Maintenance \<longleftrightarrow> s \<notin> {Claimed, InUse}"
  "moves s Leaving \<longleftrightarrow> s \<notin> {Claimed, InUse, Maintenance}"
  "moves s InUse \<longleftrightarrow> s \<in> {Claimed, InUse}"
  "moves s Claimed \<longleftrightarrow> s \<in> {Available, Claimed}"
  by (cases s; simp add: moves_def)+

definition legal :: "SSHHost \<Rightarrow> SSHHostStatus \<Rightarrow> bool" where
  "legal b s \<longleftrightarrow> host_inv s \<and> moves (State' (Status b)) (State' s) \<and>
     (ClaimRef (Status b) \<noteq> None \<and> ClaimRef s \<noteq> None \<longrightarrow> ClaimRef s = ClaimRef (Status b)) \<and>
     (ClaimRef (Status b) = None \<and> ClaimRef s \<noteq> None \<longrightarrow>
        State' (Status b) = Available \<and> State' s = Claimed \<and>
        map_of (h_Annotations b) MaintenanceAnnotation = None) \<and>
     (HostKeyFingerprint (Status b) \<noteq> '''' \<longrightarrow> HostKeyFingerprint s = HostKeyFingerprint (Status b))"

fun legal_event :: "(string \<Rightarrow> SSHHost) \<Rightarrow> event \<Rightarrow> bool" where
  "legal_event at (UpdateHostStatus new r) = legal (base at new) (Status new)"
| "legal_event at (PatchHostStatus orig new r) = legal (base at orig) (patched at orig new)"
| "legal_event at _ = True"

definition known :: "(string \<Rightarrow> SSHHost) \<Rightarrow> SSHHost \<Rightarrow> bool" where
  "known at h \<longleftrightarrow> stored at h \<and> host_inv (Status h)"

definition written :: "(string \<Rightarrow> SSHHost) \<Rightarrow> SSHHostStatus \<Rightarrow> SSHHost \<Rightarrow> SSHHost \<Rightarrow> bool" where
  "written at s b h \<longleftrightarrow> stored at h \<and> h = with_version s (h_ResourceVersion h) b"

fun good :: "(string \<Rightarrow> SSHHost) \<Rightarrow> event \<Rightarrow> bool" where
  "good at (GetHost nn (Inr h)) \<longleftrightarrow> known at h \<and> (h_Namespace h, h_Name h) = nn"
| "good at (GetHost nn (Inl e)) \<longleftrightarrow> \<not> IsConflict e"
| "good at (ListHosts ns sel (Inr hs)) \<longleftrightarrow> (\<forall>h \<in> set hs. known at h)"
| "good at (UpdateHostStatus new (Inr h)) \<longleftrightarrow> written at (Status new) (base at new) h"
| "good at (PatchHostStatus orig new (Inr h)) \<longleftrightarrow> written at (patched at orig new) (base at orig) h"
| "good at _ \<longleftrightarrow> True"

lemma written_known:
  assumes "written at s b h" and "host_inv s"
  shows "known at h" and "Status h = s" and "h_Annotations h = h_Annotations b"
proof -
  from assms(1) have "stored at h" and h: "h = with_version s (h_ResourceVersion h) b" by (auto simp: written_def)
  from h show st: "Status h = s" by (metis with_version_simps(1))
  from h show "h_Annotations h = h_Annotations b" by (metis with_version_simps(7))
  show "known at h" using \<open>stored at h\<close> assms(2) st by (simp add: known_def)
qed

lemma legal_inv: "legal b s \<Longrightarrow> host_inv s"
  by (simp add: legal_def)

text \<open>A local copy whose lock fields agree with the version it names: the claim, the state, the
  providerID, the pinned key and the annotations are as on the server. Other fields may carry local changes of a
  write that failed. That version itself obeys the invariant.\<close>

definition tracks :: "(string \<Rightarrow> SSHHost) \<Rightarrow> SSHHost \<Rightarrow> bool" where
  "tracks at h \<longleftrightarrow> (let s = Status h; b = Status (base at h) in
     ClaimRef s = ClaimRef b \<and> State' s = State' b \<and> ProviderID' s = ProviderID' b \<and>
     HostKeyFingerprint s = HostKeyFingerprint b \<and> h_Annotations h = h_Annotations (base at h) \<and>
     h_Namespace h = h_Namespace (base at h) \<and> h_Name h = h_Name (base at h) \<and> host_inv b)"

lemma known_tracks: "known at h \<Longrightarrow> tracks at h"
  by (simp add: known_def tracks_def base_stored)

lemma known_base: "known at h \<Longrightarrow> base at h = h"
  by (simp add: known_def base_stored)

lemma known_patched: "known at h \<Longrightarrow> patched at h new = Status new"
  by (simp add: known_def patched_stored)

lemma known_inv: "known at h \<Longrightarrow> host_inv (Status h)"
  by (simp add: known_def)

lemma base_with_status [simp]: "base at (with_status f h) = base at h"
  by (simp add: base_def)

lemma patched_tracks:
  assumes "tracks at orig"
  shows "ClaimRef (patched at orig new) = ClaimRef (Status new)"
    "State' (patched at orig new) = State' (Status new)"
    "ProviderID' (patched at orig new) = ProviderID' (Status new)"
    "HostKeyFingerprint (patched at orig new) = HostKeyFingerprint (Status new)"
  using assms by (simp_all add: tracks_def patched_def merge_status_def pick_def Let_def)

lemma tracks_inv: "tracks at h \<Longrightarrow> host_inv (Status h)"
  by (simp add: tracks_def host_inv_def Let_def)

text \<open>A status change that leaves the claim and the pin alone and, if it touches the state at all,
  sets it to InUse.\<close>

definition under_claim :: "(SSHHostStatus \<Rightarrow> SSHHostStatus) \<Rightarrow> bool" where
  "under_claim f \<longleftrightarrow> (\<forall>s. ClaimRef (f s) = ClaimRef s \<and> HostKeyFingerprint (f s) = HostKeyFingerprint s \<and>
     (State' (f s) = State' s \<or> State' (f s) = InUse))"

lemma legal_under_claim:
  assumes "tracks at h" and "ClaimRef (Status h) \<noteq> None" and "under_claim f"
  shows "legal (base at h) (patched at h (with_status f h))"
proof -
  let ?s = "Status h"
  have f: "ClaimRef (f ?s) = ClaimRef ?s" "HostKeyFingerprint (f ?s) = HostKeyFingerprint ?s"
    "State' (f ?s) = State' ?s \<or> State' (f ?s) = InUse"
    using assms(3) by (auto simp: under_claim_def)
  have "State' ?s \<in> {Claimed, InUse}"
    using tracks_inv [OF assms(1)] assms(2) by (simp add: host_inv_def)
  with f assms(1,2) show ?thesis
    by (auto simp: legal_def host_inv_def patched_tracks tracks_def Let_def)
qed

lemma legal_release:
  assumes "tracks at h" and "ClaimRef s = None" and "ProviderID' s = ''''"
    and "State' s \<in> {Available, Unhealthy}"
    and "HostKeyFingerprint s = HostKeyFingerprint (Status h) \<or> HostKeyFingerprint (Status h) = ''''"
  shows "legal (base at h) (patched at h (h\<lparr>Status := s\<rparr>))"
  using assms by (auto simp: legal_def host_inv_def patched_tracks tracks_def Let_def)

end
