(* ===== verification/HostPool.thy ===== *)
theory HostPool
  imports HostRules
begin

section \<open>The host pool: pkg/providers/host/host.go\<close>

text \<open>
  Every operation of \<^verbatim>\<open>host.DefaultProvider\<close>. Go updates the host object in place; here each
  operation that writes returns the object as it is afterwards, also when the write failed (then
  it keeps the local change). \<open>host_provider\<close> is the Go interface \<^verbatim>\<open>host.Provider\<close> as a record of
  operations; its clients take such a record, and \<open>DefaultHostProvider\<close> is the one value of it the
  program uses. The locale \<open>pool_contract\<close> states what clients may rely on.
\<close>

record host_provider =
  hp_Available :: "LabelSelector option \<Rightarrow> string \<Rightarrow> (err + SSHHost list) io"
  hp_All :: "LabelSelector option \<Rightarrow> (err + SSHHost list) io"
  hp_Claim :: "SSHHost \<Rightarrow> NodeClaim \<Rightarrow> ((err + bool) \<times> SSHHost) io"
  hp_Release :: "SSHHost \<Rightarrow> bool \<Rightarrow> string \<Rightarrow> (err option \<times> SSHHost) io"
  hp_MarkInUse :: "SSHHost \<Rightarrow> (err option \<times> SSHHost) io"
  hp_SetInstalled :: "SSHHost \<Rightarrow> string \<Rightarrow> (err option \<times> SSHHost) io"
  hp_ByProviderID :: "string \<Rightarrow> (err + SSHHost) io"
  hp_SetProviderID :: "SSHHost \<Rightarrow> string \<Rightarrow> (err option \<times> SSHHost) io"
  hp_SetBootstrapTokenID :: "SSHHost \<Rightarrow> string \<Rightarrow> (err option \<times> SSHHost) io"
  hp_ByClaim :: "NodeClaim \<Rightarrow> (err + SSHHost option) io"
  hp_Claimed :: "(err + SSHHost list) io"

definition ClaimHeldBy :: "SSHHost \<Rightarrow> NodeClaim \<Rightarrow> bool" where
  "ClaimHeldBy h nodeClaim =
     (case ClaimRef (Status h) of
        None \<Rightarrow> False
      | Some ref \<Rightarrow>
          if ref_Name ref \<noteq> nc_Name nodeClaim then False
          else if ref_UID ref \<noteq> '''' \<and> nc_UID nodeClaim \<noteq> '''' \<and> ref_UID ref \<noteq> nc_UID nodeClaim then False
          else True)"

definition list_pool :: "world \<Rightarrow> LabelSelector option \<Rightarrow> (err + SSHHost list) io" where
  "list_pool E selector =
     (case selector of
        None \<Rightarrow> listHosts E (w_PoolNamespace E) None
      | Some s \<Rightarrow>
          (case w_SelectorError E s of
             Some e \<Rightarrow> ret (Inl (Wrapf ''invalid host selector: '' e))
           | None \<Rightarrow> listHosts E (w_PoolNamespace E) (Some s)))"

definition All :: "world \<Rightarrow> LabelSelector option \<Rightarrow> (err + SSHHost list) io" where
  "All E selector = list_pool E selector"

text \<open>The conditions of the loop in \<^verbatim>\<open>Available\<close>.\<close>

definition claimable :: "SSHHost \<Rightarrow> bool" where
  "claimable h = (State' (Status h) = Available \<and> ClaimRef (Status h) = None \<and>
     map_of (h_Annotations h) MaintenanceAnnotation = None)"

definition in_class :: "string \<Rightarrow> SSHHost \<Rightarrow> bool" where
  "in_class cls h = (cls = '''' \<or> HostClass h = cls)"

definition age_key :: "SSHHost \<Rightarrow> time \<times> string" where
  "age_key h = (h_CreationTimestamp h, h_Name h)"

definition Available_hosts :: "world \<Rightarrow> LabelSelector option \<Rightarrow> string \<Rightarrow> (err + SSHHost list) io" where
  "Available_hosts E selector cls = do {
     r \<leftarrow> list_pool E selector;
     case r of
       Inl e \<Rightarrow> ret (Inl e)
     | Inr hosts \<Rightarrow> ret (Inr (sort_key age_key (filter (\<lambda>h. claimable h \<and> in_class cls h) hosts))) }"

definition claim_status :: "NodeClaim \<Rightarrow> SSHHostStatus \<Rightarrow> SSHHostStatus" where
  "claim_status nodeClaim s =
     s\<lparr>State' := Claimed, ClaimRef := Some \<lparr>ref_Name = nc_Name nodeClaim, ref_UID = nc_UID nodeClaim\<rparr>\<rparr>"

definition Claim :: "world \<Rightarrow> SSHHost \<Rightarrow> NodeClaim \<Rightarrow> ((err + bool) \<times> SSHHost) io" where
  "Claim E host nodeClaim =
     (let host' = with_status (claim_status nodeClaim) host in do {
        r \<leftarrow> updateHostStatus E host';
        case r of
          Inl e \<Rightarrow> ret (if IsConflict e then Inr False else Inl e, host')
        | Inr host'' \<Rightarrow> ret (Inr True, host'') })"

definition casPatch :: "world \<Rightarrow> SSHHost \<Rightarrow> SSHHost \<Rightarrow> (err option \<times> SSHHost) io" where
  "casPatch E host orig = do {
     r \<leftarrow> patchHostStatus E orig host;
     case r of Inl e \<Rightarrow> ret (Some e, host) | Inr host' \<Rightarrow> ret (None, host') }"

definition sameClaim :: "ClaimReference option \<Rightarrow> ClaimReference option \<Rightarrow> bool" where
  "sameClaim a b =
     (case (a, b) of
        (Some x, Some y) \<Rightarrow> ref_Name x = ref_Name y \<and> ref_UID x = ref_UID y
      | (None, None) \<Rightarrow> True
      | _ \<Rightarrow> False)"

definition show_ref :: "ClaimReference option \<Rightarrow> string" where
  "show_ref r = (case r of None \<Rightarrow> ''<nil>'' | Some x \<Rightarrow> ''&{'' @ ref_Name x @ '' '' @ ref_UID x @ ''}'')"

text \<open>\<^verbatim>\<open>retry.RetryOnConflict\<close>: \<open>n\<close> further attempts after the first; the attempt's state is
  passed on.\<close>

fun RetryOnConflict :: "nat \<Rightarrow> ('s \<Rightarrow> (err option \<times> 's) io) \<Rightarrow> 's \<Rightarrow> (err option \<times> 's) io" where
  "RetryOnConflict n fn s = do {
     (e, s') \<leftarrow> fn s;
     case e of
       None \<Rightarrow> ret (None, s')
     | Some x \<Rightarrow>
         (if IsConflict x then (case n of 0 \<Rightarrow> ret (Some x, s') | Suc m \<Rightarrow> RetryOnConflict m fn s')
          else ret (Some x, s')) }"

definition set_status_once ::
  "world \<Rightarrow> ClaimReference option \<Rightarrow> (SSHHostStatus \<Rightarrow> SSHHostStatus) \<Rightarrow> SSHHost \<Rightarrow> (err option \<times> SSHHost) io" where
  "set_status_once E expect mutate host = do {
     (e, host') \<leftarrow> casPatch E (with_status mutate host) host;
     case e of
       None \<Rightarrow> ret (None, host')
     | Some x \<Rightarrow>
         if \<not> IsConflict x then ret (Some x, host')
         else do {
           g \<leftarrow> getHost E (h_Namespace host', h_Name host');
           case g of
             Inl gerr \<Rightarrow> ret (Some gerr, host')
           | Inr fresh \<Rightarrow>
               if \<not> sameClaim expect (ClaimRef (Status fresh)) then
                 ret (Some (Errorf (''host '' @ h_Name host' @ '' claim changed while writing status (now '' @
                   show_ref (ClaimRef (Status fresh)) @ '')'')), host')
               else ret (Some x, fresh) } }"

definition setStatus ::
  "world \<Rightarrow> SSHHost \<Rightarrow> (SSHHostStatus \<Rightarrow> SSHHostStatus) \<Rightarrow> (err option \<times> SSHHost) io" where
  "setStatus E host mutate =
     RetryOnConflict (w_Retries E) (set_status_once E (ClaimRef (Status host)) mutate) host"

definition release_status :: "bool \<Rightarrow> string \<Rightarrow> SSHHostStatus \<Rightarrow> SSHHostStatus" where
  "release_status healthy reason s =
     (let s' = s\<lparr>ClaimRef := None, ProviderID' := '''', BootstrapTokenID := ''''\<rparr> in
      if healthy then s'\<lparr>State' := Available\<rparr>
      else s'\<lparr>State' := Unhealthy, LastProbeError := reason\<rparr>)"

definition Release :: "world \<Rightarrow> SSHHost \<Rightarrow> bool \<Rightarrow> string \<Rightarrow> (err option \<times> SSHHost) io" where
  "Release E host healthy reason = casPatch E (with_status (release_status healthy reason) host) host"

definition MarkInUse :: "world \<Rightarrow> SSHHost \<Rightarrow> (err option \<times> SSHHost) io" where
  "MarkInUse E host = setStatus E host (\<lambda>s. s\<lparr>State' := InUse\<rparr>)"

definition SetInstalled :: "world \<Rightarrow> SSHHost \<Rightarrow> string \<Rightarrow> (err option \<times> SSHHost) io" where
  "SetInstalled E host marker = setStatus E host (\<lambda>s. s\<lparr>InstalledProfile := marker\<rparr>)"

definition SetProviderID :: "world \<Rightarrow> SSHHost \<Rightarrow> string \<Rightarrow> (err option \<times> SSHHost) io" where
  "SetProviderID E host providerID = setStatus E host (\<lambda>s. s\<lparr>ProviderID' := providerID\<rparr>)"

definition SetBootstrapTokenID :: "world \<Rightarrow> SSHHost \<Rightarrow> string \<Rightarrow> (err option \<times> SSHHost) io" where
  "SetBootstrapTokenID E host tokenID = setStatus E host (\<lambda>s. s\<lparr>BootstrapTokenID := tokenID\<rparr>)"

definition ProviderID :: "SSHHost \<Rightarrow> string" where
  "ProviderID host = ProviderPrefix @ h_Namespace host @ ''/'' @ h_Name host"

definition host_not_found :: "string \<Rightarrow> err" where
  "host_not_found n = NotFoundErr (''sshhosts.karpenter.dklesev.github.io '' @ Quote n @ '' not found'')"

definition ByProviderID :: "world \<Rightarrow> string \<Rightarrow> (err + SSHHost) io" where
  "ByProviderID E providerID =
     (if providerID = '''' then ret (Inl (host_not_found ''<empty providerID>''))
      else case CutPrefix providerID ProviderPrefix of
          Some rest \<Rightarrow>
            (case SplitN2 CHR ''/'' rest of
               [ns, name] \<Rightarrow> getHost E (ns, name)
             | _ \<Rightarrow> ret (Inl (Errorf (''malformed providerID '' @ Quote providerID))))
        | None \<Rightarrow> do {
            r \<leftarrow> list_pool E None;
            case r of
              Inl e \<Rightarrow> ret (Inl e)
            | Inr hosts \<Rightarrow>
                ret (case List.find (\<lambda>h. ProviderID' (Status h) = providerID) hosts of
                       Some h \<Rightarrow> Inr h
                     | None \<Rightarrow> Inl (host_not_found providerID)) })"

definition ByClaim :: "world \<Rightarrow> NodeClaim \<Rightarrow> (err + SSHHost option) io" where
  "ByClaim E nodeClaim = do {
     r \<leftarrow> list_pool E None;
     case r of
       Inl e \<Rightarrow> ret (Inl e)
     | Inr hosts \<Rightarrow> ret (Inr (List.find (\<lambda>h. ClaimHeldBy h nodeClaim) hosts)) }"

definition Claimed_hosts :: "world \<Rightarrow> (err + SSHHost list) io" where
  "Claimed_hosts E = do {
     r \<leftarrow> list_pool E None;
     case r of
       Inl e \<Rightarrow> ret (Inl e)
     | Inr hosts \<Rightarrow> ret (Inr (filter (\<lambda>h. ClaimRef (Status h) \<noteq> None) hosts)) }"

definition DefaultHostProvider :: "world \<Rightarrow> host_provider" where
  "DefaultHostProvider E = \<lparr>hp_Available = Available_hosts E, hp_All = All E, hp_Claim = Claim E,
     hp_Release = Release E, hp_MarkInUse = MarkInUse E, hp_SetInstalled = SetInstalled E,
     hp_ByProviderID = ByProviderID E, hp_SetProviderID = SetProviderID E,
     hp_SetBootstrapTokenID = SetBootstrapTokenID E, hp_ByClaim = ByClaim E, hp_Claimed = Claimed_hosts E\<rparr>"

declare RetryOnConflict.simps [simp del]

subsection \<open>Resolving hosts\<close>

lemma ClaimHeldBy_claimed: "ClaimHeldBy h nc \<Longrightarrow> ClaimRef (Status h) \<noteq> None"
  by (auto simp: ClaimHeldBy_def split: option.splits)

lemma sameClaim_iff [simp]: "sameClaim a b \<longleftrightarrow> a = b"
  by (auto simp: sameClaim_def split: option.splits)

lemma pool_reads_grow [grows_rules]:
  "grows (list_pool E sel)" "grows (getHost E nn)" "grows (All E sel)" "grows (Available_hosts E sel cls)"
  "grows (ByClaim E nc)" "grows (Claimed_hosts E)" "grows (ByProviderID E pid)"
  by (auto simp: list_pool_def All_def Available_hosts_def ByClaim_def Claimed_hosts_def ByProviderID_def call_defs
      intro!: guar_rules split: option.splits)

lemma list_pool_known:
  "rg (good at) (legal_event at) (list_pool E sel) (\<lambda>r. \<forall>hs. r = Inr hs \<longrightarrow> (\<forall>h \<in> set hs. known at h))"
  by (auto simp: list_pool_def call_defs intro!: guar_rules)

lemma Available_guar:
  "rg (good at) (legal_event at) (Available_hosts E sel cls)
    (\<lambda>r. \<forall>hs. r = Inr hs \<longrightarrow> (\<forall>h \<in> set hs. known at h \<and> claimable h))"
  unfolding Available_hosts_def
  by (rule rg_bind [OF list_pool_known]) (auto intro!: guar_rules)

lemma ByClaim_guar:
  "rg (good at) (legal_event at) (ByClaim E nc) (\<lambda>r. \<forall>h. r = Inr (Some h) \<longrightarrow> known at h \<and> ClaimHeldBy h nc)"
  unfolding ByClaim_def
  by (rule rg_bind [OF list_pool_known]) (auto intro!: guar_rules dest: find_SomeD)

lemma Claimed_guar:
  "rg (good at) (legal_event at) (Claimed_hosts E)
    (\<lambda>r. \<forall>hs. r = Inr hs \<longrightarrow> (\<forall>h \<in> set hs. known at h \<and> ClaimRef (Status h) \<noteq> None))"
  unfolding Claimed_hosts_def
  by (rule rg_bind [OF list_pool_known]) (auto intro!: guar_rules)

lemma getHost_known:
  "rg (good at) (legal_event at) (getHost E nn)
    (\<lambda>r. case r of Inl e \<Rightarrow> \<not> IsConflict e | Inr h \<Rightarrow> known at h \<and> (h_Namespace h, h_Name h) = nn)"
  by (auto simp: call_defs intro!: guar_rules split: sum.splits)

lemma getHost_known': "rg (good at) (legal_event at) (getHost E nn) (\<lambda>r. \<forall>h. r = Inr h \<longrightarrow> known at h)"
  by (rule guar_post [OF getHost_known]) (simp split: sum.splits)

lemma ByProviderID_guar:
  "rg (good at) (legal_event at) (ByProviderID E pid) (\<lambda>r. \<forall>h. r = Inr h \<longrightarrow> known at h)"
  unfolding ByProviderID_def
  by (auto intro!: guar_rules getHost_known' rg_bind [OF list_pool_known] split: option.splits dest!: find_SomeD)

subsection \<open>Writing status\<close>

lemma Claim_guar:
  assumes "tracks at c" and "claimable c"
  shows "rg (good at) (legal_event at) (Claim E c nc)
    (\<lambda>r. fst r = Inr True \<longrightarrow> known at (snd r) \<and> ClaimHeldBy (snd r) nc)"
proof -
  have leg: "legal (base at c) (claim_status nc (Status c))"
    using assms by (simp add: legal_def claimable_def host_inv_def claim_status_def tracks_def Let_def)
  then have upd: "rg (good at) (legal_event at) (updateHostStatus E (with_status (claim_status nc) c))
      (\<lambda>r. \<forall>h. r = Inr h \<longrightarrow> known at h \<and> Status h = claim_status nc (Status c))"
    unfolding call_defs by (intro guar_issue) (auto dest: written_known [OF _ legal_inv])
  show ?thesis
    unfolding Claim_def Let_def
    by (rule rg_bind [OF upd])
       (auto intro!: guar_rules simp: ClaimHeldBy_def claim_status_def split: if_splits)
qed

lemma casPatch_guar:
  assumes "legal (base at orig) (patched at orig new)"
  shows "rg (good at) (legal_event at) (casPatch E new orig)
    (on_result (\<lambda>h. known at h \<and> Status h = patched at orig new) (\<lambda>x h. h = new))"
proof -
  have patch: "rg (good at) (legal_event at) (patchHostStatus E orig new)
      (\<lambda>r. \<forall>h. r = Inr h \<longrightarrow> known at h \<and> Status h = patched at orig new)"
    unfolding call_defs using assms by (intro guar_issue) (auto dest: written_known [OF _ legal_inv])
  show ?thesis
    unfolding casPatch_def by (rule rg_bind [OF patch]) (auto intro!: guar_rules)
qed

lemma Release_guar:
  assumes "tracks at h" and "ClaimRef (Status h) \<noteq> None"
  shows "rg (good at) (legal_event at) (Release E h healthy reason) (\<lambda>_. True)"
proof -
  have "legal (base at h) (patched at h (with_status (release_status healthy reason) h))"
    unfolding with_status_def using assms(1)
    by (rule legal_release) (simp_all add: release_status_def Let_def)
  from casPatch_guar [OF this] show ?thesis
    unfolding Release_def by (rule guar_post) simp
qed

text \<open>Retrying keeps every guarantee and every property of the state that each attempt keeps.\<close>

lemma RetryOnConflict_calls:
  assumes "\<And>s. rg \<rho> \<phi> (fn s) (\<lambda>_. True)"
  shows "rg \<rho> \<phi> (RetryOnConflict n fn s) (\<lambda>_. True)"
proof (induction n arbitrary: s)
  case 0
  show ?case by (subst RetryOnConflict.simps) (auto intro!: guar_rules assms)
next
  case (Suc n)
  show ?case by (subst RetryOnConflict.simps) (auto intro!: guar_rules assms Suc.IH)
qed

lemma RetryOnConflict_guar:
  assumes body: "\<And>s. I s \<Longrightarrow> rg \<rho> \<phi> (fn s) (on_result J (\<lambda>x s'. K s' \<and> (IsConflict x \<longrightarrow> I s')))"
    and grow: "\<And>s. grows (fn s)" and "I s"
  shows "rg \<rho> \<phi> (RetryOnConflict n fn s) (on_result J (\<lambda>x. K))"
  using \<open>I s\<close>
proof (induction n arbitrary: s)
  case 0
  show ?case
    by (subst RetryOnConflict.simps, rule rg_bind_result [OF body [OF 0]]) (auto intro!: guar_rules)
next
  case (Suc n)
  show ?case
    by (subst RetryOnConflict.simps, rule rg_bind_result [OF body [OF Suc.prems]])
       (auto intro!: guar_rules Suc.IH RetryOnConflict_calls grow)
qed

lemma pool_writes_grow [grows_rules]:
  "grows (casPatch E new orig)" "grows (set_status_once E c f h)" "grows (setStatus E h f)" "grows (Claim E h nc)"
  "grows (Release E h ok reason)" "grows (MarkInUse E h)" "grows (SetInstalled E h m)"
  "grows (SetBootstrapTokenID E h t)" "grows (SetProviderID E h pid)"
proof -
  show p: "grows (casPatch E new orig)" for new orig
    by (auto simp: casPatch_def call_defs intro!: guar_rules)
  show o: "grows (set_status_once E c f h)" for c f h
    unfolding set_status_once_def by (intro guar_rules p pool_reads_grow) simp_all
  show s: "grows (setStatus E h f)" for h f
    unfolding setStatus_def by (rule RetryOnConflict_calls [OF o])
  show "grows (Claim E h nc)" by (auto simp: Claim_def Let_def call_defs intro!: guar_rules)
  show "grows (Release E h ok reason)" unfolding Release_def by (rule p)
  show "grows (MarkInUse E h)" "grows (SetInstalled E h m)" "grows (SetBootstrapTokenID E h t)" "grows (SetProviderID E h pid)"
    unfolding MarkInUse_def SetInstalled_def SetBootstrapTokenID_def SetProviderID_def by (rule s)+
qed

text \<open>What a narrow status write does under a held claim. A change is soft when it touches none of
  the lock fields; after a soft write the local copy still agrees with the server on them, whether
  the write succeeded or not.\<close>

definition soft :: "(SSHHostStatus \<Rightarrow> SSHHostStatus) \<Rightarrow> bool" where
  "soft f \<longleftrightarrow> (\<forall>s. ClaimRef (f s) = ClaimRef s \<and> State' (f s) = State' s \<and> ProviderID' (f s) = ProviderID' s \<and>
     HostKeyFingerprint (f s) = HostKeyFingerprint s)"

lemma soft_under_claim: "soft f \<Longrightarrow> under_claim f"
  by (simp add: soft_def under_claim_def)

lemma soft_tracks: "soft f \<Longrightarrow> tracks at h \<Longrightarrow> tracks at (with_status f h)"
  by (simp add: soft_def tracks_def Let_def)

lemma set_status_once_guar:
  assumes tr: "tracks at h" and claim: "ClaimRef (Status h) = Some c" and f: "under_claim f"
  shows "rg (good at) (legal_event at) (set_status_once E (Some c) f h)
    (on_result (\<lambda>h'. known at h' \<and> ClaimRef (Status h') = Some c)
       (\<lambda>x h'. (ClaimRef (Status h') = Some c \<and> (soft f \<longrightarrow> tracks at h')) \<and>
          (IsConflict x \<longrightarrow> tracks at h' \<and> ClaimRef (Status h') = Some c)))"
proof -
  have fc: "ClaimRef (f (Status h)) = Some c" using f claim by (simp add: under_claim_def)
  have patch: "rg (good at) (legal_event at) (casPatch E (with_status f h) h)
      (on_result (\<lambda>h'. known at h' \<and> ClaimRef (Status h') = Some c) (\<lambda>x h'. h' = with_status f h))"
    by (rule guar_post [OF casPatch_guar [OF legal_under_claim [OF tr _ f]]])
       (auto simp: claim fc patched_tracks [OF tr] elim: on_result_mono)
  show ?thesis
    unfolding set_status_once_def
    by (rule rg_bind_result [OF patch])
       (auto intro!: guar_rules rg_bind [OF getHost_known] pool_reads_grow simp: fc known_tracks soft_tracks [OF _ tr])
qed

lemma setStatus_guar:
  assumes "tracks at h" and "ClaimRef (Status h) \<noteq> None" and "under_claim f"
  shows "rg (good at) (legal_event at) (setStatus E h f)
    (on_result (\<lambda>h'. known at h' \<and> ClaimRef (Status h') = ClaimRef (Status h))
       (\<lambda>x h'. ClaimRef (Status h') = ClaimRef (Status h) \<and> (soft f \<longrightarrow> tracks at h')))"
proof -
  from assms(2) obtain c where c: "ClaimRef (Status h) = Some c" by blast
  show ?thesis
    unfolding setStatus_def c
    by (rule RetryOnConflict_guar [where I = "\<lambda>h'. tracks at h' \<and> ClaimRef (Status h') = Some c"],
        elim conjE, rule set_status_once_guar [OF _ _ assms(3)])
       (use assms c in \<open>simp_all add: pool_writes_grow\<close>)
qed

subsection \<open>The contract of the pool\<close>

text \<open>What a client of \<^verbatim>\<open>host.Provider\<close> relies on, for a class \<open>\<phi>\<close> of calls and a class \<open>\<rho>\<close> of
  answers: as long as the answers are in \<open>\<rho>\<close>, all calls of the pool are in \<open>\<phi>\<close>; \<open>tracked\<close> objects are the ones that may be
  passed on to the next operation.\<close>

locale pool_contract =
  fixes P :: host_provider and \<rho> :: "event \<Rightarrow> bool" and tracked :: "SSHHost \<Rightarrow> bool" and \<phi> :: "event \<Rightarrow> bool"
  assumes All_law: "rg \<rho> \<phi> (hp_All P sel) (\<lambda>_. True)"
    and Available_law: "rg \<rho> \<phi> (hp_Available P sel cls)
      (\<lambda>r. \<forall>hs. r = Inr hs \<longrightarrow> (\<forall>h \<in> set hs. tracked h \<and> claimable h))"
    and Claim_law: "tracked c \<Longrightarrow> claimable c \<Longrightarrow> rg \<rho> \<phi> (hp_Claim P c nc)
      (\<lambda>r. fst r = Inr True \<longrightarrow> tracked (snd r) \<and> ClaimHeldBy (snd r) nc)"
    and Release_law: "tracked h \<Longrightarrow> ClaimRef (Status h) \<noteq> None \<Longrightarrow>
      rg \<rho> \<phi> (hp_Release P h healthy reason) (\<lambda>_. True)"
    and MarkInUse_law: "tracked h \<Longrightarrow> ClaimRef (Status h) \<noteq> None \<Longrightarrow> rg \<rho> \<phi> (hp_MarkInUse P h) (\<lambda>_. True)"
    and SetInstalled_law: "tracked h \<Longrightarrow> ClaimRef (Status h) \<noteq> None \<Longrightarrow> rg \<rho> \<phi> (hp_SetInstalled P h marker)
      (\<lambda>r. tracked (snd r) \<and> ClaimRef (Status (snd r)) = ClaimRef (Status h))"
    and SetBootstrapTokenID_law: "tracked h \<Longrightarrow> ClaimRef (Status h) \<noteq> None \<Longrightarrow>
      rg \<rho> \<phi> (hp_SetBootstrapTokenID P h tid)
      (\<lambda>r. tracked (snd r) \<and> ClaimRef (Status (snd r)) = ClaimRef (Status h))"
    and SetProviderID_law: "tracked h \<Longrightarrow> ClaimRef (Status h) \<noteq> None \<Longrightarrow> rg \<rho> \<phi> (hp_SetProviderID P h pid)
      (\<lambda>r. fst r = None \<longrightarrow> tracked (snd r) \<and> ClaimRef (Status (snd r)) = ClaimRef (Status h))"
    and ByProviderID_law: "rg \<rho> \<phi> (hp_ByProviderID P pid) (\<lambda>r. \<forall>h. r = Inr h \<longrightarrow> tracked h)"
    and ByClaim_law: "rg \<rho> \<phi> (hp_ByClaim P nc) (\<lambda>r. \<forall>h. r = Inr (Some h) \<longrightarrow> tracked h \<and> ClaimHeldBy h nc)"
    and Claimed_law: "rg \<rho> \<phi> (hp_Claimed P) (\<lambda>r. \<forall>hs. r = Inr hs \<longrightarrow> (\<forall>h \<in> set hs. ClaimRef (Status h) \<noteq> None))"
    and pool_grows: "grows (hp_All P sel)" "grows (hp_Available P sel cls)" "grows (hp_Claim P c nc)"
      "grows (hp_Release P h healthy reason)" "grows (hp_MarkInUse P h)" "grows (hp_SetInstalled P h marker)"
      "grows (hp_SetBootstrapTokenID P h tid)" "grows (hp_SetProviderID P h pid)" "grows (hp_ByProviderID P pid)"
      "grows (hp_ByClaim P nc)" "grows (hp_Claimed P)"

lemma default_sel [simp]:
  "hp_Available (DefaultHostProvider E) = Available_hosts E" "hp_All (DefaultHostProvider E) = All E"
  "hp_Claim (DefaultHostProvider E) = Claim E" "hp_Release (DefaultHostProvider E) = Release E"
  "hp_MarkInUse (DefaultHostProvider E) = MarkInUse E" "hp_SetInstalled (DefaultHostProvider E) = SetInstalled E"
  "hp_ByProviderID (DefaultHostProvider E) = ByProviderID E"
  "hp_SetProviderID (DefaultHostProvider E) = SetProviderID E"
  "hp_SetBootstrapTokenID (DefaultHostProvider E) = SetBootstrapTokenID E"
  "hp_ByClaim (DefaultHostProvider E) = ByClaim E" "hp_Claimed (DefaultHostProvider E) = Claimed_hosts E"
  by (simp_all add: DefaultHostProvider_def)

lemma on_result_snd: "on_result J K r \<Longrightarrow> (\<And>s. J s \<Longrightarrow> Q s) \<Longrightarrow> (\<And>x s. K x s \<Longrightarrow> Q s) \<Longrightarrow> Q (snd r)"
  by (cases r; cases "fst r") auto

lemma on_result_ok: "on_result J K r \<Longrightarrow> fst r = None \<Longrightarrow> J (snd r)"
  by (cases r) auto

text \<open>The default pool keeps the rules of the state machine.\<close>

interpretation pool: pool_contract "DefaultHostProvider E" "good at" "tracks at" "legal_event at" for at E
proof
  show "rg (good at) (legal_event at) (hp_All (DefaultHostProvider E) sel) (\<lambda>_. True)" for sel
    by (simp add: All_def guar_post [OF list_pool_known])
  show "rg (good at) (legal_event at) (hp_Available (DefaultHostProvider E) sel cls)
      (\<lambda>r. \<forall>hs. r = Inr hs \<longrightarrow> (\<forall>h \<in> set hs. tracks at h \<and> claimable h))" for sel cls
    using guar_post [OF Available_guar] known_tracks by simp
  show "rg (good at) (legal_event at) (hp_ByProviderID (DefaultHostProvider E) pid)
      (\<lambda>r. \<forall>h. r = Inr h \<longrightarrow> tracks at h)" for pid
    using guar_post [OF ByProviderID_guar] known_tracks by simp
  show "rg (good at) (legal_event at) (hp_ByClaim (DefaultHostProvider E) nc)
      (\<lambda>r. \<forall>h. r = Inr (Some h) \<longrightarrow> tracks at h \<and> ClaimHeldBy h nc)" for nc
    using guar_post [OF ByClaim_guar] known_tracks by simp
  show "rg (good at) (legal_event at) (hp_Claimed (DefaultHostProvider E))
      (\<lambda>r. \<forall>hs. r = Inr hs \<longrightarrow> (\<forall>h \<in> set hs. ClaimRef (Status h) \<noteq> None))"
    using guar_post [OF Claimed_guar] by simp
next
  fix c nc
  assume "tracks at c" and "claimable c"
  then show "rg (good at) (legal_event at) (hp_Claim (DefaultHostProvider E) c nc)
      (\<lambda>r. fst r = Inr True \<longrightarrow> tracks at (snd r) \<and> ClaimHeldBy (snd r) nc)"
    using guar_post [OF Claim_guar] known_tracks by simp
next
  fix h
  assume h: "tracks at h" "ClaimRef (Status h) \<noteq> None"
  note sets = setStatus_guar [OF h]
  show "rg (good at) (legal_event at) (hp_Release (DefaultHostProvider E) h healthy reason) (\<lambda>_. True)" for healthy reason
    using Release_guar [OF h] by simp
  show "rg (good at) (legal_event at) (hp_MarkInUse (DefaultHostProvider E) h) (\<lambda>_. True)"
    by (simp add: MarkInUse_def guar_post [OF sets] under_claim_def)
  show "rg (good at) (legal_event at) (hp_SetInstalled (DefaultHostProvider E) h marker)
      (\<lambda>r. tracks at (snd r) \<and> ClaimRef (Status (snd r)) = ClaimRef (Status h))" for marker
    unfolding default_sel SetInstalled_def
    by (rule guar_post [OF sets]) (auto simp: under_claim_def soft_def known_tracks elim!: on_result_snd)
  show "rg (good at) (legal_event at) (hp_SetBootstrapTokenID (DefaultHostProvider E) h tid)
      (\<lambda>r. tracks at (snd r) \<and> ClaimRef (Status (snd r)) = ClaimRef (Status h))" for tid
    unfolding default_sel SetBootstrapTokenID_def
    by (rule guar_post [OF sets]) (auto simp: under_claim_def soft_def known_tracks elim!: on_result_snd)
  show "rg (good at) (legal_event at) (hp_SetProviderID (DefaultHostProvider E) h pid)
      (\<lambda>r. fst r = None \<longrightarrow> tracks at (snd r) \<and> ClaimRef (Status (snd r)) = ClaimRef (Status h))" for pid
    unfolding default_sel SetProviderID_def
    by (rule guar_post [OF sets]) (auto simp: under_claim_def known_tracks dest: on_result_ok)
qed (simp_all add: pool_reads_grow pool_writes_grow)

subsection \<open>Candidates\<close>

text \<open>\<^bold>\<open>Which hosts are offered for a claim.\<close> \<^verbatim>\<open>Available\<close> returns exactly the listed hosts
  that are Available, unclaimed, not annotated for maintenance and of the wanted class, each once,
  oldest first and by name among equally old ones.\<close>

theorem Available_spec:
  assumes "run_state (Available_hosts E sel cls) w = (Inr out, w')"
  shows "\<exists>hs. w' = ListHosts (w_PoolNamespace E) sel (Inr hs) # w \<and>
    mset out = filter_mset (\<lambda>h. State' (Status h) = Available \<and> ClaimRef (Status h) = None \<and>
      MaintenanceAnnotation \<notin> fst ` set (h_Annotations h) \<and> (cls = '''' \<or> HostClass h = cls)) (mset hs) \<and>
    sorted (map (\<lambda>h. (h_CreationTimestamp h, h_Name h)) out)"
proof -
  from assms obtain hs where "w' = ListHosts (w_PoolNamespace E) sel (Inr hs) # w"
    and out: "out = sort_key age_key (filter (\<lambda>h. claimable h \<and> in_class cls h) hs)"
    by (auto simp: Available_hosts_def list_pool_def call_defs split: option.splits sum.splits)
  moreover have "mset out = filter_mset (\<lambda>h. claimable h \<and> in_class cls h) (mset hs)"
    by (simp add: out)
  moreover have "sorted (map age_key out)" unfolding out by simp
  ultimately show ?thesis
    by (auto simp: claimable_def in_class_def age_key_def [abs_def] map_of_eq_None_iff conj_assoc)
qed

theorem Available_spec_witness:
  "\<exists>w'. run_state (Available_hosts (one_host_world sample_host) None ''default'') [] = (Inr [sample_host], w') \<and>
     sorted (map (\<lambda>h. (h_CreationTimestamp h, h_Name h)) [sample_host])"
proof -
  have run: "run_state (Available_hosts (one_host_world sample_host) None ''default'') [] =
      (Inr [sample_host], [ListHosts ''kpssh-system'' None (Inr [sample_host])])"
    by (simp add: Available_hosts_def list_pool_def call_defs one_host_world_def dead_world_def claimable_def
        in_class_def HostClass_def DefaultHostClass_def sample_host_def sample_status_def)
  from Available_spec [OF run] have "sorted (map (\<lambda>h. (h_CreationTimestamp h, h_Name h)) [sample_host])" by blast
  with run show ?thesis by blast
qed

subsection \<open>Provider ids\<close>

definition render_id :: "nsname \<Rightarrow> string" where
  "render_id p = ProviderPrefix @ fst p @ ''/'' @ snd p"

definition parse_id :: "string \<Rightarrow> nsname option" where
  "parse_id s = (case CutPrefix s ProviderPrefix of
       None \<Rightarrow> None
     | Some rest \<Rightarrow> (case SplitN2 CHR ''/'' rest of [ns, name] \<Rightarrow> Some (ns, name) | _ \<Rightarrow> None))"

lemma ProviderID_render: "ProviderID h = render_id (h_Namespace h, h_Name h)"
  by (simp add: ProviderID_def render_id_def)

interpretation provider_id: codec render_id parse_id "\<lambda>p. CHR ''/'' \<notin> set (fst p)"
  by unfold_locales (auto simp: render_id_def parse_id_def SplitN2_def)

lemma parse_id_Some: "parse_id s = Some p \<Longrightarrow> s = render_id p"
  by (auto simp: parse_id_def render_id_def SplitN2_def CutPrefix_Some dest!: Cut_SomeD
      split: option.splits list.splits prod.splits)

lemma ByProviderID_parsed: "pid \<noteq> '''' \<Longrightarrow> parse_id pid = Some p \<Longrightarrow> ByProviderID E pid = getHost E p"
  by (auto simp: parse_id_def ByProviderID_def split: option.splits list.splits)

text \<open>\<^bold>\<open>What a provider id resolves to.\<close> An empty id never resolves. An id of the form
  \<^verbatim>\<open>kpssh://namespace/name\<close> resolves only to the host with that rendered id, any other id only to a
  listed host that records it as adopted.\<close>

theorem ByProviderID_sound:
  assumes "by_name E" and "run_state (ByProviderID E pid) w = (Inr h, w')"
  shows "pid \<noteq> '''' \<and> (if HasPrefix pid ProviderPrefix then ProviderID h = pid else ProviderID' (Status h) = pid)"
proof (cases "CutPrefix pid ProviderPrefix")
  case None
  then have "\<not> HasPrefix pid ProviderPrefix" by (simp add: CutPrefix_def split: if_splits)
  with None assms(2) show ?thesis
    by (auto simp: ByProviderID_def list_pool_def call_defs split: if_splits sum.splits option.splits dest!: find_SomeD)
next
  case (Some rest)
  then have pre: "HasPrefix pid ProviderPrefix" by (auto simp: CutPrefix_Some prefix_def)
  from Some have ne: "pid \<noteq> ''''" by (auto simp: CutPrefix_Some ProviderPrefix_def)
  show ?thesis
  proof (cases "parse_id pid")
    case None
    with Some ne assms(2) show ?thesis
      by (auto simp: ByProviderID_def parse_id_def split: list.splits)
  next
    case (Some p)
    with ne assms(2) have "w_GetHost E w (fst p, snd p) = Inr h"
      by (simp add: ByProviderID_parsed call_defs)
    with assms(1) have "(h_Namespace h, h_Name h) = p" unfolding by_name_def by (metis prod.collapse)
    with parse_id_Some [OF Some] pre ne show ?thesis by (simp add: ProviderID_render)
  qed
qed

theorem ByProviderID_sound_witness:
  "\<exists>w'. run_state (ByProviderID (one_host_world sample_host) ''kpssh://kpssh-system/metal-1'') [] =
     (Inr sample_host, w') \<and> ProviderID sample_host = ''kpssh://kpssh-system/metal-1''"
proof -
  let ?E = "one_host_world sample_host" and ?id = "''kpssh://kpssh-system/metal-1''"
  have run: "run_state (ByProviderID ?E ?id) [] =
      (Inr sample_host, [GetHost (''kpssh-system'', ''metal-1'') (Inr sample_host)])"
    by (simp add: ByProviderID_def ProviderPrefix_def CutPrefix_def SplitN2_def call_defs
        one_host_world_def sample_host_def)
  have "HasPrefix ?id ProviderPrefix" by (simp add: ProviderPrefix_def)
  with ByProviderID_sound [OF by_name_one_host run] have "ProviderID sample_host = ?id" by simp
  with run show ?thesis by blast
qed

text \<open>\<^bold>\<open>A host's own id leads back to it.\<close> For a namespace without a slash (Kubernetes names
  have none), resolving the rendered id is reading exactly that object.\<close>

theorem ByProviderID_own:
  assumes "CHR ''/'' \<notin> set (h_Namespace h)"
  shows "ByProviderID E (ProviderID h) = getHost E (h_Namespace h, h_Name h)"
proof -
  have "parse_id (ProviderID h) = Some (h_Namespace h, h_Name h)"
    unfolding ProviderID_render using assms by (intro provider_id.dec_enc) simp
  moreover have "ProviderID h \<noteq> ''''" by (simp add: ProviderID_def ProviderPrefix_def)
  ultimately show ?thesis by (rule ByProviderID_parsed [rotated])
qed

theorem ByProviderID_own_witness:
  "ByProviderID dead_world (ProviderID sample_host) = getHost dead_world (''kpssh-system'', ''metal-1'')"
  using ByProviderID_own [of sample_host dead_world] by (simp add: sample_host_def)

subsection \<open>Fenced writes\<close>

text \<open>The calls of a narrow write issued under the claim \<open>c\<close>: it reads the host, and it patches only
  copies that carry that claim, by exactly its own change.\<close>

fun fenced_event :: "ClaimReference option \<Rightarrow> (SSHHostStatus \<Rightarrow> SSHHostStatus) \<Rightarrow> event \<Rightarrow> bool" where
  "fenced_event c f (PatchHostStatus orig new r) \<longleftrightarrow> ClaimRef (Status orig) = c \<and> new = with_status f orig"
| "fenced_event c f (GetHost nn r) \<longleftrightarrow> True"
| "fenced_event c f _ \<longleftrightarrow> False"

lemma set_status_once_fenced:
  assumes "ClaimRef (Status h) = c" and "\<And>s. ClaimRef (f s) = ClaimRef s"
  shows "guar (fenced_event c f) (set_status_once E c f h)
    (on_result (\<lambda>_. True) (\<lambda>x h'. True \<and> (IsConflict x \<longrightarrow> ClaimRef (Status h') = c)))"
proof -
  have patch: "guar (fenced_event c f) (casPatch E (with_status f h) h)
      (on_result (\<lambda>_. True) (\<lambda>x h'. h' = with_status f h))"
    unfolding casPatch_def call_defs using assms by (auto intro!: guar_rules)
  show ?thesis
    unfolding set_status_once_def
    by (rule rg_bind_result [OF patch]) (use assms in \<open>auto intro!: guar_rules simp: call_defs\<close>)
qed

text \<open>C39. \<^bold>\<open>Narrow status writes are fenced by the claim.\<close> \<^verbatim>\<open>SetProviderID\<close>, \<^verbatim>\<open>SetInstalled\<close>,
  \<^verbatim>\<open>SetBootstrapTokenID\<close> and \<^verbatim>\<open>MarkInUse\<close> retry lost races on fresh reads, but patch only copies
  that still carry the claim they were issued under, and change only their own field, whatever the
  API server and the other writers do.\<close>

theorem narrow_writes_fenced:
  "guar (fenced_event (ClaimRef (Status h)) (\<lambda>s. s\<lparr>ProviderID' := v\<rparr>)) (SetProviderID E h v) (\<lambda>_. True) \<and>
   guar (fenced_event (ClaimRef (Status h)) (\<lambda>s. s\<lparr>InstalledProfile := v\<rparr>)) (SetInstalled E h v) (\<lambda>_. True) \<and>
   guar (fenced_event (ClaimRef (Status h)) (\<lambda>s. s\<lparr>BootstrapTokenID := v\<rparr>)) (SetBootstrapTokenID E h v) (\<lambda>_. True) \<and>
   guar (fenced_event (ClaimRef (Status h)) (\<lambda>s. s\<lparr>State' := InUse\<rparr>)) (MarkInUse E h) (\<lambda>_. True)"
proof -
  have "guar (fenced_event (ClaimRef (Status h)) f) (setStatus E h f) (\<lambda>_. True)"
    if "\<And>s. ClaimRef (f s) = ClaimRef s" for f
    unfolding setStatus_def
    by (rule guar_post [OF RetryOnConflict_guar [where I = "\<lambda>h'. ClaimRef (Status h') = ClaimRef (Status h)"]])
       (rule set_status_once_fenced, use that in \<open>simp_all add: pool_writes_grow\<close>)
  then show ?thesis
    unfolding SetProviderID_def SetInstalled_def SetBootstrapTokenID_def MarkInUse_def by simp
qed

end
