(* ===== verification/Bootstrap.thy ===== *)
theory Bootstrap
  imports Environment
begin

section \<open>Bootstrap tokens and cluster discovery: pkg/providers/bootstrap/bootstrap.go\<close>

text \<open>
  The token generator, the kubeconfig parser and the name of a token's Secret are library
  functions, so parameters of the world. \<open>bootstrap_provider\<close> is the Go interface
  \<^verbatim>\<open>bootstrap.Provider\<close>; the locale \<open>bootstrap_contract\<close> states what its clients rely on.
\<close>

definition BootstrapGroup :: string where
  "BootstrapGroup = ''system:bootstrappers:kpssh''"

record ClusterInfo =
  Endpoint' :: string
  CACertB64 :: string

record bootstrap_provider =
  bp_CreateToken :: "time \<Rightarrow> string \<Rightarrow> (err + string) io"
  bp_DeleteToken :: "string \<Rightarrow> err option io"
  bp_DeleteTokenByID :: "string \<Rightarrow> err option io"
  bp_ClusterInfo :: "SSHNodeClass \<Rightarrow> (err + ClusterInfo) io"

definition TokenID :: "string \<Rightarrow> string" where
  "TokenID token = (case Cut CHR ''.'' token of None \<Rightarrow> token | Some (i, _) \<Rightarrow> i)"

definition NamespaceSystem :: string where
  "NamespaceSystem = ''kube-system''"

definition token_secret :: "world \<Rightarrow> string \<Rightarrow> string \<Rightarrow> time \<Rightarrow> string \<Rightarrow> secret_object" where
  "token_secret E tokenID tokenSecret expires description =
     \<lparr>so_Name = w_TokenSecretName E tokenID, so_Namespace = NamespaceSystem,
      so_Type = ''bootstrap.kubernetes.io/token'',
      so_StringData = [(''token-id'', tokenID), (''token-secret'', tokenSecret),
        (''usage-bootstrap-authentication'', ''true''), (''usage-bootstrap-signing'', ''true''),
        (''auth-extra-groups'', BootstrapGroup), (''expiration'', w_FormatTime E expires),
        (''description'', description)]\<rparr>"

definition CreateToken :: "world \<Rightarrow> time \<Rightarrow> string \<Rightarrow> (err + string) io" where
  "CreateToken E ttl description = do {
     g \<leftarrow> generateToken E;
     case g of
       Inl e \<Rightarrow> ret (Inl (Wrapf ''generating bootstrap token: '' e))
     | Inr token \<Rightarrow>
         (case Cut CHR ''.'' token of
            None \<Rightarrow> ret (Inl (Errorf ''generated bootstrap token has unexpected format''))
          | Some (tokenID, tokenSecret) \<Rightarrow> do {
              t \<leftarrow> now E;
              e \<leftarrow> createSecret E (token_secret E tokenID tokenSecret (t + ttl) description);
              case e of
                Some x \<Rightarrow> ret (Inl (Wrapf ''creating bootstrap token secret: '' x))
              | None \<Rightarrow> ret (Inr token) }) }"

definition DeleteTokenByID :: "world \<Rightarrow> string \<Rightarrow> err option io" where
  "DeleteTokenByID E tokenID =
     (if tokenID = '''' then ret (Some (Errorf ''empty bootstrap token id''))
      else do {
        e \<leftarrow> deleteSecret E NamespaceSystem (w_TokenSecretName E tokenID);
        case e of
          None \<Rightarrow> ret None
        | Some x \<Rightarrow> if IsNotFound x then ret None else ret (Some x) })"

definition DeleteToken :: "world \<Rightarrow> string \<Rightarrow> err option io" where
  "DeleteToken E token =
     (case Cut CHR ''.'' token of
        None \<Rightarrow> ret (Some (Errorf ''malformed bootstrap token''))
      | Some (tokenID, _) \<Rightarrow> DeleteTokenByID E tokenID)"

text \<open>\<open>w_LoadKubeconfig\<close> returns the clusters of a kubeconfig as (name, server, CA data).\<close>

definition GetClusterInfo :: "world \<Rightarrow> SSHNodeClass \<Rightarrow> (err + ClusterInfo) io" where
  "GetClusterInfo E nodeClass =
     (let discover = do {
        r \<leftarrow> getConfigMap E ''kube-public'' ''cluster-info'';
        case r of
          Inl e \<Rightarrow> ret (Inl (Wrapf (''reading kube-public/cluster-info (set nodeClass.spec.cluster to override): '') e))
        | Inr cm \<Rightarrow>
            (case map_of cm ''kubeconfig'' of
               None \<Rightarrow> ret (Inl (Errorf ''cluster-info has no kubeconfig key''))
             | Some kubeconfig \<Rightarrow>
                 (case w_LoadKubeconfig E kubeconfig of
                    Inl e \<Rightarrow> ret (Inl (Wrapf ''parsing cluster-info kubeconfig: '' e))
                  | Inr clusters \<Rightarrow>
                      (case sort_key fst clusters of
                         [] \<Rightarrow> ret (Inl (Errorf ''cluster-info kubeconfig has no clusters''))
                       | (_, server, ca) # _ \<Rightarrow>
                           ret (Inr \<lparr>Endpoint' = server, CACertB64 = b64_encode ca\<rparr>)))) }
      in case Cluster (ncl_Spec nodeClass) of
           Some c \<Rightarrow> if Endpoint c \<noteq> '''' then ret (Inr \<lparr>Endpoint' = Endpoint c, CACertB64 = b64_encode (CABundle c)\<rparr>)
                     else discover
         | None \<Rightarrow> discover)"

definition DefaultBootstrapProvider :: "world \<Rightarrow> bootstrap_provider" where
  "DefaultBootstrapProvider E = \<lparr>bp_CreateToken = CreateToken E, bp_DeleteToken = DeleteToken E,
     bp_DeleteTokenByID = DeleteTokenByID E, bp_ClusterInfo = GetClusterInfo E\<rparr>"

lemma default_bootstrap_sel [simp]:
  "bp_CreateToken (DefaultBootstrapProvider E) = CreateToken E"
  "bp_DeleteToken (DefaultBootstrapProvider E) = DeleteToken E"
  "bp_DeleteTokenByID (DefaultBootstrapProvider E) = DeleteTokenByID E"
  "bp_ClusterInfo (DefaultBootstrapProvider E) = GetClusterInfo E"
  by (simp_all add: DefaultBootstrapProvider_def)

subsection \<open>Contract\<close>

text \<open>The calls of the provider lie in \<open>\<psi>\<close>, and a minted token has an id part.\<close>

locale bootstrap_contract =
  fixes B :: bootstrap_provider and \<psi> :: "event \<Rightarrow> bool"
  assumes CreateToken_law: "guar \<psi> (bp_CreateToken B ttl d) (\<lambda>r. \<forall>t. r = Inr t \<longrightarrow> CHR ''.'' \<in> set t)"
    and DeleteToken_law: "guar \<psi> (bp_DeleteToken B t) (\<lambda>_. True)"
    and DeleteTokenByID_law: "guar \<psi> (bp_DeleteTokenByID B i) (\<lambda>_. True)"
    and ClusterInfo_law: "guar \<psi> (bp_ClusterInfo B c) (\<lambda>_. True)"

fun token_event :: "event \<Rightarrow> bool" where
  "token_event (GenerateToken _) = True"
| "token_event (CreateSecret s _) \<longleftrightarrow> so_Namespace s = NamespaceSystem"
| "token_event (DeleteSecret ns _ _) \<longleftrightarrow> ns = NamespaceSystem"
| "token_event (GetConfigMap _ _ _) = True"
| "token_event (Clock _) = True"
| "token_event _ = False"

lemma DeleteTokenByID_calls: "guar token_event (DeleteTokenByID E i) (\<lambda>_. True)"
  by (auto simp: DeleteTokenByID_def call_defs intro!: guar_rules)

interpretation tokens: bootstrap_contract "DefaultBootstrapProvider E" token_event for E
proof
  show "guar token_event (bp_CreateToken (DefaultBootstrapProvider E) ttl d) (\<lambda>r. \<forall>t. r = Inr t \<longrightarrow> CHR ''.'' \<in> set t)" for ttl d
    by (auto simp: CreateToken_def call_defs token_secret_def dest!: Cut_SomeD intro!: guar_rules)
  show "guar token_event (bp_DeleteToken (DefaultBootstrapProvider E) t) (\<lambda>_. True)" for t
    by (auto simp: DeleteToken_def DeleteTokenByID_calls intro!: guar_rules)
  show "guar token_event (bp_DeleteTokenByID (DefaultBootstrapProvider E) i) (\<lambda>_. True)" for i
    by (simp add: DeleteTokenByID_calls)
  show "guar token_event (bp_ClusterInfo (DefaultBootstrapProvider E) c) (\<lambda>_. True)" for c
    by (auto simp: GetClusterInfo_def call_defs Let_def intro!: guar_rules)
qed

end
