(* ===== verification/Phases.thy ===== *)
theory Phases
  imports Environment
begin

section \<open>Running profile phases: pkg/providers/instance/leave.go and the phase runners of instance.go\<close>

text \<open>
  Credentials and targets, the two ways of running a phase (Raw and Verified), and the phases that
  run with the host alone (leave, reboot). The theorems: a connection is always pinned to the key
  the operator provided or, without one, to the key recorded on the host; a host in Verified mode
  never gets a raw script, and what its shim gets is the profile's own signed, template-free script,
  whose signature the controller has checked against the host's trusted signers.
\<close>

definition second :: time where "second = 10 ^ 9"

definition hostLeaveTimeout :: time where "hostLeaveTimeout = 180 * second"
definition hostRebootTimeout :: time where "hostRebootTimeout = 60 * second"
definition SSHKeySecretKey :: string where "SSHKeySecretKey = ''privateKey''"
definition KnownHostSecretKey :: string where "KnownHostSecretKey = ''knownHost''"

record SSHCredentials =
  cr_PrivateKey :: string
  cr_PinnedHostKey :: string

definition EffectivePin :: "SSHCredentials \<Rightarrow> SSHHost \<Rightarrow> string" where
  "EffectivePin c h = (if cr_PinnedHostKey c \<noteq> '''' then cr_PinnedHostKey c else HostKeyFingerprint (Status h))"

definition SSHTarget :: "SSHHost \<Rightarrow> SSHCredentials \<Rightarrow> Target" where
  "SSHTarget h creds = \<lparr>t_Address = Address (Spec h), t_Port = Port (Spec h), t_User = User (Spec h),
     PrivateKey = cr_PrivateKey creds, PinnedHostKey = EffectivePin creds h, ShimCommand = ''''\<rparr>"

definition secret_name :: "SSHHost \<Rightarrow> string" where
  "secret_name h = ''secret '' @ h_Namespace h @ ''/'' @ SSHKeySecretRef (Spec h)"

definition ReadSSHCredentials :: "world \<Rightarrow> SSHHost \<Rightarrow> (err + SSHCredentials) io" where
  "ReadSSHCredentials E h = do {
     r \<leftarrow> getSecret E (h_Namespace h) (SSHKeySecretRef (Spec h));
     case r of
       Inl e \<Rightarrow> ret (Inl (Wrapf ''getting ssh key secret: '' e))
     | Inr data \<Rightarrow>
         (case map_of data SSHKeySecretKey of
            None \<Rightarrow> ret (Inl (Errorf (secret_name h @ '' has no '' @ Quote SSHKeySecretKey)))
          | Some key \<Rightarrow>
              (case map_of data KnownHostSecretKey of
                 None \<Rightarrow> ret (Inr \<lparr>cr_PrivateKey = key, cr_PinnedHostKey = ''''\<rparr>)
               | Some kh \<Rightarrow>
                   (case PinnedFingerprintFromKnownHost (w_Ssh E) kh of
                      Inl e \<Rightarrow> ret (Inl (Wrapf (secret_name h @ '' '' @ Quote KnownHostSecretKey @ '': '') e))
                    | Inr fp \<Rightarrow> ret (Inr \<lparr>cr_PrivateKey = key, cr_PinnedHostKey = fp\<rparr>)))) }"

definition sshTarget :: "world \<Rightarrow> SSHHost \<Rightarrow> (err + Target) io" where
  "sshTarget E h = do {
     r \<leftarrow> ReadSSHCredentials E h;
     case r of Inl e \<Rightarrow> ret (Inl e) | Inr creds \<Rightarrow> ret (Inr (SSHTarget h creds)) }"

text \<open>The error half of a runner's \<^verbatim>\<open>(*Result, error)\<close>.\<close>

definition error_of :: "err + 'a \<Rightarrow> err option" where
  "error_of r = (case r of Inl e \<Rightarrow> Some e | Inr _ \<Rightarrow> None)"

text \<open>The checks of \<^verbatim>\<open>runVerifiedPhase\<close> before it connects.\<close>

definition verified_check :: "world \<Rightarrow> SSHHost \<Rightarrow> SSHJoinProfile \<Rightarrow> string \<Rightarrow> err option" where
  "verified_check E h prof phase =
     (let raw = Script prof phase; sig = Signature prof phase in
      if raw = '''' then Some (ConfigError (Errorf (''profile '' @ p_Name prof @ '' has no '' @ phase @ '' script'')))
      else if HasTemplateActions raw then
        Some (ConfigError (Errorf (''verified exec requires template-free scripts; profile '' @ p_Name prof @ '' '' @
          phase @ '' uses Go template actions'')))
      else if sig = '''' then
        Some (ConfigError (Errorf (''verified host '' @ h_Name h @ '': profile '' @ p_Name prof @
          '' has no signature for phase '' @ phase)))
      else if TrustedSigners (Spec h) \<noteq> [] then
        (case ParseTrustedSigners (w_Ssh E) (TrustedSigners (Spec h)) of
           Inl e \<Rightarrow> Some (ConfigError (Wrapf (''host '' @ h_Name h @ '' trustedSigners: '') e))
         | Inr signers \<Rightarrow>
             (case VerifySSHSIG (w_Ssh E) raw sig (map Some signers) DefaultSignNamespace of
                Some e \<Rightarrow> Some (ConfigError (Wrapf (''controller-side signature check for profile '' @ p_Name prof @
                  '' '' @ phase @ '': '') e))
              | None \<Rightarrow> None))
      else None)"

definition runVerifiedPhase ::
  "world \<Rightarrow> time \<Rightarrow> Target \<Rightarrow> SSHHost \<Rightarrow> SSHJoinProfile \<Rightarrow> string \<Rightarrow> (string \<times> string) list \<Rightarrow> err option io" where
  "runVerifiedPhase E d target h prof phase env =
     (case verified_check E h prof phase of
        Some e \<Rightarrow> ret (Some e)
      | None \<Rightarrow> do {
          r \<leftarrow> execShim E d (target\<lparr>ShimCommand := spec_ShimCommand (Spec h)\<rparr>)
            \<lparr>Phase = phase, e_Script = Script prof phase, Sig = Signature prof phase, Params = env\<rparr>;
          ret (error_of r) })"

definition runPhase ::
  "world \<Rightarrow> time \<Rightarrow> Target \<Rightarrow> SSHHost \<Rightarrow> SSHJoinProfile \<Rightarrow> string \<Rightarrow> Context \<Rightarrow> (string \<times> string) list \<Rightarrow> err option io" where
  "runPhase E d target h prof phase pctx env =
     (if spec_ExecMode (Spec h) = Verified then runVerifiedPhase E d target h prof phase env
      else case Render (w_Templates E) prof phase pctx of
          Inl e \<Rightarrow> ret (Some (ConfigError e))
        | Inr script \<Rightarrow> do { r \<leftarrow> exec E d target script env; ret (error_of r) })"

definition bare_context :: "SSHHost \<Rightarrow> Context" where
  "bare_context h = empty_context\<lparr>HostAddress := Address (Spec h), ctx_NodeAddress := NodeIP (Spec h)\<rparr>"

definition runInstalledPhase :: "world \<Rightarrow> SSHHost \<Rightarrow> string \<Rightarrow> time \<Rightarrow> err option io" where
  "runInstalledPhase E h phase def =
     (if InstalledProfile (Status h) = '''' then
        ret (Some (ConfigError (Errorf (''host '' @ h_Name h @ '' has no installed profile to '' @ phase @ '' with''))))
      else
        let profName = hd (SplitN2 CHR ''@'' (InstalledProfile (Status h))) in do {
          p \<leftarrow> getProfile E profName;
          case p of
            Inl e \<Rightarrow> ret (Some (Wrapf (''getting profile '' @ profName @ '': '') e))
          | Inr prof \<Rightarrow>
              if Script prof phase = '''' then
                ret (Some (ConfigError (Errorf (''profile '' @ profName @ '' has no '' @ phase @ '' script''))))
              else do {
                c \<leftarrow> ReadSSHCredentials E h;
                case c of
                  Inl e \<Rightarrow> ret (Some e)
                | Inr creds \<Rightarrow>
                    (case Env (bare_context h) of
                       Inl e \<Rightarrow> ret (Some e)
                     | Inr env \<Rightarrow> do {
                         e \<leftarrow> runPhase E (Timeout prof phase def) (SSHTarget h creds) h prof phase (bare_context h) env;
                         ObservePhase phase e;
                         ret (map_option (Wrapf (phase @ '' phase: '')) e) }) } })"

definition LeaveHost :: "world \<Rightarrow> SSHHost \<Rightarrow> err option io" where
  "LeaveHost E h = runInstalledPhase E h PhaseLeave hostLeaveTimeout"

subsection \<open>Classes of calls\<close>

text \<open>Phases read one profile and one Secret, run something on the host, and count it.\<close>

fun phase_event :: "event \<Rightarrow> bool" where
  "phase_event (GetProfile _ _) = True"
| "phase_event (GetSecret _ _ _) = True"
| "phase_event (Exec _ _ _ _ _) = True"
| "phase_event (ExecShim _ _ _ _) = True"
| "phase_event (ObservedPhase _ _) = True"
| "phase_event _ = False"

lemma ReadSSHCredentials_calls: "guar phase_event (ReadSSHCredentials E h) (\<lambda>_. True)"
  by (auto simp: ReadSSHCredentials_def call_defs intro!: guar_rules)

lemma runPhase_calls: "guar phase_event (runPhase E d t h prof phase pctx env) (\<lambda>_. True)"
  by (auto simp: runPhase_def runVerifiedPhase_def call_defs intro!: guar_rules)

lemma runInstalledPhase_calls: "guar phase_event (runInstalledPhase E h phase def) (\<lambda>_. True)"
  by (auto simp: runInstalledPhase_def call_defs Let_def intro!: guar_rules
      runPhase_calls [unfolded call_defs] ReadSSHCredentials_calls [unfolded call_defs])

subsection \<open>Verified hosts\<close>

text \<open>What may be run on the Verified host \<open>h\<close>: never a raw script, and only envelopes with a
  non-empty, template-free script and a signature that verifies against the trusted signers of
  \<open>h\<close> in the namespace \<^verbatim>\<open>kpssh\<close> (when the host lists any, as the CRD demands).\<close>

fun verified_event :: "world \<Rightarrow> SSHHost \<Rightarrow> event \<Rightarrow> bool" where
  "verified_event E h (Exec d t script env r) = False"
| "verified_event E h (ExecShim d t e r) \<longleftrightarrow>
     e_Script e \<noteq> '''' \<and> \<not> Contains (e_Script e) ''{{'' \<and> Sig e \<noteq> '''' \<and>
     (TrustedSigners (Spec h) = [] \<or>
      (\<exists>signers. ParseTrustedSigners (w_Ssh E) (TrustedSigners (Spec h)) = Inr signers \<and>
         VerifySSHSIG (w_Ssh E) (e_Script e) (Sig e) (map Some signers) ''kpssh'' = None))"
| "verified_event E h _ = True"

lemma runVerifiedPhase_verified: "guar (verified_event E h) (runVerifiedPhase E d t h prof phase env) (\<lambda>_. True)"
  by (auto simp: runVerifiedPhase_def verified_check_def call_defs Let_def HasTemplateActions_def
      DefaultSignNamespace_def intro!: guar_rules split: if_splits sum.splits option.splits)

lemma runPhase_verified:
  "spec_ExecMode (Spec h) = Verified \<Longrightarrow> guar (verified_event E h) (runPhase E d t h prof phase pctx env) (\<lambda>_. True)"
  by (simp add: runPhase_def runVerifiedPhase_verified)

lemma ReadSSHCredentials_verified: "guar (verified_event E h) (ReadSSHCredentials E h') (\<lambda>_. True)"
  by (rule guar_weaken [where \<phi> = "\<lambda>e. case e of GetSecret _ _ _ \<Rightarrow> True | _ \<Rightarrow> False"])
     (auto simp: ReadSSHCredentials_def call_defs intro!: guar_rules split: event.splits)

text \<open>C29. \<^bold>\<open>A Verified host runs only what its trusted signers signed.\<close> In Verified mode no phase
  (install, join, leave, reboot) pipes a raw script to the host; what goes to its shim is a
  template-free script with a signature that the controller has verified over exactly these bytes
  against the host's trusted signers.\<close>

theorem verified_hosts_run_signed_scripts:
  assumes "spec_ExecMode (Spec h) = Verified"
  shows "guar (verified_event E h) (runPhase E d t h prof phase pctx env) (\<lambda>_. True) \<and>
    guar (verified_event E h) (runInstalledPhase E h phase def) (\<lambda>_. True)"
proof
  note phase = runPhase_verified [OF assms, unfolded call_defs]
  show "guar (verified_event E h) (runPhase E d t h prof phase pctx env) (\<lambda>_. True)"
    by (rule runPhase_verified [OF assms])
  show "guar (verified_event E h) (runInstalledPhase E h phase def) (\<lambda>_. True)"
    by (auto simp: runInstalledPhase_def call_defs Let_def intro!: guar_rules phase ReadSSHCredentials_verified)
qed

subsection \<open>Pins\<close>

fun pinned_event :: "event \<Rightarrow> bool" where
  "pinned_event (Exec d t script env r) \<longleftrightarrow> PinnedHostKey t \<noteq> ''''"
| "pinned_event (ExecShim d t e r) \<longleftrightarrow> PinnedHostKey t \<noteq> ''''"
| "pinned_event _ = True"

lemma ReadSSHCredentials_pin:
  "guar pinned_event (ReadSSHCredentials E h) (\<lambda>_. True)"
  by (auto simp: ReadSSHCredentials_def call_defs intro!: guar_rules)

lemma runPhase_pinned: "PinnedHostKey t \<noteq> '''' \<Longrightarrow> guar pinned_event (runPhase E d t h prof phase pctx env) (\<lambda>_. True)"
  by (auto simp: runPhase_def runVerifiedPhase_def call_defs intro!: guar_rules)

text \<open>\<^bold>\<open>Trust on first use happens once.\<close> Once a host key is recorded on the host, leave and
  reboot connect only to a pinned key: the operator's, or else the recorded one.\<close>

theorem recorded_key_pins:
  assumes "HostKeyFingerprint (Status h) \<noteq> ''''"
  shows "guar pinned_event (runInstalledPhase E h phase def) (\<lambda>_. True) \<and>
    guar pinned_event (sshTarget E h) (\<lambda>r. case r of Inl _ \<Rightarrow> True | Inr t \<Rightarrow> PinnedHostKey t \<noteq> '''')"
proof
  have pin: "PinnedHostKey (SSHTarget h creds) \<noteq> ''''" for creds
    using assms by (simp add: SSHTarget_def EffectivePin_def)
  show "guar pinned_event (runInstalledPhase E h phase def) (\<lambda>_. True)"
    by (auto simp: runInstalledPhase_def call_defs Let_def intro!: guar_rules
        runPhase_pinned [OF pin, unfolded call_defs] ReadSSHCredentials_pin [unfolded call_defs])
  show "guar pinned_event (sshTarget E h) (\<lambda>r. case r of Inl _ \<Rightarrow> True | Inr t \<Rightarrow> PinnedHostKey t \<noteq> '''')"
    unfolding sshTarget_def by (auto intro!: guar_rules ReadSSHCredentials_pin simp: pin)
qed

subsection \<open>A phase that succeeds did run\<close>

fun ran_ok :: "event \<Rightarrow> bool" where
  "ran_ok (Exec d t script env (Inr _)) = True"
| "ran_ok (ExecShim d t e (Inr _)) = True"
| "ran_ok _ = False"

lemma runPhase_ran:
  "run_state (runPhase E d t h prof phase pctx env) w = (None, w') \<Longrightarrow> \<exists>e. w' = e # w \<and> ran_ok e"
  by (auto simp: runPhase_def runVerifiedPhase_def call_defs error_of_def split: if_splits option.splits sum.splits)

lemma runInstalledPhase_ran:
  "valid (\<lambda>_. True) (runInstalledPhase E h phase def) (\<lambda>r w. r = None \<longrightarrow> list_ex ran_ok w)"
proof -
  have run: "valid (\<lambda>_. True) (do {
      e \<leftarrow> runPhase E d t h prof phase pctx env;
      ObservePhase phase e;
      ret (map_option (Wrapf msg) e) }) (\<lambda>r w. r = None \<longrightarrow> list_ex ran_ok w)" for d t prof pctx env msg
    by (rule validI) (auto simp: call_defs dest!: runPhase_ran split: prod.splits)
  show ?thesis
    unfolding runInstalledPhase_def Let_def
    by (intro valid_if valid_bind_any valid_case_sum valid_return run) simp_all
qed

text \<open>The call runs the script that the profile has for the phase, on the machine of the host, and succeeds. A host in Raw
  mode gets the rendered script, one in Verified mode the profile's own bytes.\<close>

fun runs_phase :: "template_engine \<Rightarrow> SSHHost \<Rightarrow> SSHJoinProfile \<Rightarrow> string \<Rightarrow> event \<Rightarrow> bool" where
  "runs_phase T h prof phase (Exec d t script env (Inr _)) \<longleftrightarrow> spec_ExecMode (Spec h) \<noteq> Verified \<and>
     t_Address t = Address (Spec h) \<and> t_Port t = Port (Spec h) \<and> t_User t = User (Spec h) \<and>
     Script prof phase \<noteq> '''' \<and> Render T prof phase (bare_context h) = Inr script"
| "runs_phase T h prof phase (ExecShim d t e (Inr _)) \<longleftrightarrow> spec_ExecMode (Spec h) = Verified \<and>
     t_Address t = Address (Spec h) \<and> t_Port t = Port (Spec h) \<and> t_User t = User (Spec h) \<and>
     Script prof phase \<noteq> '''' \<and> Phase e = phase \<and> e_Script e = Script prof phase"
| "runs_phase T h prof phase _ \<longleftrightarrow> False"

text \<open>The log shows that the phase of the profile that is recorded on the host has run on the host.\<close>

definition ran_installed :: "world \<Rightarrow> SSHHost \<Rightarrow> string \<Rightarrow> event log \<Rightarrow> bool" where
  "ran_installed E h phase w \<longleftrightarrow>
     (\<exists>prof. GetProfile (hd (SplitN2 CHR ''@'' (InstalledProfile (Status h)))) (Inr prof) \<in> set w \<and>
        list_ex (runs_phase (w_Templates E) h prof phase) w)"

lemma ran_installed_mono: "ran_installed E h phase w \<Longrightarrow> set w \<subseteq> set w' \<Longrightarrow> ran_installed E h phase w'"
  unfolding ran_installed_def list_ex_iff by blast

lemma runPhase_runs:
  assumes "run_state (runPhase E d (SSHTarget h creds) h prof phase (bare_context h) env) w = (None, w')" and "Script prof phase \<noteq> ''''"
  shows "\<exists>e. w' = e # w \<and> runs_phase (w_Templates E) h prof phase e"
  using assms by (auto simp: runPhase_def runVerifiedPhase_def SSHTarget_def call_defs error_of_def split: if_splits option.splits sum.splits)

lemma runInstalledPhase_runs:
  "valid (\<lambda>_. True) (runInstalledPhase E h phase def) (\<lambda>r w. r = None \<longrightarrow> ran_installed E h phase w)"
proof -
  let ?read = "\<lambda>prof w. GetProfile (hd (SplitN2 CHR ''@'' (InstalledProfile (Status h)))) (Inr prof) \<in> set w"
  have creds: "valid (?read prof) (ReadSSHCredentials E h) (\<lambda>_. ?read prof)" for prof
    by (rule valid_weaken [OF guar_valid [OF ReadSSHCredentials_calls, where P = "?read prof"]]) auto
  have run: "valid (?read prof) (do {
      e \<leftarrow> runPhase E d (SSHTarget h c) h prof phase (bare_context h) env;
      ObservePhase phase e;
      ret (map_option (Wrapf msg) e) }) (\<lambda>r w. r = None \<longrightarrow> ran_installed E h phase w)" if "Script prof phase \<noteq> ''''" for d c prof env msg
    by (rule validI) (auto simp: call_defs ran_installed_def dest!: runPhase_runs [OF _ that] split: prod.splits)
  have profile: "valid (\<lambda>_. True) (getProfile E (hd (SplitN2 CHR ''@'' (InstalledProfile (Status h)))))
      (\<lambda>p w. \<forall>prof. p = Inr prof \<longrightarrow> ?read prof w)"
    by (simp add: call_defs valid_def)
  have found: "valid (\<lambda>w. \<forall>prof'. Inr prof = (Inr prof' :: err + SSHJoinProfile) \<longrightarrow> ?read prof' w) m Q"
    if "valid (?read prof) m Q" for prof and m :: "err option io" and Q
    by (rule valid_weaken [OF that]) auto
  show ?thesis
    unfolding runInstalledPhase_def Let_def
    by (intro valid_if valid_return valid_bind [OF profile] valid_case_sum; (hypsubst)?; (rule found)?)
       (auto intro!: valid_if valid_return valid_bind [OF creds] valid_case_sum run)
qed

lemma LeaveHost_runs: "valid (\<lambda>_. True) (LeaveHost E h) (\<lambda>r w. r = None \<longrightarrow> ran_installed E h ''leave'' w)"
  using runInstalledPhase_runs [of E h PhaseLeave] unfolding LeaveHost_def by (simp add: PhaseLeave_def)

subsection \<open>Concrete hosts\<close>

definition signed_profile :: SSHJoinProfile where
  "signed_profile = sample_profile\<lparr>Signatures := Some (let sig = sshsig_bytes ''k'' ''kpssh'' '''' ''sha256''
      (ssh_string ''ssh-ed25519'' @ ssh_string ''s'') in
    \<lparr>g_Install = sig, g_Join = sig, g_Leave = sig, g_Uninstall = '''', g_Reboot = ''''\<rparr>)\<rparr>"

definition verified_host :: SSHHost where
  "verified_host = sample_host\<lparr>Spec := (Spec sample_host)\<lparr>spec_ExecMode := Verified, TrustedSigners := [''k'']\<rparr>,
     Status := (Status sample_host)\<lparr>InstalledProfile := ''p@1''\<rparr>\<rparr>"

theorem verified_hosts_run_signed_scripts_witness:
  "\<exists>w'. run_state (runInstalledPhase (ready_world verified_host signed_profile) verified_host PhaseLeave 1) [] = (None, w') \<and>
     list_ex ran_ok w' \<and> list_all (verified_event (ready_world verified_host signed_profile) verified_host) w'"
proof -
  let ?E = "ready_world verified_host signed_profile"
  have mode: "spec_ExecMode (Spec verified_host) = Verified" by (simp add: verified_host_def)
  have "fst (run_state (runInstalledPhase ?E verified_host PhaseLeave 1) []) = None" by code_simp
  then obtain w' where run: "run_state (runInstalledPhase ?E verified_host PhaseLeave 1) [] = (None, w')"
    by (metis prod.collapse)
  have "list_all (verified_event ?E verified_host) w'"
    unfolding list_all_iff
    using guar_calls [OF conjunct2 [OF verified_hosts_run_signed_scripts [OF mode]], of ?E PhaseLeave 1 "[]" None w'] run
    by simp
  with run validD [OF runInstalledPhase_ran _ run] show ?thesis by auto
qed

theorem recorded_key_pins_witness:
  "guar pinned_event (runInstalledPhase (ready_world verified_host signed_profile) verified_host PhaseLeave 1) (\<lambda>_. True)"
proof -
  have "HostKeyFingerprint (Status verified_host) \<noteq> ''''"
    by (simp add: verified_host_def sample_host_def sample_status_def)
  from recorded_key_pins [OF this] show ?thesis by blast
qed

end
