(* ===== verification/Instance.thy ===== *)
theory Instance
  imports HostPool Bootstrap Phases
begin

section \<open>The instance lifecycle: pkg/providers/instance/instance.go\<close>

text \<open>
  \<open>Create\<close> claims and joins a host, \<open>Delete\<close> leaves and releases it, \<open>Reboot\<close>, \<open>Get\<close> and \<open>List\<close>
  complete the Go interface \<^verbatim>\<open>instance.Provider\<close>. All take the host provider \<open>P\<close> and the bootstrap
  provider \<open>B\<close> as the Go struct holds them, as interface values. The host object that Go mutates in
  place is threaded through. \<open>InstanceType\<close> is karpenter's type.
\<close>

record Offering =
  o_Price :: float64
  o_Available :: bool
  o_Requirements :: "(string \<times> string list) list"

record InstanceType =
  it_Name :: string
  it_Requirements :: "(string \<times> string list) list"
  it_Offerings :: "Offering list"
  it_Capacity :: ResourceList
  it_KubeReserved :: ResourceList

definition installTimeout :: time where "installTimeout = 600 * second"
definition joinTimeout :: time where "joinTimeout = 300 * second"
definition tokenTTL :: time where "tokenTTL = 3600 * second"

record Instance =
  i_ProviderID :: string
  i_HostName :: string
  i_NodeName :: string
  i_Class :: string
  i_Capacity :: ResourceList
  i_CreationTime :: time
  i_InstalledProfile :: string

subsection \<open>Candidates by price\<close>

text \<open>\<^verbatim>\<open>math.MaxFloat64\<close>\<close>

definition MaxFloat64 :: float64 where
  "MaxFloat64 = (2 ^ 1024 - 2 ^ 971) * 2 ^ 1074"

definition cheapest :: "InstanceType \<Rightarrow> float64" where
  "cheapest it = foldl (\<lambda>lowest ofr. min lowest (o_Price ofr)) MaxFloat64 (it_Offerings it)"

definition sortByPrice :: "InstanceType list \<Rightarrow> InstanceType list" where
  "sortByPrice its = sort_key cheapest its"

subsection \<open>What the kubelet registers with\<close>

definition label_namespace :: "string \<Rightarrow> string" where
  "label_namespace key = (case Cut CHR ''/'' key of None \<Rightarrow> '''' | Some (ns, _) \<Rightarrow> ns)"

definition kubeletSelfLabel :: "string \<Rightarrow> bool" where
  "kubeletSelfLabel key =
     (let ns = label_namespace key;
          inK8sSpace = (ns = ''kubernetes.io'' \<or> HasSuffix ns ''.kubernetes.io'' \<or>
            ns = ''k8s.io'' \<or> HasSuffix ns ''.k8s.io'') in
      if \<not> inK8sSpace then True
      else ns = ''kubelet.kubernetes.io'' \<or> HasSuffix ns ''.kubelet.kubernetes.io'' \<or>
        ns = ''node.kubernetes.io'' \<or> HasSuffix ns ''.node.kubernetes.io'')"

definition renderNodeLabels :: "NodeClaim \<Rightarrow> string" where
  "renderNodeLabels nodeClaim =
     Join (map (\<lambda>(k, v). k @ ''='' @ v) (filter (\<lambda>(k, v). kubeletSelfLabel k) (nc_Labels nodeClaim))) '',''"

definition UnregisteredTaintKey :: string where
  "UnregisteredTaintKey = ''karpenter.sh/unregistered''"

definition render_taint :: "Taint \<Rightarrow> string" where
  "render_taint t =
     (if taint_Value t \<noteq> '''' then taint_Key t @ ''='' @ taint_Value t @ '':'' @ taint_Effect t
      else taint_Key t @ '':'' @ taint_Effect t)"

definition renderTaints :: "NodeClaim \<Rightarrow> string" where
  "renderTaints nodeClaim =
     Join ((UnregisteredTaintKey @ '':NoExecute'') # map render_taint (nc_Taints nodeClaim)) '',''"

subsection \<open>Tokens and release\<close>

definition deleteBootstrapToken :: "bootstrap_provider \<Rightarrow> SSHHost \<Rightarrow> unit io" where
  "deleteBootstrapToken B h =
     (if BootstrapTokenID (Status h) = '''' then ret ()
      else do { e \<leftarrow> bp_DeleteTokenByID B (BootstrapTokenID (Status h)); ret () })"

definition release :: "host_provider \<Rightarrow> bootstrap_provider \<Rightarrow> SSHHost \<Rightarrow> bool \<Rightarrow> string \<Rightarrow> unit io" where
  "release P B h healthy reason = do {
     deleteBootstrapToken B h;
     r \<leftarrow> hp_Release P h healthy reason;
     ret () }"

definition deleteToken :: "host_provider \<Rightarrow> bootstrap_provider \<Rightarrow> SSHHost \<Rightarrow> string \<Rightarrow> SSHHost io" where
  "deleteToken P B h token = do {
     e \<leftarrow> bp_DeleteToken B token;
     if BootstrapTokenID (Status h) = '''' then ret h
     else do { (e', h') \<leftarrow> hp_SetBootstrapTokenID P h ''''; ret h' } }"

definition redactPhaseErr :: "Context \<Rightarrow> string \<Rightarrow> err \<Rightarrow> err" where
  "redactPhaseErr pctx phase e =
     (let red = Errorf (phase @ '' phase: '' @ Redact pctx (Error e)) in
      if isConfigError e then ConfigError red else red)"

subsection \<open>Join\<close>

text \<open>Everything \<^verbatim>\<open>join\<close> reads before it touches the host; every failure is a config error.\<close>

definition join_context :: "SSHNodeClass \<Rightarrow> NodeClaim \<Rightarrow> SSHHost \<Rightarrow> ClusterInfo \<Rightarrow> secret_data \<Rightarrow> Context" where
  "join_context nodeClass nodeClaim h info secrets =
     \<lparr>ClusterEndpoint = Endpoint' info, ClusterCACert = CACertB64 info, BootstrapToken = '''',
      NodeName = nc_Name nodeClaim,
      ctx_ProviderID = (if ProviderIDSource' (ncl_Spec nodeClass) \<noteq> Adopt then ProviderID h else ''''),
      NodeLabels = renderNodeLabels nodeClaim, RegisterWithTaints = renderTaints nodeClaim,
      HostAddress = Address (Spec h), ctx_NodeAddress = NodeIP (Spec h),
      Vars = Vars' (ncl_Spec nodeClass), Secrets = secrets\<rparr>"

definition join_secrets :: "world \<Rightarrow> SSHNodeClass \<Rightarrow> SSHHost \<Rightarrow> (err + secret_data) io" where
  "join_secrets E nodeClass h =
     (case JoinSecretRef (ncl_Spec nodeClass) of
        None \<Rightarrow> ret (Inr [])
      | Some ref \<Rightarrow> do {
          s \<leftarrow> getSecret E (h_Namespace h) ref;
          ret (case s of Inl e \<Rightarrow> Inl (Wrapf ''getting joinSecretRef secret: '' e) | Inr data \<Rightarrow> Inr data) })"

definition join_config :: "bootstrap_provider \<Rightarrow> world \<Rightarrow> SSHNodeClass \<Rightarrow> NodeClaim \<Rightarrow> SSHHost \<Rightarrow>
    (err + SSHJoinProfile \<times> Target \<times> Context \<times> (string \<times> string) list) io" where
  "join_config B E nodeClass nodeClaim h = do {
     p \<leftarrow> getProfile E (JoinProfileRef (ncl_Spec nodeClass));
     case p of Inl e \<Rightarrow> ret (Inl (ConfigError (Wrapf ''getting join profile: '' e))) | Inr prof \<Rightarrow> do {
     t \<leftarrow> sshTarget E h;
     case t of Inl e \<Rightarrow> ret (Inl (ConfigError e)) | Inr target \<Rightarrow> do {
     i \<leftarrow> bp_ClusterInfo B nodeClass;
     case i of Inl e \<Rightarrow> ret (Inl (ConfigError e)) | Inr info \<Rightarrow> do {
     s \<leftarrow> join_secrets E nodeClass h;
     case s of Inl e \<Rightarrow> ret (Inl (ConfigError e)) | Inr secrets \<Rightarrow>
       (let pctx = join_context nodeClass nodeClaim h info secrets in
        case Env pctx of
          Inl e \<Rightarrow> ret (Inl (ConfigError e))
        | Inr env \<Rightarrow> ret (Inr (prof, target, pctx, env))) } } } }"

definition join_install :: "host_provider \<Rightarrow> world \<Rightarrow> SSHHost \<Rightarrow> SSHJoinProfile \<Rightarrow> Target \<Rightarrow> Context \<Rightarrow>
    (string \<times> string) list \<Rightarrow> (err option \<times> SSHHost) io" where
  "join_install P E h prof target pctx env =
     (if InstalledProfile (Status h) = InstalledMarker prof then ret (None, h)
      else do {
        e \<leftarrow> runPhase E (Timeout prof PhaseInstall installTimeout) target h prof PhaseInstall pctx env;
        ObservePhase PhaseInstall e;
        case e of
          Some x \<Rightarrow> ret (Some (redactPhaseErr pctx PhaseInstall x), h)
        | None \<Rightarrow> hp_SetInstalled P h (InstalledMarker prof) })"

definition join_token :: "host_provider \<Rightarrow> bootstrap_provider \<Rightarrow> world \<Rightarrow> NodeClaim \<Rightarrow> SSHHost \<Rightarrow>
    SSHJoinProfile \<Rightarrow> Target \<Rightarrow> Context \<Rightarrow> (err option \<times> SSHHost) io" where
  "join_token P B E nodeClaim h prof target pctx = do {
     r \<leftarrow> bp_CreateToken B tokenTTL (''karpenter-provider-ssh nodeclaim '' @ nc_Name nodeClaim);
     case r of
       Inl e \<Rightarrow> ret (Some e, h)
     | Inr token \<Rightarrow>
         (let pctx' = pctx\<lparr>BootstrapToken := token\<rparr> in
          case Env pctx' of
            Inl e \<Rightarrow> do { h' \<leftarrow> deleteToken P B h token; ret (Some e, h') }
          | Inr env \<Rightarrow> do {
              (se, h1) \<leftarrow> hp_SetBootstrapTokenID P h (TokenID token);
              case se of
                Some e \<Rightarrow> do {
                  h2 \<leftarrow> deleteToken P B h1 token;
                  ret (Some (Wrapf ''recording bootstrap token: '' e), h2) }
              | None \<Rightarrow> do {
                  je \<leftarrow> runPhase E (Timeout prof PhaseJoin joinTimeout) target h1 prof PhaseJoin pctx' env;
                  ObservePhase PhaseJoin je;
                  case je of
                    Some e \<Rightarrow> do {
                      h2 \<leftarrow> deleteToken P B h1 token;
                      ret (Some (redactPhaseErr pctx' PhaseJoin e), h2) }
                  | None \<Rightarrow> ret (None, h1) } }) }"

definition join :: "host_provider \<Rightarrow> bootstrap_provider \<Rightarrow> world \<Rightarrow> SSHNodeClass \<Rightarrow> NodeClaim \<Rightarrow> SSHHost \<Rightarrow>
    (err option \<times> SSHHost) io" where
  "join P B E nodeClass nodeClaim h = do {
     c \<leftarrow> join_config B E nodeClass nodeClaim h;
     case c of
       Inl e \<Rightarrow> ret (Some e, h)
     | Inr (prof, target, pctx, env) \<Rightarrow> do {
         (ie, h1) \<leftarrow> join_install P E h prof target pctx env;
         case ie of
           Some e \<Rightarrow> ret (Some e, h1)
         | None \<Rightarrow> join_token P B E nodeClaim h1 prof target pctx } }"

subsection \<open>Create\<close>

fun claim_first :: "host_provider \<Rightarrow> NodeClaim \<Rightarrow> SSHHost list \<Rightarrow> (err + SSHHost option) io" where
  "claim_first P nodeClaim [] = ret (Inr None)"
| "claim_first P nodeClaim (c # cs) = do {
     (r, c') \<leftarrow> hp_Claim P c nodeClaim;
     case r of
       Inl e \<Rightarrow> ret (Inl e)
     | Inr ok \<Rightarrow> if ok then ret (Inr (Some c')) else claim_first P nodeClaim cs }"

fun claim_types :: "host_provider \<Rightarrow> SSHNodeClass \<Rightarrow> NodeClaim \<Rightarrow> InstanceType list \<Rightarrow> (err + SSHHost option) io" where
  "claim_types P nodeClass nodeClaim [] = ret (Inr None)"
| "claim_types P nodeClass nodeClaim (it # its) = do {
     a \<leftarrow> hp_Available P (HostSelector (ncl_Spec nodeClass)) (it_Name it);
     case a of
       Inl e \<Rightarrow> ret (Inl e)
     | Inr candidates \<Rightarrow> do {
         r \<leftarrow> claim_first P nodeClaim candidates;
         case r of
           Inl e \<Rightarrow> ret (Inl e)
         | Inr (Some h) \<Rightarrow> ret (Inr (Some h))
         | Inr None \<Rightarrow> claim_types P nodeClass nodeClaim its } }"

definition acquire :: "host_provider \<Rightarrow> SSHNodeClass \<Rightarrow> NodeClaim \<Rightarrow> InstanceType list \<Rightarrow> (err + SSHHost option) io" where
  "acquire P nodeClass nodeClaim instanceTypes = do {
     b \<leftarrow> hp_ByClaim P nodeClaim;
     case b of
       Inl e \<Rightarrow> ret (Inl e)
     | Inr (Some h) \<Rightarrow> ret (Inr (Some h))
     | Inr None \<Rightarrow> claim_types P nodeClass nodeClaim (sortByPrice instanceTypes) }"

text \<open>One poll for a Node with the host's IP and a providerID; a failed list is retried.\<close>

definition adopt_poll :: "world \<Rightarrow> SSHHost \<Rightarrow> string option io" where
  "adopt_poll E h = do {
     r \<leftarrow> listNodes E (NodeIP (Spec h));
     ret (case r of
            Inl _ \<Rightarrow> None
          | Inr nodes \<Rightarrow> map_option n_ProviderID (List.find (\<lambda>n. n_ProviderID n \<noteq> '''') nodes)) }"

fun adopt_wait :: "world \<Rightarrow> SSHHost \<Rightarrow> nat \<Rightarrow> string option io" where
  "adopt_wait E h 0 = adopt_poll E h"
| "adopt_wait E h (Suc n) = do {
     r \<leftarrow> adopt_poll E h;
     case r of Some pid \<Rightarrow> ret (Some pid) | None \<Rightarrow> adopt_wait E h n }"

definition adoptProviderID :: "world \<Rightarrow> SSHHost \<Rightarrow> (err + string) io" where
  "adoptProviderID E h = do {
     r \<leftarrow> adopt_wait E h (w_Polls E);
     ret (case r of
            Some pid \<Rightarrow> Inr pid
          | None \<Rightarrow> Inl (Wrapf (''no node with InternalIP '' @ NodeIP (Spec h) @ '' appeared within 4m0s: '')
              (w_PollTimeout E))) }"

definition toInstance :: "SSHHost \<Rightarrow> string \<Rightarrow> Instance" where
  "toInstance h nodeName =
     \<lparr>i_ProviderID = (if ProviderID' (Status h) = '''' then ProviderID h else ProviderID' (Status h)),
      i_HostName = h_Name h, i_NodeName = nodeName, i_Class = HostClass h, i_Capacity = Capacity (Spec h),
      i_CreationTime = h_CreationTimestamp h, i_InstalledProfile = InstalledProfile (Status h)\<rparr>"

definition finish_create :: "host_provider \<Rightarrow> NodeClaim \<Rightarrow> SSHHost \<Rightarrow> string \<Rightarrow> (cloud_err + Instance) io" where
  "finish_create P nodeClaim h providerID = do {
     (e, h1) \<leftarrow> hp_SetProviderID P h providerID;
     case e of
       Some x \<Rightarrow> ret (Inl (Plain x))
     | None \<Rightarrow> do {
         (e', h2) \<leftarrow> hp_MarkInUse P h1;
         ret (Inr (toInstance h2 (nc_Name nodeClaim))) } }"

definition Create :: "host_provider \<Rightarrow> bootstrap_provider \<Rightarrow> world \<Rightarrow> SSHNodeClass \<Rightarrow> NodeClaim \<Rightarrow>
    InstanceType list \<Rightarrow> (cloud_err + Instance) io" where
  "Create P B E nodeClass nodeClaim instanceTypes = do {
     a \<leftarrow> acquire P nodeClass nodeClaim instanceTypes;
     case a of
       Inl e \<Rightarrow> ret (Inl (Plain e))
     | Inr None \<Rightarrow> ret (Inl (InsufficientCapacityError
         (Errorf (''no Available SSHHost for NodeClaim '' @ nc_Name nodeClaim))))
     | Inr (Some h) \<Rightarrow> do {
         (je, h1) \<leftarrow> join P B E nodeClass nodeClaim h;
         case je of
           Some e \<Rightarrow> do {
             release P B h1 (isConfigError e) (''join failed: '' @ Error e);
             ret (Inl (CreateError (Wrapf (''joining host '' @ h_Name h1 @ '': '') e) ''JoinFailed''
               ''joining host over SSH failed'')) }
         | None \<Rightarrow>
             if ProviderIDSource' (ncl_Spec nodeClass) = Adopt then do {
               p \<leftarrow> adoptProviderID E h1;
               case p of
                 Inl e \<Rightarrow> do {
                   release P B h1 False (''providerID adoption failed: '' @ Error e);
                   ret (Inl (CreateError e ''AdoptFailed'' ''node did not appear for providerID adoption'')) }
               | Inr adopted \<Rightarrow> finish_create P nodeClaim h1 adopted }
             else finish_create P nodeClaim h1 (ProviderID h1) } }"

subsection \<open>Delete, Reboot, Get, List\<close>

definition not_claimed :: "SSHHost \<Rightarrow> err" where
  "not_claimed h = Errorf (''host '' @ h_Name h @ '' is not claimed'')"

definition resolve_error :: "err \<Rightarrow> cloud_err" where
  "resolve_error e = (if IsNotFound e then NodeClaimNotFoundError e else Plain e)"

definition Delete :: "host_provider \<Rightarrow> bootstrap_provider \<Rightarrow> world \<Rightarrow> NodeClaim \<Rightarrow> cloud_err option io" where
  "Delete P B E nodeClaim = do {
     r \<leftarrow> hp_ByProviderID P (nc_ProviderID nodeClaim);
     case r of
       Inl e \<Rightarrow> ret (Some (resolve_error e))
     | Inr h \<Rightarrow>
         (case ClaimRef (Status h) of
            None \<Rightarrow> ret (Some (NodeClaimNotFoundError (not_claimed h)))
          | Some ref \<Rightarrow>
              if \<not> ClaimHeldBy h nodeClaim then
                ret (Some (NodeClaimNotFoundError (Errorf (''host '' @ h_Name h @ '' is claimed by NodeClaim '' @
                  ref_Name ref @ '', not '' @ nc_Name nodeClaim))))
              else do {
                leaveOK \<leftarrow> (if InstalledProfile (Status h) \<noteq> '''' then do {
                    e \<leftarrow> LeaveHost E h;
                    ret (e = None) }
                  else ret False);
                deleteBootstrapToken B h;
                (e, h') \<leftarrow> hp_Release P h leaveOK ''leave phase did not complete cleanly'';
                ret (map_option Plain e) }) }"

definition Reboot :: "host_provider \<Rightarrow> world \<Rightarrow> NodeClaim \<Rightarrow> cloud_err option io" where
  "Reboot P E nodeClaim = do {
     r \<leftarrow> hp_ByProviderID P (nc_ProviderID nodeClaim);
     case r of
       Inl e \<Rightarrow> ret (Some (resolve_error e))
     | Inr h \<Rightarrow>
         if \<not> ClaimHeldBy h nodeClaim then
           ret (Some (NodeClaimNotFoundError (Errorf (''host '' @ h_Name h @ '' is not claimed by NodeClaim '' @
             nc_Name nodeClaim))))
         else do {
           e \<leftarrow> runInstalledPhase E h PhaseReboot hostRebootTimeout;
           ret (case e of
                  None \<Rightarrow> None
                | Some x \<Rightarrow>
                    if isConfigError x \<or> (spec_ExecMode (Spec h) = Verified \<and> IsUnknownPhase x)
                    then Some (NodeRebootFailedError x) else Some (Plain x)) } }"

definition Get :: "host_provider \<Rightarrow> string \<Rightarrow> (cloud_err + Instance) io" where
  "Get P providerID = do {
     r \<leftarrow> hp_ByProviderID P providerID;
     ret (case r of
            Inl e \<Rightarrow> Inl (resolve_error e)
          | Inr h \<Rightarrow>
              (case ClaimRef (Status h) of
                 None \<Rightarrow> Inl (NodeClaimNotFoundError (not_claimed h))
               | Some ref \<Rightarrow> Inr (toInstance h (ref_Name ref)))) }"

definition claim_name :: "SSHHost \<Rightarrow> string" where
  "claim_name h = (case ClaimRef (Status h) of None \<Rightarrow> '''' | Some ref \<Rightarrow> ref_Name ref)"

definition List_instances :: "host_provider \<Rightarrow> (err + Instance list) io" where
  "List_instances P = do {
     r \<leftarrow> hp_Claimed P;
     ret (case r of Inl e \<Rightarrow> Inl e | Inr hosts \<Rightarrow> Inr (map (\<lambda>h. toInstance h (claim_name h)) hosts)) }"

subsection \<open>The lifecycle over any pool and any token provider\<close>

text \<open>A client of the two providers inherits their guarantee: if every call of the pool, of the token
  provider, of the phases and of the Node lookup is in \<open>\<phi>\<close>, so is every call of the lifecycle
  operations. The proofs also show that every host object handed to the pool is one the pool may
  be given: a tracked object under a held claim.\<close>

locale instance_client = pool_contract P \<rho> tracked \<phi> + bootstrap_contract B \<phi>
  for P :: host_provider and \<rho> :: "event \<Rightarrow> bool" and tracked :: "SSHHost \<Rightarrow> bool" and \<phi> :: "event \<Rightarrow> bool"
    and B :: bootstrap_provider +
  fixes E :: world
  assumes phase_calls: "phase_event e \<Longrightarrow> \<phi> e" and node_calls: "\<phi> (ListNodes ip r)"
begin

definition held :: "ClaimReference option \<Rightarrow> SSHHost \<Rightarrow> bool" where
  "held c h \<longleftrightarrow> tracked h \<and> ClaimRef (Status h) = c \<and> c \<noteq> None"

lemma heldI: "tracked h \<Longrightarrow> ClaimHeldBy h nc \<Longrightarrow> held (ClaimRef (Status h)) h"
  by (auto simp: held_def dest: ClaimHeldBy_claimed)

lemma phase_guar: "guar phase_event m (\<lambda>_. True) \<Longrightarrow> rg \<rho> \<phi> m (\<lambda>_. True)"
  by (erule guar_weaken) (simp_all add: phase_calls)

lemmas phase_guars = phase_guar [OF runPhase_calls] phase_guar [OF ReadSSHCredentials_calls]
  phase_guar [OF runInstalledPhase_calls]

lemma token_laws:
  "rg \<rho> \<phi> (bp_CreateToken B ttl d) (\<lambda>_. True)" "rg \<rho> \<phi> (bp_DeleteToken B t) (\<lambda>_. True)"
  "rg \<rho> \<phi> (bp_DeleteTokenByID B i) (\<lambda>_. True)" "rg \<rho> \<phi> (bp_ClusterInfo B c) (\<lambda>_. True)"
  by (rule guar_weaken [OF CreateToken_law] guar_weaken [OF DeleteToken_law] guar_weaken [OF DeleteTokenByID_law]
        guar_weaken [OF ClusterInfo_law]; simp)+

lemmas calls_grow = pool_grows token_laws [THEN rg_grows] runPhase_calls [THEN rg_grows]
  ReadSSHCredentials_calls [THEN rg_grows] runInstalledPhase_calls [THEN rg_grows]

lemma join_grows: "grows (deleteToken P B h t)" "grows (join_install P E h prof target pctx env)"
  "grows (join_token P B E nc h prof target pctx)"
proof -
  show d: "grows (deleteToken P B h t)" for h t
    unfolding deleteToken_def by (auto intro!: guar_rules calls_grow)
  show "grows (join_install P E h prof target pctx env)"
    unfolding join_install_def
    by (auto simp: call_defs intro!: guar_rules calls_grow [unfolded call_defs])
  show "grows (join_token P B E nc h prof target pctx)"
    unfolding join_token_def Let_def
    by (auto simp: call_defs intro!: guar_rules calls_grow [unfolded call_defs] d)
qed

lemma claim_grows: "grows (claim_first P nc cs)" "grows (claim_types P nodeClass nc its)" "grows (acquire P nodeClass nc its)"
proof -
  show f: "grows (claim_first P nc cs)" for cs by (induction cs) (auto intro!: guar_rules calls_grow)
  show t: "grows (claim_types P nodeClass nc its)" for its by (induction its) (auto intro!: guar_rules calls_grow f)
  show "grows (acquire P nodeClass nc its)" unfolding acquire_def by (auto intro!: guar_rules calls_grow t)
qed

lemma deleteBootstrapToken_calls: "rg \<rho> \<phi> (deleteBootstrapToken B h) (\<lambda>_. True)"
  by (auto simp: deleteBootstrapToken_def intro!: guar_rules token_laws)

lemma set_token_held: "held c h \<Longrightarrow> rg \<rho> \<phi> (hp_SetBootstrapTokenID P h tid) (\<lambda>r. held c (snd r))"
  unfolding held_def by (rule guar_post [OF SetBootstrapTokenID_law]) auto

lemma set_installed_held: "held c h \<Longrightarrow> rg \<rho> \<phi> (hp_SetInstalled P h m) (\<lambda>r. held c (snd r))"
  unfolding held_def by (rule guar_post [OF SetInstalled_law]) auto

lemma deleteToken_held:
  assumes "held c h"
  shows "rg \<rho> \<phi> (deleteToken P B h t) (held c)"
  unfolding deleteToken_def
  using assms
  by (auto intro!: guar_steps guar_bind_any [OF token_laws(2)] rg_bind [OF set_token_held [OF assms]] calls_grow)

lemma release_calls:
  assumes "held c h"
  shows "rg \<rho> \<phi> (release P B h b reason) (\<lambda>_. True)"
  using assms
  by (auto simp: release_def held_def intro!: guar_rules deleteBootstrapToken_calls Release_law)

lemma join_config_calls: "rg \<rho> \<phi> (join_config B E nodeClass nc h) (\<lambda>_. True)"
  unfolding join_config_def sshTarget_def join_secrets_def
  by (auto simp: call_defs phase_calls intro!: guar_rules phase_guars [unfolded call_defs] token_laws)

lemma join_install_held:
  assumes "held c h"
  shows "rg \<rho> \<phi> (join_install P E h prof target pctx env) (\<lambda>r. held c (snd r))"
  unfolding join_install_def
  using assms by (auto simp: call_defs phase_calls intro!: guar_rules phase_guars [unfolded call_defs] set_installed_held calls_grow)

lemma join_token_held:
  assumes "held c h"
  shows "rg \<rho> \<phi> (join_token P B E nc h prof target pctx) (\<lambda>r. held c (snd r))"
proof -
  note del = rg_bind [OF deleteToken_held]
  show ?thesis
    unfolding join_token_def Let_def using assms
    by (auto simp: call_defs phase_calls intro!: guar_rules phase_guars [unfolded call_defs] del
        token_laws calls_grow join_grows rg_bind [OF set_token_held [OF assms]] calls_grow)
qed

lemma join_held:
  assumes "held c h"
  shows "rg \<rho> \<phi> (join P B E nodeClass nc h) (\<lambda>r. held c (snd r))"
  unfolding join_def
  using assms
  by (auto intro!: guar_steps guar_bind_any [OF join_config_calls] rg_bind [OF join_install_held [OF assms]]
      join_token_held join_grows)

lemma claim_first_held:
  "\<forall>c \<in> set cs. tracked c \<and> claimable c \<Longrightarrow>
    rg \<rho> \<phi> (claim_first P nc cs) (\<lambda>r. \<forall>h. r = Inr (Some h) \<longrightarrow> held (ClaimRef (Status h)) h \<and> ClaimHeldBy h nc)"
proof (induction cs)
  case (Cons c cs)
  have claim: "rg \<rho> \<phi> (hp_Claim P c nc) (\<lambda>r. fst r = Inr True \<longrightarrow> held (ClaimRef (Status (snd r))) (snd r) \<and> ClaimHeldBy (snd r) nc)"
    using Cons.prems
    by (auto intro!: guar_post [OF Claim_law] intro: heldI)
  show ?case
    unfolding claim_first.simps
    by (rule rg_bind [OF claim]) (use Cons in \<open>auto intro!: guar_rules claim_grows\<close>)
qed (simp add: guar_return)

lemma claim_types_held:
  "rg \<rho> \<phi> (claim_types P nodeClass nc its) (\<lambda>r. \<forall>h. r = Inr (Some h) \<longrightarrow> held (ClaimRef (Status h)) h \<and> ClaimHeldBy h nc)"
proof (induction its)
  case (Cons it its)
  show ?case
    unfolding claim_types.simps
    by (rule rg_bind [OF Available_law])
       (auto intro!: guar_steps rg_bind [OF claim_first_held] Cons.IH grows_bind claim_grows)
qed (simp add: guar_return)

lemma acquire_held:
  "rg \<rho> \<phi> (acquire P nodeClass nc its) (\<lambda>r. \<forall>h. r = Inr (Some h) \<longrightarrow> held (ClaimRef (Status h)) h \<and> ClaimHeldBy h nc)"
  unfolding acquire_def
  by (rule rg_bind [OF ByClaim_law])
     (auto intro!: guar_steps claim_types_held claim_grows intro: heldI)

lemma adopt_wait_calls: "rg \<rho> \<phi> (adopt_wait E h n) (\<lambda>_. True)"
  by (induction n) (auto simp: adopt_poll_def call_defs node_calls intro!: guar_rules)

lemma adopt_calls: "rg \<rho> \<phi> (adoptProviderID E h) (\<lambda>_. True)"
  by (auto simp: adoptProviderID_def intro!: guar_rules adopt_wait_calls)

lemma finish_create_calls:
  assumes "held c h"
  shows "rg \<rho> \<phi> (finish_create P nc h pid) (\<lambda>_. True)"
proof -
  have set: "rg \<rho> \<phi> (hp_SetProviderID P h pid) (\<lambda>r. fst r = None \<longrightarrow> held c (snd r))"
    using assms unfolding held_def by (auto intro!: guar_post [OF SetProviderID_law])
  have mark: "rg \<rho> \<phi> (hp_MarkInUse P h') (\<lambda>_. True)" if "held c h'" for h'
    using that MarkInUse_law by (simp add: held_def)
  show ?thesis
    unfolding finish_create_def by (rule rg_bind [OF set]) (auto intro!: guar_rules mark calls_grow)
qed

lemma finish_grows: "grows (adoptProviderID E h)" "grows (release P B h b reason)" "grows (finish_create P nc h pid)"
  "grows (join P B E nodeClass nc h)"
proof -
  show "grows (adoptProviderID E h)" using adopt_calls by (rule rg_grows)
  show "grows (release P B h b reason)"
    unfolding release_def by (auto intro!: guar_rules calls_grow deleteBootstrapToken_calls [THEN rg_grows])
  show "grows (finish_create P nc h pid)" unfolding finish_create_def by (auto intro!: guar_rules calls_grow)
  show "grows (join P B E nodeClass nc h)"
    unfolding join_def by (auto intro!: guar_rules join_config_calls [THEN rg_grows] join_grows)
qed

lemma Create_calls:
  "rg \<rho> \<phi> (Create P B E nodeClass nc its) (\<lambda>_. True)"
  unfolding Create_def
  by (rule rg_bind [OF acquire_held])
     (auto intro!: guar_steps rg_bind [OF join_held] guar_bind_any [OF release_calls]
        guar_bind_any [OF adopt_calls] finish_create_calls grows_bind finish_grows)

lemma Delete_calls:
  "rg \<rho> \<phi> (Delete P B E nc) (\<lambda>_. True)"
  unfolding Delete_def LeaveHost_def
  by (rule rg_bind [OF ByProviderID_law])
     (auto intro!: guar_rules phase_guars deleteBootstrapToken_calls Release_law calls_grow
        deleteBootstrapToken_calls [THEN rg_grows])

lemma Reboot_calls:
  "rg \<rho> \<phi> (Reboot P E nc) (\<lambda>_. True)"
  unfolding Reboot_def
  by (rule rg_bind [OF ByProviderID_law]) (auto intro!: guar_rules phase_guars calls_grow)

lemma Get_calls: "rg \<rho> \<phi> (Get P pid) (\<lambda>_. True)"
  unfolding Get_def by (rule rg_bind [OF ByProviderID_law]) (auto intro!: guar_rules)

lemma List_calls: "rg \<rho> \<phi> (List_instances P) (\<lambda>_. True)"
  unfolding List_instances_def by (rule rg_bind [OF Claimed_law]) (auto intro!: guar_rules)

end

text \<open>The lifecycle operations on the default pool keep the rules of the host state machine.\<close>

lemma token_event_legal: "token_event e \<Longrightarrow> legal_event at e"
  by (cases e) auto

lemma phase_event_legal: "phase_event e \<Longrightarrow> legal_event at e"
  by (cases e) auto

interpretation lifecycle: instance_client "DefaultHostProvider E" "good at" "tracks at" "legal_event at"
  "DefaultBootstrapProvider E" E for at E
proof
  show "guar (legal_event at) (bp_CreateToken (DefaultBootstrapProvider E) ttl d)
      (\<lambda>r. \<forall>t. r = Inr t \<longrightarrow> CHR ''.'' \<in> set t)" for ttl d
    by (rule guar_weaken [OF tokens.CreateToken_law]) (auto simp: token_event_legal)
  show "guar (legal_event at) (bp_DeleteToken (DefaultBootstrapProvider E) t) (\<lambda>_. True)" for t
    by (rule guar_weaken [OF tokens.DeleteToken_law]) (auto simp: token_event_legal)
  show "guar (legal_event at) (bp_DeleteTokenByID (DefaultBootstrapProvider E) i) (\<lambda>_. True)" for i
    by (rule guar_weaken [OF tokens.DeleteTokenByID_law]) (auto simp: token_event_legal)
  show "guar (legal_event at) (bp_ClusterInfo (DefaultBootstrapProvider E) c) (\<lambda>_. True)" for c
    by (rule guar_weaken [OF tokens.ClusterInfo_law]) (auto simp: token_event_legal)
qed (simp_all add: phase_event_legal)

text \<open>C10. \<^bold>\<open>Create, Delete and Reboot keep the rules of the host state machine.\<close> As long as the reads
  of the operation return stored versions that obey the invariant, every status write it attempts
  is legal: it follows an edge of the state machine, keeps the invariant (a claim if and only if Claimed or
  InUse, no providerID without a claim), never moves a host from one NodeClaim to another, takes only Available hosts that are
  not under maintenance, and never replaces a pinned host key.\<close>

theorem lifecycle_writes_legal:
  "rg (good at) (legal_event at) (Create (DefaultHostProvider E) (DefaultBootstrapProvider E) E nodeClass nc its) (\<lambda>_. True) \<and>
   rg (good at) (legal_event at) (Delete (DefaultHostProvider E) (DefaultBootstrapProvider E) E nc) (\<lambda>_. True) \<and>
   rg (good at) (legal_event at) (Reboot (DefaultHostProvider E) E nc) (\<lambda>_. True)"
  using lifecycle.Create_calls lifecycle.Delete_calls lifecycle.Reboot_calls by blast

definition other_claim :: NodeClaim where
  "other_claim = \<lparr>nc_Name = ''pool-abc'', nc_UID = ''u1'', nc_Labels = [], nc_Annotations = [],
     nc_CreationTimestamp = 0, nc_Taints = [], nc_StartupTaints = [], nc_Requirements = [], nc_Requests = [],
     nc_NodeClassRef = None, nc_ProviderID = ''kpssh://kpssh-system/metal-1'', nc_NodeName = '''',
     nc_Capacity = [], nc_Allocatable = []\<rparr>"

definition claimed_host :: SSHHost where
  "claimed_host = sample_host\<lparr>Status := sample_status\<lparr>State' := InUse,
     ClaimRef := Some \<lparr>ref_Name = ''pool-abc'', ref_UID = ''u2''\<rparr>,
     ProviderID' := ''kpssh://kpssh-system/metal-1'', InstalledProfile := ''tls-bootstrap@2''\<rparr>\<rparr>"

subsection \<open>Delete and Reboot are fenced\<close>

text \<open>C16. \<^bold>\<open>A stale Delete or Reboot touches nothing.\<close> When the providerID resolves to a host that
  this NodeClaim does not hold (released, or since claimed by a successor), \<^verbatim>\<open>Delete\<close> and \<^verbatim>\<open>Reboot\<close>
  end with NodeClaimNotFoundError without a single further call: no leave, no reboot, no status
  write, no token deletion.\<close>

theorem stale_delete_harmless:
  assumes "run_state (hp_ByProviderID P (nc_ProviderID nc)) w = (Inr h, w1)" and "\<not> ClaimHeldBy h nc"
  shows "\<exists>e e'. run_state (Delete P B E nc) w = (Some (NodeClaimNotFoundError e), w1) \<and>
    run_state (Reboot P E nc) w = (Some (NodeClaimNotFoundError e'), w1)"
  using assms by (simp add: Delete_def Reboot_def split: option.splits)

theorem stale_delete_harmless_witness:
  "\<exists>e e' w. run_state (Delete (DefaultHostProvider (one_host_world claimed_host))
       (DefaultBootstrapProvider (one_host_world claimed_host)) (one_host_world claimed_host) other_claim) [] =
     (Some (NodeClaimNotFoundError e), w) \<and>
   run_state (Reboot (DefaultHostProvider (one_host_world claimed_host)) (one_host_world claimed_host) other_claim) [] =
     (Some (NodeClaimNotFoundError e'), w)"
proof -
  let ?E = "one_host_world claimed_host"
  have run: "run_state (hp_ByProviderID (DefaultHostProvider ?E) (nc_ProviderID other_claim)) [] =
      (Inr claimed_host, [GetHost (''kpssh-system'', ''metal-1'') (Inr claimed_host)])"
    by (simp add: ByProviderID_def ProviderPrefix_def CutPrefix_def SplitN2_def call_defs
        one_host_world_def claimed_host_def sample_host_def other_claim_def)
  have "\<not> ClaimHeldBy claimed_host other_claim"
    by (simp add: ClaimHeldBy_def claimed_host_def other_claim_def)
  from stale_delete_harmless [OF run this] show ?thesis by blast
qed

definition released :: "world \<Rightarrow> NodeClaim \<Rightarrow> event log \<Rightarrow> bool" where
  "released E nc w \<longleftrightarrow> (\<exists>h new r before. w = PatchHostStatus h new (Inr r) # before \<and> ClaimHeldBy h nc \<and>
     ClaimRef (Status new) = None \<and> ProviderID' (Status new) = '''' \<and> BootstrapTokenID (Status new) = '''' \<and>
     (State' (Status new) = Available \<and> ran_installed E h ''leave'' before \<or> State' (Status new) = Unhealthy))"

lemma Release_released:
  assumes "ClaimHeldBy h nc"
  shows "valid (\<lambda>w. ok \<longrightarrow> ran_installed E h ''leave'' w) (Release E h ok reason) (\<lambda>r w. fst r = None \<longrightarrow> released E nc w)"
  using assms
  by (auto simp: valid_def released_def Release_def casPatch_def call_defs release_status_def Let_def
      split: sum.splits)

lemma delete_token_keeps:
  "valid (\<lambda>w. ok \<longrightarrow> ran_installed E h phase w) (deleteBootstrapToken (DefaultBootstrapProvider E') h')
    (\<lambda>_ w. ok \<longrightarrow> ran_installed E h phase w)"
  by (auto simp: valid_def deleteBootstrapToken_def DeleteTokenByID_def call_defs split: option.splits
      intro: ran_installed_mono)

lemma Delete_valid:
  "valid (\<lambda>w. True) (Delete (DefaultHostProvider E) (DefaultBootstrapProvider E) E nc)
    (\<lambda>r w. r = None \<longrightarrow> released E nc w)"
proof -
  let ?B = "DefaultBootstrapProvider E"
  have leave: "valid (\<lambda>w. True) (if InstalledProfile (Status h) \<noteq> '''' then LeaveHost E h \<bind> (\<lambda>e. ret (e = None)) else ret False)
      (\<lambda>ok w. ok \<longrightarrow> ran_installed E h ''leave'' w)" for h
    by (auto intro!: valid_rules valid_bind [OF LeaveHost_runs])
  have rest: "valid (\<lambda>w. True) (do {
        leaveOK \<leftarrow> (if InstalledProfile (Status h) \<noteq> '''' then LeaveHost E h \<bind> (\<lambda>e. ret (e = None)) else ret False);
        deleteBootstrapToken ?B h;
        (e, h') \<leftarrow> Release E h leaveOK reason;
        ret (map_option Plain e) }) (\<lambda>r w. r = None \<longrightarrow> released E nc w)" if "ClaimHeldBy h nc" for h reason
    by (rule valid_bind [OF leave], rule valid_bind [OF delete_token_keeps], rule valid_bind [OF Release_released [OF that]])
       (auto intro!: valid_rules split: prod.splits)
  show ?thesis
    unfolding Delete_def default_sel
    by (rule valid_bind [where Q = "\<lambda>_ _. True"], simp add: valid_def,
        intro valid_case_sum valid_case_option valid_if valid_return rest) simp_all
qed

text \<open>C13. \<^bold>\<open>A Delete that succeeds has released the host.\<close> When \<^verbatim>\<open>Delete\<close> reports success, its last
  call is an accepted status patch on a host that the NodeClaim held, which clears the claim, the
  providerID and the token record. The host becomes Available only if the leave script of the profile that is recorded on
  it was run, on its own address, port and login, and succeeded; it is parked Unhealthy otherwise.\<close>

theorem Delete_releases:
  assumes "run_state (Delete (DefaultHostProvider E) (DefaultBootstrapProvider E) E nc) [] = (None, w')"
  shows "\<exists>h new r before. w' = PatchHostStatus h new (Inr r) # before \<and> ClaimHeldBy h nc \<and>
    ClaimRef (Status new) = None \<and> ProviderID' (Status new) = '''' \<and> BootstrapTokenID (Status new) = '''' \<and>
    (State' (Status new) = Available \<and>
       (\<exists>prof. GetProfile (hd (SplitN2 CHR ''@'' (InstalledProfile (Status h)))) (Inr prof) \<in> set before \<and>
          list_ex (runs_phase (w_Templates E) h prof ''leave'') before) \<or>
     State' (Status new) = Unhealthy)"
  using validD [OF Delete_valid TrueI assms] by (simp add: released_def ran_installed_def)

definition held_claim :: NodeClaim where
  "held_claim = other_claim\<lparr>nc_UID := ''u2''\<rparr>"

definition writable :: "world \<Rightarrow> world" where
  "writable E = E\<lparr>w_UpdateHostStatus := \<lambda>_ h. Inr h, w_PatchHostStatus := \<lambda>_ orig h. Inr h\<rparr>"

theorem Delete_releases_witness:
  "\<exists>w'. run_state (Delete (DefaultHostProvider (writable (ready_world claimed_host sample_profile)))
       (DefaultBootstrapProvider (writable (ready_world claimed_host sample_profile)))
       (writable (ready_world claimed_host sample_profile)) held_claim) [] = (None, w') \<and>
     (\<exists>h new r before. w' = PatchHostStatus h new (Inr r) # before \<and> ClaimRef (Status new) = None)"
proof -
  let ?E = "writable (ready_world claimed_host sample_profile)"
  let ?run = "run_state (Delete (DefaultHostProvider ?E) (DefaultBootstrapProvider ?E) ?E held_claim) []"
  have "fst ?run = None" by code_simp
  then obtain w' where run: "?run = (None, w')" by (metis prod.collapse)
  from Delete_releases [OF run] run show ?thesis by blast
qed

end
