(* ===== verification/Lifecycle.thy ===== *)
theory Lifecycle
  imports Instance
begin

section \<open>Properties of launches\<close>

text \<open>
  What a launch guarantees beyond the rules of the state machine: the order in which host classes
  are tried, what is adopted as a providerID, and the life of the bootstrap token minted for a join
  (recorded on the host before it is used, deleted when the launch fails).
\<close>

subsection \<open>Order of candidates\<close>

lemma cheapest_Min: "cheapest it = Min (insert MaxFloat64 (o_Price ` set (it_Offerings it)))"
proof -
  have "foldl (\<lambda>lowest ofr. min lowest (o_Price ofr)) m os = Min (insert m (o_Price ` set os))" for m os
  proof (induction os arbitrary: m)
    case (Cons ofr os)
    have "Min (insert (min m (o_Price ofr)) (o_Price ` set os)) = Min (insert m (insert (o_Price ofr) (o_Price ` set os)))"
      by (cases "set os = {}") (simp_all add: min.assoc min.left_commute)
    with Cons show ?case by simp
  qed simp
  then show ?thesis by (simp add: cheapest_def)
qed

text \<open>\<^bold>\<open>Classes are tried cheapest first.\<close> \<^verbatim>\<open>sortByPrice\<close> reorders the instance types by their
  lowest offering price, keeps each exactly as often, and keeps the given order among equally cheap
  ones; a type with no offering sorts as the largest float64.\<close>

theorem sortByPrice_correct:
  "mset (sortByPrice its) = mset its \<and>
   sorted (map (\<lambda>it. Min (insert MaxFloat64 (o_Price ` set (it_Offerings it)))) (sortByPrice its)) \<and>
   filter (\<lambda>it. cheapest it = p) (sortByPrice its) = filter (\<lambda>it. cheapest it = p) its"
  unfolding cheapest_Min [symmetric] by (simp add: sortByPrice_def sort_key_stable)

subsection \<open>Adoption\<close>

text \<open>A lookup by address that shows no providerID: it failed, or no listed Node has one.\<close>

definition silent :: "string \<Rightarrow> event \<Rightarrow> bool" where
  "silent ip e \<longleftrightarrow> (\<exists>a. e = ListNodes ip a \<and> (\<forall>nodes. a = Inr nodes \<longrightarrow> (\<forall>n \<in> set nodes. n_ProviderID n = '''')))"

definition shows_id :: "string \<Rightarrow> string \<Rightarrow> event \<Rightarrow> bool" where
  "shows_id ip pid e \<longleftrightarrow> pid \<noteq> '''' \<and> (\<exists>nodes. e = ListNodes ip (Inr nodes) \<and> pid \<in> n_ProviderID ` set nodes)"

lemma adopt_poll_run:
  assumes "run_state (adopt_poll E h) w = (r, w')"
  shows "\<exists>e. w' = e # w \<and> (case r of None \<Rightarrow> silent (NodeIP (Spec h)) e | Some pid \<Rightarrow> shows_id (NodeIP (Spec h)) pid e)"
  using assms
  by (auto simp: adopt_poll_def call_defs silent_def shows_id_def find_None_iff split: sum.splits option.splits dest!: find_SomeD)

lemma adopt_wait_run:
  assumes "run_state (adopt_wait E h n) w = (r, w')"
  shows "\<exists>e before. w' = e # before @ w \<and> list_all (silent (NodeIP (Spec h))) before \<and> length before \<le> n \<and>
    (case r of None \<Rightarrow> silent (NodeIP (Spec h)) e \<and> length before = n | Some pid \<Rightarrow> shows_id (NodeIP (Spec h)) pid e)"
  using assms
proof (induction n arbitrary: w)
  case 0
  then have "run_state (adopt_poll E h) w = (r, w')" by simp
  from adopt_poll_run [OF this] show ?case by (auto split: option.splits)
next
  case (Suc n)
  obtain p w1 where poll: "run_state (adopt_poll E h) w = (p, w1)" by (cases "run_state (adopt_poll E h) w")
  from adopt_poll_run [OF poll] obtain e where e: "w1 = e # w"
    "case p of None \<Rightarrow> silent (NodeIP (Spec h)) e | Some pid \<Rightarrow> shows_id (NodeIP (Spec h)) pid e" by blast
  show ?case
  proof (cases p)
    case (Some pid)
    with Suc.prems poll e show ?thesis by auto
  next
    case None
    with Suc.prems poll have "run_state (adopt_wait E h n) w1 = (r, w')" by simp
    from Suc.IH [OF this] obtain e' before where "w' = e' # before @ w1" "list_all (silent (NodeIP (Spec h))) before" "length before \<le> n"
      "case r of None \<Rightarrow> silent (NodeIP (Spec h)) e' \<and> length before = n | Some pid \<Rightarrow> shows_id (NodeIP (Spec h)) pid e'" by blast
    with e None show ?thesis by (intro exI [of _ e'] exI [of _ "before @ [e]"]) (auto split: option.splits)
  qed
qed

text \<open>C18. \<^bold>\<open>Adoption ends, and adopts only a providerID of a Node with the host's address.\<close> \<^verbatim>\<open>adoptProviderID\<close>
  makes at most one lookup more than the number of polls that fit in its deadline. It stops at the first
  lookup by the host's InternalIP that lists a Node with a providerID, and returns such an id, which is
  not empty; it fails only after every one of the lookups failed or showed none.\<close>

theorem adoptProviderID_sound:
  assumes "run_state (adoptProviderID E h) w = (r, w')"
  shows "\<exists>e before. w' = e # before @ w \<and> list_all (silent (NodeIP (Spec h))) before \<and> length before \<le> w_Polls E \<and>
    (case r of
       Inr pid \<Rightarrow> pid \<noteq> '''' \<and> (\<exists>nodes. e = ListNodes (NodeIP (Spec h)) (Inr nodes) \<and> pid \<in> n_ProviderID ` set nodes)
     | Inl _ \<Rightarrow> silent (NodeIP (Spec h)) e \<and> length before = w_Polls E)"
proof -
  obtain p w1 where run: "run_state (adopt_wait E h (w_Polls E)) w = (p, w1)"
    by (cases "run_state (adopt_wait E h (w_Polls E)) w")
  with assms have "w1 = w'" by (simp add: adoptProviderID_def)
  from adopt_wait_run [OF run] run assms show ?thesis
    by (cases p) (auto simp: adoptProviderID_def shows_id_def)
qed

definition hybrid_node :: Node where
  "hybrid_node = \<lparr>n_Name = ''mi-1'', n_ProviderID = ''eks-hybrid:///mi-1'', n_Taints = [],
     n_Addresses = [(''InternalIP'', ''10.0.0.1'')], n_Conditions = [], n_OwnerReferences = [],
     n_Deleted = False, n_CreationTimestamp = 0\<rparr>"

theorem adoptProviderID_sound_witness:
  "\<exists>w'. run_state (adoptProviderID (dead_world\<lparr>w_ListNodes := \<lambda>_ _. Inr [hybrid_node]\<rparr>) sample_host) [] =
     (Inr ''eks-hybrid:///mi-1'', w') \<and> length w' \<le> Suc (w_Polls dead_world)"
proof -
  let ?E = "dead_world\<lparr>w_ListNodes := \<lambda>_ _. Inr [hybrid_node]\<rparr>"
  have "fst (run_state (adoptProviderID ?E sample_host) []) = Inr ''eks-hybrid:///mi-1''" by code_simp
  then obtain w' where run: "run_state (adoptProviderID ?E sample_host) [] = (Inr ''eks-hybrid:///mi-1'', w')"
    by (metis prod.collapse)
  from adoptProviderID_sound [OF run] run show ?thesis by auto
qed

subsection \<open>The life of a bootstrap token\<close>

text \<open>The token Secrets created and not deleted since (a deletion that was asked for counts: a failed
  deletion is only logged).\<close>

fun token_step :: "event \<Rightarrow> string set \<Rightarrow> string set" where
  "token_step (CreateSecret s None) S = insert (so_Name s) S"
| "token_step (DeleteSecret ns n r) S = S - {n}"
| "token_step _ S = S"

fun outstanding :: "event log \<Rightarrow> string set" where
  "outstanding [] = {}"
| "outstanding (e # w) = token_step e (outstanding w)"

text \<open>Calls that create no Secret never add to the outstanding ones.\<close>

fun no_create :: "event \<Rightarrow> bool" where
  "no_create (CreateSecret s r) = False"
| "no_create _ = True"

lemma no_create_step: "no_create e \<Longrightarrow> S \<subseteq> T \<Longrightarrow> token_step e S \<subseteq> T"
  by (cases e) auto

lemma no_create_keeps: "guar no_create m (\<lambda>_. True) \<Longrightarrow> valid (\<lambda>w. outstanding w \<subseteq> S) m (\<lambda>_ w. outstanding w \<subseteq> S)"
  by (rule valid_weaken [OF guar_valid [where \<phi> = no_create and P = "\<lambda>w. outstanding w \<subseteq> S"]])
     (auto simp: no_create_step)

lemma phase_no_create: "guar phase_event m (\<lambda>_. True) \<Longrightarrow> guar no_create m (\<lambda>_. True)"
  by (erule guar_weaken) (auto elim: phase_event.elims)

lemma list_pool_no_create: "guar no_create (list_pool E sel) (\<lambda>_. True)"
  by (auto simp: list_pool_def call_defs intro!: guar_rules)

lemma setStatus_no_create: "guar no_create (setStatus E h f) (\<lambda>_. True)"
  unfolding setStatus_def
  by (rule RetryOnConflict_calls)
     (auto simp: set_status_once_def casPatch_def call_defs intro!: guar_rules)

lemma DeleteToken_no_create: "guar no_create (DeleteToken E t) (\<lambda>_. True)"
  by (auto simp: DeleteToken_def DeleteTokenByID_def call_defs intro!: guar_rules)

text \<open>The format bootstraputil documents: an id, a dot, a secret, the id not empty.\<close>

definition well_formed :: "string \<Rightarrow> bool" where
  "well_formed t \<longleftrightarrow> CHR ''.'' \<in> set t \<and> TokenID t \<noteq> ''''"

definition token_format :: "world \<Rightarrow> bool" where
  "token_format E \<longleftrightarrow> (\<forall>w t. w_GenerateToken E w = Inr t \<longrightarrow> well_formed t)"

lemma well_formed_Cut: "well_formed t \<Longrightarrow> \<exists>sec. Cut CHR ''.'' t = Some (TokenID t, sec)"
  using Cut_None [of "CHR ''.''" t] by (auto simp: well_formed_def TokenID_def split: option.splits)

abbreviation token_name :: "world \<Rightarrow> string \<Rightarrow> string" where
  "token_name E t \<equiv> w_TokenSecretName E (TokenID t)"

text \<open>Deleting a well-formed token takes its Secret off the list, whatever the API answers.\<close>

lemma DeleteToken_collects:
  assumes "well_formed t"
  shows "valid (\<lambda>w. outstanding w \<subseteq> insert (token_name E t) S) (DeleteToken E t) (\<lambda>_ w. outstanding w \<subseteq> S)"
  using well_formed_Cut [OF assms] assms
  by (auto simp: valid_def DeleteToken_def DeleteTokenByID_def call_defs well_formed_def split: option.splits)

lemma deleteToken_collects:
  assumes "well_formed t"
  shows "valid (\<lambda>w. outstanding w \<subseteq> insert (token_name E t) S)
    (deleteToken (DefaultHostProvider E) (DefaultBootstrapProvider E) h t) (\<lambda>_ w. outstanding w \<subseteq> S)"
  unfolding deleteToken_def default_bootstrap_sel default_sel SetBootstrapTokenID_def
  by (rule valid_bind [OF DeleteToken_collects [OF assms]])
     (auto intro!: valid_rules valid_bind [OF no_create_keeps [OF setStatus_no_create]] split: prod.splits)

lemma CreateToken_adds:
  assumes "token_format E"
  shows "valid (\<lambda>w. outstanding w \<subseteq> S) (CreateToken E ttl d)
    (\<lambda>r w. case r of Inl e \<Rightarrow> outstanding w \<subseteq> S
       | Inr t \<Rightarrow> well_formed t \<and> outstanding w \<subseteq> insert (token_name E t) S)"
  using assms
  by (auto simp: valid_def CreateToken_def call_defs token_format_def TokenID_def [of "_ @ _"] token_secret_def
      split: option.splits sum.splits dest!: Cut_SomeD)

text \<open>The outcome of the token part of a join.\<close>

definition token_outcome :: "world \<Rightarrow> string set \<Rightarrow> err option \<times> SSHHost \<Rightarrow> event log \<Rightarrow> bool" where
  "token_outcome E S r w \<longleftrightarrow>
     (if fst r = None then \<exists>t. well_formed t \<and> outstanding w \<subseteq> insert (token_name E t) S
      else outstanding w \<subseteq> S)"

lemma join_token_collects:
  assumes "token_format E"
  shows "valid (\<lambda>w. outstanding w \<subseteq> S)
    (join_token (DefaultHostProvider E) (DefaultBootstrapProvider E) E nc h prof target pctx) (token_outcome E S)"
proof -
  let ?P = "DefaultHostProvider E" and ?B = "DefaultBootstrapProvider E"
  have fail: "valid (\<lambda>w. outstanding w \<subseteq> insert (token_name E t) S)
      (do { h' \<leftarrow> deleteToken ?P ?B h t; ret (Some e, h') }) (token_outcome E S)" if "well_formed t" for t h e
    by (rule valid_bind [OF deleteToken_collects [OF that]]) (auto intro!: valid_rules simp: token_outcome_def)
  have phase: "valid (\<lambda>w. outstanding w \<subseteq> T) (runPhase E d target h prof phase ctx env) (\<lambda>_ w. outstanding w \<subseteq> T)" for T d h phase ctx env
    by (rule no_create_keeps [OF phase_no_create [OF runPhase_calls]])
  have obs: "valid (\<lambda>w. outstanding w \<subseteq> T) (ObservePhase ph x) (\<lambda>_ w. outstanding w \<subseteq> T)" for T ph x
    by (simp add: valid_def call_defs)
  have set: "valid (\<lambda>w. outstanding w \<subseteq> T) (SetBootstrapTokenID E h t) (\<lambda>_ w. outstanding w \<subseteq> T)" for T h t
    unfolding SetBootstrapTokenID_def by (rule no_create_keeps [OF setStatus_no_create])
  show ?thesis
    unfolding join_token_def Let_def default_sel default_bootstrap_sel
  proof (rule valid_bind [OF CreateToken_adds [OF assms]], goal_cases)
    case (1 r)
    show ?case
    proof (cases r)
      case (Inl e)
      then show ?thesis by (auto intro!: valid_return simp: token_outcome_def)
    next
      case (Inr t)
      have ok: "valid (\<lambda>w. outstanding w \<subseteq> insert (token_name E t) S) (ret (None, h1)) (token_outcome E S)"
        if "well_formed t" for h1
        using that by (auto intro!: valid_return simp: token_outcome_def)
      show ?thesis
        unfolding Inr sum.case
        by (rule valid_pure, intro valid_case_sum valid_case_option valid_case_prod fail
              valid_bind [OF set] valid_bind [OF phase] valid_bind [OF obs] ok) simp_all
    qed
  qed
qed

lemma join_collects:
  assumes "token_format E"
  shows "valid (\<lambda>w. outstanding w \<subseteq> S)
    (join (DefaultHostProvider E) (DefaultBootstrapProvider E) E nodeClass nc h) (token_outcome E S)"
proof -
  let ?P = "DefaultHostProvider E" and ?B = "DefaultBootstrapProvider E"
  have info: "guar no_create (GetClusterInfo E c) (\<lambda>_. True)" for c
    by (auto simp: GetClusterInfo_def call_defs Let_def intro!: guar_rules)
  have config: "guar no_create (join_config ?B E nodeClass nc h) (\<lambda>_. True)"
    unfolding join_config_def sshTarget_def join_secrets_def default_bootstrap_sel
    by (auto simp: call_defs intro!: guar_rules info [unfolded call_defs]
        phase_no_create [OF ReadSSHCredentials_calls, unfolded call_defs])
  have install: "guar no_create (join_install ?P E h prof target pctx env) (\<lambda>_. True)" for prof target pctx env
    unfolding join_install_def default_sel SetInstalled_def
    by (auto simp: call_defs intro!: guar_rules setStatus_no_create [unfolded call_defs]
        phase_no_create [OF runPhase_calls, unfolded call_defs])
  show ?thesis
    unfolding join_def
    by (rule valid_bind [OF no_create_keeps [OF config]],
        intro valid_case_sum valid_case_option valid_case_prod valid_return
          valid_bind [OF no_create_keeps [OF install]] join_token_collects [OF assms])
       (auto simp: token_outcome_def)
qed

text \<open>C17. \<^bold>\<open>A failed join leaves no token behind.\<close> For a token generator that keeps the documented
  format: when \<^verbatim>\<open>join\<close> fails, for whatever reason and at whatever point, the deletion of every
  bootstrap token Secret it created has been asked for; when it succeeds, at most the one token of
  this join is left.\<close>

theorem failed_join_leaves_no_token:
  assumes "token_format E"
    and "run_state (join (DefaultHostProvider E) (DefaultBootstrapProvider E) E nodeClass nc h) w = ((r, h'), w')"
  shows "if r = None then \<exists>t. outstanding w' \<subseteq> insert (w_TokenSecretName E (TokenID t)) (outstanding w)
    else outstanding w' \<subseteq> outstanding w"
  using validD [OF join_collects [OF assms(1), of "outstanding w"] subset_refl assms(2)]
  by (auto simp: token_outcome_def split: if_splits)

definition plain_class :: SSHNodeClass where
  "plain_class = \<lparr>ncl_Name = ''metal'', ncl_Generation = 1, ncl_Finalizers = [], ncl_Deleted = False,
     ncl_Spec = \<lparr>HostSelector = None, JoinProfileRef = ''tls-bootstrap'', Vars' = [], JoinSecretRef = None,
       ProviderIDSource' = Static, PricePerCPUHour = '''', KubeReserved = [], MaxPods = None,
       Cluster = Some \<lparr>Endpoint = ''https://api:6443'', CABundle = ''ca''\<rparr>, StartupTaintGates = []\<rparr>,
     ncl_Conditions = []\<rparr>"

definition joining_host :: SSHHost where
  "joining_host = sample_host\<lparr>Status := sample_status\<lparr>State' := Claimed,
     ClaimRef := Some \<lparr>ref_Name = ''pool-abc'', ref_UID = ''u2''\<rparr>, InstalledProfile := ''tls-bootstrap@2''\<rparr>\<rparr>"

definition failing_world :: world where
  "failing_world = (writable (ready_world joining_host sample_profile))
     \<lparr>w_Exec := \<lambda>_ _ _ _ _. Inl (ExitErr 1 ''kubeadm failed'')\<rparr>"

theorem failed_join_leaves_no_token_witness:
  "\<exists>e h' w'. run_state (join (DefaultHostProvider failing_world) (DefaultBootstrapProvider failing_world)
       failing_world plain_class held_claim joining_host) [] = ((Some e, h'), w') \<and>
     list_ex (\<lambda>ev. case ev of CreateSecret _ None \<Rightarrow> True | _ \<Rightarrow> False) w' \<and> outstanding w' = {}"
proof -
  let ?run = "run_state (join (DefaultHostProvider failing_world) (DefaultBootstrapProvider failing_world)
    failing_world plain_class held_claim joining_host) []"
  have fmt: "token_format failing_world"
    by (simp add: token_format_def failing_world_def writable_def ready_world_def well_formed_def TokenID_def)
  have "fst (fst ?run) \<noteq> None" by code_simp
  then obtain e h' w' where run: "?run = ((Some e, h'), w')" by (metis not_None_eq prod.collapse)
  have "list_ex (\<lambda>ev. case ev of CreateSecret _ None \<Rightarrow> True | _ \<Rightarrow> False) (snd ?run)" by code_simp
  with run failed_join_leaves_no_token [OF fmt run] show ?thesis by simp
qed

text \<open>A launch that is resumed (its host already claimed, with the token of the first attempt on
  record) mints a second token and overwrites the record of the first one, which nothing deletes.\<close>

definition resumed_host :: SSHHost where
  "resumed_host = with_status (\<lambda>s. s\<lparr>BootstrapTokenID := ''old111''\<rparr>) joining_host"

definition resumed_run :: "(cloud_err + Instance) \<times> event log" where
  "resumed_run = (let E = writable (ready_world resumed_host sample_profile) in
     run_state (Create (DefaultHostProvider E) (DefaultBootstrapProvider E) E plain_class held_claim []) [])"

lemma resume_orphans_token:
  "(case fst resumed_run of Inl _ \<Rightarrow> False | Inr _ \<Rightarrow> True) \<and>
   list_ex (\<lambda>e. case e of PatchHostStatus orig new (Inr _) \<Rightarrow>
       BootstrapTokenID (Status orig) = ''old111'' \<and> BootstrapTokenID (Status new) = ''abcdef'' | _ \<Rightarrow> False) (snd resumed_run) \<and>
   \<not> list_ex (\<lambda>e. case e of DeleteSecret _ _ _ \<Rightarrow> True | _ \<Rightarrow> False) (snd resumed_run)"
  by code_simp

end
