(* ===== verification/InstanceTypes.thy ===== *)
theory InstanceTypes
  imports Lifecycle "HOL-Library.AList"
begin

section \<open>Instance types from the pool: pkg/providers/instancetype/instancetype.go\<close>

text \<open>
  One instance type per host class. The loop over the hosts builds a map from class names to
  \<open>classInfo\<close>, here an association list; the second loop visits the classes in an order the runtime
  chooses, \<open>w_MapOrder\<close>. The theorems say what a class advertises: a capacity that every member can
  deliver and that is the largest such, an architecture that all probed members have, and
  availability when some member can be claimed.
\<close>

definition PoolZone :: string where "PoolZone = ''pool''"

text \<open>\<^verbatim>\<open>const defaultPricePerCPUHour = 0.02\<close>: the float64 nearest to it.\<close>

definition defaultPricePerCPUHour :: float64 where
  "defaultPricePerCPUHour = 5764607523034235 * 2 ^ (1074 - 58)"

definition defaultMaxPods :: int where "defaultMaxPods = 110"

definition defaultKubeReserved :: ResourceList where
  "defaultKubeReserved = [(''cpu'', 80 * 10 ^ 6), (''memory'', NewQuantity (300 * 1024 * 1024))]"

definition LabelInstanceTypeStable :: string where "LabelInstanceTypeStable = ''node.kubernetes.io/instance-type''"
definition LabelArchStable :: string where "LabelArchStable = ''kubernetes.io/arch''"
definition LabelOSStable :: string where "LabelOSStable = ''kubernetes.io/os''"
definition LabelTopologyZone :: string where "LabelTopologyZone = ''topology.kubernetes.io/zone''"
definition CapacityTypeLabelKey :: string where "CapacityTypeLabelKey = ''karpenter.sh/capacity-type''"
definition CapacityTypeOnDemand :: string where "CapacityTypeOnDemand = ''on-demand''"
definition ResourcePods :: string where "ResourcePods = ''pods''"

record classInfo =
  ci_name :: string
  ci_capacity :: ResourceList
  ci_arch :: string
  ci_mixedArch :: bool
  ci_available :: int
  ci_total :: int

definition usableCapacity :: "ResourceList \<Rightarrow> bool" where
  "usableCapacity c \<longleftrightarrow> quantity c ''cpu'' > 0 \<and> quantity c ''memory'' > 0"

fun minCapacity :: "ResourceList \<Rightarrow> ResourceList \<Rightarrow> ResourceList" where
  "minCapacity [] b = []"
| "minCapacity ((name, qa) # a) b =
     (case map_of b name of
        None \<Rightarrow> minCapacity a b
      | Some qb \<Rightarrow> (name, if qb < qa then qb else qa) # minCapacity a b)"

definition withPods :: "ResourceList \<Rightarrow> int option \<Rightarrow> ResourceList" where
  "withPods c maxPods =
     (case maxPods of
        Some n \<Rightarrow> AList.update ResourcePods (NewQuantity n) c
      | None \<Rightarrow> if map_of c ResourcePods = None then AList.update ResourcePods (NewQuantity defaultMaxPods) c else c)"

definition note_arch :: "string \<Rightarrow> classInfo \<Rightarrow> classInfo" where
  "note_arch arch ci =
     (if arch = '''' then ci
      else if ci_arch ci = '''' then ci\<lparr>ci_arch := arch\<rparr>
      else if ci_arch ci \<noteq> arch then ci\<lparr>ci_mixedArch := True\<rparr>
      else ci)"

definition counted :: "SSHHost \<Rightarrow> classInfo \<Rightarrow> classInfo" where
  "counted h ci =
     (let ci' = ci\<lparr>ci_total := ci_total ci + 1\<rparr> in
      if State' (Status h) = Available \<and> ClaimRef (Status h) = None
      then ci'\<lparr>ci_available := ci_available ci + 1\<rparr> else ci')"

definition add_host :: "int option \<Rightarrow> SSHHost \<Rightarrow> (string \<times> classInfo) list \<Rightarrow> (string \<times> classInfo) list" where
  "add_host maxPods h classes =
     (if \<not> usableCapacity (Capacity (Spec h)) then classes
      else
        let cls = HostClass h;
            capacity = withPods (Capacity (Spec h)) maxPods;
            ci = (case map_of classes cls of
                    None \<Rightarrow> \<lparr>ci_name = cls, ci_capacity = capacity, ci_arch = '''', ci_mixedArch = False,
                      ci_available = 0, ci_total = 0\<rparr>
                  | Some ci \<Rightarrow> ci\<lparr>ci_capacity := minCapacity (ci_capacity ci) capacity\<rparr>)
        in AList.update cls (counted h (note_arch (ObservedArch (Status h)) ci)) classes)"

definition classes_of :: "int option \<Rightarrow> SSHHost list \<Rightarrow> (string \<times> classInfo) list" where
  "classes_of maxPods hosts = fold (add_host maxPods) hosts []"

definition price_of :: "world \<Rightarrow> SSHNodeClass \<Rightarrow> err + float64" where
  "price_of E nodeClass =
     (let v = PricePerCPUHour (ncl_Spec nodeClass) in
      if v = '''' then Inr defaultPricePerCPUHour
      else case w_ParseFloat E v of
          Inl e \<Rightarrow> Inl (Wrapf (''invalid pricePerCPUHour '' @ Quote v @ '' on nodeClass '' @ ncl_Name nodeClass @ '': '') e)
        | Inr f \<Rightarrow> Inr f)"

definition to_type :: "world \<Rightarrow> float64 \<Rightarrow> ResourceList \<Rightarrow> classInfo \<Rightarrow> InstanceType" where
  "to_type E pricePerCPU kubeReserved ci =
     \<lparr>it_Name = ci_name ci,
      it_Requirements = [(LabelInstanceTypeStable, [ci_name ci]), (LabelArchStable, [ci_arch ci]),
        (LabelOSStable, [''linux'']), (LabelTopologyZone, [PoolZone]), (CapacityTypeLabelKey, [CapacityTypeOnDemand])],
      it_Offerings = [\<lparr>o_Price = w_CPUPrice E pricePerCPU (quantity (ci_capacity ci) ''cpu''),
        o_Available = (ci_available ci > 0),
        o_Requirements = [(LabelInstanceTypeStable, [ci_name ci]), (LabelTopologyZone, [PoolZone]),
          (CapacityTypeLabelKey, [CapacityTypeOnDemand])]\<rparr>],
      it_Capacity = ci_capacity ci, it_KubeReserved = kubeReserved\<rparr>"

definition advertised :: "classInfo \<Rightarrow> bool" where
  "advertised ci \<longleftrightarrow> ci_arch ci \<noteq> '''' \<and> \<not> ci_mixedArch ci"

definition kube_reserved :: "SSHNodeClass \<Rightarrow> ResourceList" where
  "kube_reserved nodeClass =
     (if KubeReserved (ncl_Spec nodeClass) \<noteq> [] then KubeReserved (ncl_Spec nodeClass) else defaultKubeReserved)"

definition ListTypes :: "host_provider \<Rightarrow> world \<Rightarrow> SSHNodeClass \<Rightarrow> (err + InstanceType list) io" where
  "ListTypes P E nodeClass = do {
     r \<leftarrow> hp_All P (HostSelector (ncl_Spec nodeClass));
     ret (case r of
            Inl e \<Rightarrow> Inl e
          | Inr hosts \<Rightarrow>
              (let classes = classes_of (MaxPods (ncl_Spec nodeClass)) hosts in
               case price_of E nodeClass of
                 Inl e \<Rightarrow> Inl e
               | Inr pricePerCPU \<Rightarrow>
                   (let visited = map (\<lambda>k. the (map_of classes k)) (w_MapOrder E (map fst classes))
                    in Inr (map (to_type E pricePerCPU (kube_reserved nodeClass)) (filter advertised visited))))) }"

subsection \<open>What a class sums up\<close>

text \<open>The capacity a host counts with, and what the class information says about the members.\<close>

definition members :: "string \<Rightarrow> SSHHost list \<Rightarrow> SSHHost list" where
  "members c hs = filter (\<lambda>h. usableCapacity (Capacity (Spec h)) \<and> HostClass h = c) hs"

definition cap :: "int option \<Rightarrow> SSHHost \<Rightarrow> string \<Rightarrow> Quantity option" where
  "cap mp h = map_of (withPods (Capacity (Spec h)) mp)"

text \<open>\<open>q\<close> is the least amount of the resource \<open>r\<close> among the hosts, all of which have it.\<close>

definition least_of :: "int option \<Rightarrow> SSHHost list \<Rightarrow> string \<Rightarrow> Quantity \<Rightarrow> bool" where
  "least_of mp hs r q \<longleftrightarrow> (\<exists>h \<in> set hs. cap mp h r = Some q) \<and> (\<forall>h \<in> set hs. \<exists>q'. cap mp h r = Some q' \<and> q \<le> q')"

definition archs :: "SSHHost list \<Rightarrow> string set" where
  "archs hs = (\<lambda>h. ObservedArch (Status h)) ` set hs - {''''}"

text \<open>What the class information says about the architectures of the members: one of them, and
  whether there is a second one.\<close>

definition arch_ok :: "SSHHost list \<Rightarrow> string \<Rightarrow> bool \<Rightarrow> bool" where
  "arch_ok hs a mixed \<longleftrightarrow>
     (if mixed then a \<in> archs hs \<and> (\<exists>b \<in> archs hs. b \<noteq> a) else archs hs = {a} - {''''})"

definition sums_up :: "int option \<Rightarrow> string \<Rightarrow> SSHHost list \<Rightarrow> classInfo \<Rightarrow> bool" where
  "sums_up mp c hs ci \<longleftrightarrow> ci_name ci = c \<and> hs \<noteq> [] \<and>
     (\<forall>r q. map_of (ci_capacity ci) r = Some q \<longleftrightarrow> least_of mp hs r q) \<and>
     arch_ok hs (ci_arch ci) (ci_mixedArch ci) \<and>
     ci_available ci = int (length (filter (\<lambda>h. State' (Status h) = Available \<and> ClaimRef (Status h) = None) hs)) \<and>
     ci_total ci = int (length hs)"

lemma minCapacity_map: "map_of (minCapacity a b) r = (case (map_of a r, map_of b r) of
    (Some x, Some y) \<Rightarrow> Some (min x y) | _ \<Rightarrow> None)"
  by (induction a b rule: minCapacity.induct) (auto split: option.splits)

lemma least_exists:
  assumes "hs \<noteq> []" and "\<forall>h \<in> set hs. cap mp h r \<noteq> None"
  shows "\<exists>x. least_of mp hs r x"
proof -
  let ?S = "(\<lambda>h. the (cap mp h r)) ` set hs"
  have "Min ?S \<in> ?S" using assms(1) by (intro Min_in) auto
  then obtain h where "h \<in> set hs" "cap mp h r = Some (Min ?S)" using assms(2) by force
  moreover have "\<exists>q'. cap mp k r = Some q' \<and> Min ?S \<le> q'" if "k \<in> set hs" for k
  proof -
    from that assms(2) obtain q where "cap mp k r = Some q" by blast
    moreover have "Min ?S \<le> the (cap mp k r)" using that by (intro Min_le) auto
    ultimately show ?thesis by auto
  qed
  ultimately show ?thesis unfolding least_of_def by blast
qed

lemma least_of_unique: "least_of mp hs r x \<Longrightarrow> least_of mp hs r y \<Longrightarrow> x = y"
  unfolding least_of_def by fastforce

lemma least_of_single: "least_of mp [h] r q \<longleftrightarrow> cap mp h r = Some q"
  by (auto simp: least_of_def)

lemma least_of_snoc:
  assumes "hs \<noteq> []"
  shows "least_of mp (hs @ [h]) r q \<longleftrightarrow> (\<exists>x y. least_of mp hs r x \<and> cap mp h r = Some y \<and> q = min x y)"
proof
  assume l: "least_of mp (hs @ [h]) r q"
  then have "\<forall>k \<in> set hs. cap mp k r \<noteq> None" by (auto simp: least_of_def)
  then obtain x where x: "least_of mp hs r x" using least_exists assms by blast
  from l obtain y where y: "cap mp h r = Some y" by (auto simp: least_of_def)
  have "least_of mp (hs @ [h]) r (min x y)" using x y by (fastforce simp: least_of_def min_def)
  with l have "q = min x y" by (rule least_of_unique)
  with x y show "\<exists>x y. least_of mp hs r x \<and> cap mp h r = Some y \<and> q = min x y" by blast
next
  assume "\<exists>x y. least_of mp hs r x \<and> cap mp h r = Some y \<and> q = min x y"
  then show "least_of mp (hs @ [h]) r q" by (fastforce simp: least_of_def min_def)
qed

lemma archs_snoc: "archs (hs @ [h]) = archs hs \<union> ({ObservedArch (Status h)} - {''''})"
  by (auto simp: archs_def)

lemma note_arch_sel [simp]:
  "ci_name (note_arch a ci) = ci_name ci" "ci_capacity (note_arch a ci) = ci_capacity ci"
  "ci_available (note_arch a ci) = ci_available ci" "ci_total (note_arch a ci) = ci_total ci"
  by (simp_all add: note_arch_def)

lemma counted_sel [simp]:
  "ci_name (counted h ci) = ci_name ci" "ci_capacity (counted h ci) = ci_capacity ci"
  "ci_arch (counted h ci) = ci_arch ci" "ci_mixedArch (counted h ci) = ci_mixedArch ci"
  "ci_total (counted h ci) = ci_total ci + 1"
  by (simp_all add: counted_def Let_def)

lemma note_arch_ok:
  assumes ok: "arch_ok hs (ci_arch ci) (ci_mixedArch ci)"
  shows "arch_ok (hs @ [h]) (ci_arch (note_arch (ObservedArch (Status h)) ci))
    (ci_mixedArch (note_arch (ObservedArch (Status h)) ci))"
proof -
  let ?a = "ObservedArch (Status h)"
  have ne: "'''' \<notin> archs hs" by (simp add: archs_def)
  consider "?a = ''''" | "?a \<noteq> ''''" "ci_arch ci = ''''" | "?a \<noteq> ''''" "ci_arch ci \<noteq> ''''" "ci_arch ci \<noteq> ?a"
    | "?a \<noteq> ''''" "ci_arch ci = ?a" by blast
  then show ?thesis
  proof cases
    case 1
    with ok show ?thesis by (simp add: arch_ok_def archs_snoc note_arch_def)
  next
    case 2
    with ok ne show ?thesis by (auto simp: arch_ok_def archs_snoc note_arch_def split: if_splits)
  next
    case 3
    with ok show ?thesis by (auto simp: arch_ok_def archs_snoc note_arch_def split: if_splits)
  next
    case 4
    with ok show ?thesis by (auto simp: arch_ok_def archs_snoc note_arch_def split: if_splits)
  qed
qed

lemma sums_up_step:
  assumes "sums_up mp c hs ci"
  shows "sums_up mp c (hs @ [h]) (counted h (note_arch (ObservedArch (Status h))
    (ci\<lparr>ci_capacity := minCapacity (ci_capacity ci) (withPods (Capacity (Spec h)) mp)\<rparr>)))"
proof -
  let ?ci = "ci\<lparr>ci_capacity := minCapacity (ci_capacity ci) (withPods (Capacity (Spec h)) mp)\<rparr>"
  have ne: "hs \<noteq> []" and capa: "\<And>r q. map_of (ci_capacity ci) r = Some q \<longleftrightarrow> least_of mp hs r q"
    using assms by (auto simp: sums_up_def)
  have "map_of (ci_capacity ?ci) r = Some q \<longleftrightarrow> least_of mp (hs @ [h]) r q" for r q
    unfolding least_of_snoc [OF ne] capa [symmetric]
    by (auto simp: minCapacity_map cap_def split: option.splits)
  moreover note note_arch_ok [of hs ?ci h]
  ultimately show ?thesis
    using assms unfolding sums_up_def by (simp add: counted_def Let_def)
qed

lemma sums_up_first:
  "sums_up mp c [h] (counted h (note_arch (ObservedArch (Status h))
    \<lparr>ci_name = c, ci_capacity = withPods (Capacity (Spec h)) mp, ci_arch = '''', ci_mixedArch = False,
     ci_available = 0, ci_total = 0\<rparr>))"
  by (simp add: sums_up_def least_of_single cap_def counted_def note_arch_def arch_ok_def archs_def Let_def)

lemma members_snoc:
  "members c (hs @ [h]) = members c hs @ (if usableCapacity (Capacity (Spec h)) \<and> HostClass h = c then [h] else [])"
  by (simp add: members_def)

lemma classes_of_correct:
  "distinct (map fst (classes_of mp hs)) \<and>
   (\<forall>c. case map_of (classes_of mp hs) c of None \<Rightarrow> members c hs = [] | Some ci \<Rightarrow> sums_up mp c (members c hs) ci)"
proof (induction hs rule: rev_induct)
  case Nil
  show ?case by (simp add: classes_of_def members_def)
next
  case (snoc h hs)
  let ?cs = "classes_of mp hs"
  have step: "classes_of mp (hs @ [h]) = add_host mp h ?cs" by (simp add: classes_of_def)
  show ?case
  proof (cases "usableCapacity (Capacity (Spec h))")
    case False
    then have eq: "members c (hs @ [h]) = members c hs" for c by (simp add: members_snoc)
    show ?thesis using False snoc unfolding step eq by (simp add: add_host_def)
  next
    case True
    have "case map_of (add_host mp h ?cs) c of None \<Rightarrow> members c (hs @ [h]) = []
        | Some ci \<Rightarrow> sums_up mp c (members c (hs @ [h])) ci" for c
    proof (cases "c = HostClass h")
      case False
      with True have same: "map_of (add_host mp h ?cs) c = map_of ?cs c" "members c (hs @ [h]) = members c hs"
        by (simp_all add: add_host_def members_snoc Let_def update_conv')
      show ?thesis using snoc unfolding same by blast
    next
      case c: True
      have IH: "case map_of ?cs c of None \<Rightarrow> members c hs = [] | Some ci \<Rightarrow> sums_up mp c (members c hs) ci"
        using snoc by blast
      show ?thesis
      proof (cases "map_of ?cs c")
        case None
        with IH True c sums_up_first [of mp c h] show ?thesis
          by (simp add: add_host_def members_snoc Let_def update_conv')
      next
        case (Some ci)
        with IH have "sums_up mp c (members c hs) ci" by simp
        from sums_up_step [OF this, of h] Some True c show ?thesis
          by (simp add: add_host_def members_snoc Let_def update_conv')
      qed
    qed
    moreover have "distinct (map fst (add_host mp h ?cs))"
      using snoc by (simp add: add_host_def Let_def distinct_update)
    ultimately show ?thesis unfolding step by blast
  qed
qed

text \<open>The Go runtime visits each key of a map once.\<close>

definition visits_all :: "world \<Rightarrow> bool" where
  "visits_all E \<longleftrightarrow> (\<forall>ks. mset (w_MapOrder E ks) = mset ks)"

lemma visited_set:
  assumes "visits_all E"
  shows "set (map (\<lambda>k. the (map_of cs k)) (w_MapOrder E (map fst cs))) = ran (map_of cs)"
proof -
  have "set (w_MapOrder E (map fst cs)) = dom (map_of cs)"
    using assms unfolding visits_all_def by (metis dom_map_of_conv_image_fst list.set_map set_mset_mset)
  then show ?thesis by (force simp: ran_def)
qed

lemma ListTypes_result:
  assumes "visits_all E" and "run_state (ListTypes (DefaultHostProvider E) E nodeClass) w = (Inr its, w')"
  obtains hosts price where "w' = ListHosts (w_PoolNamespace E) (HostSelector (ncl_Spec nodeClass)) (Inr hosts) # w"
    and "set its = to_type E price (kube_reserved nodeClass) ` {ci. advertised ci \<and>
      (\<exists>c. map_of (classes_of (MaxPods (ncl_Spec nodeClass)) hosts) c = Some ci)}"
proof -
  let ?cs = "classes_of (MaxPods (ncl_Spec nodeClass))"
  from assms(2) obtain hosts price
    where log: "w' = ListHosts (w_PoolNamespace E) (HostSelector (ncl_Spec nodeClass)) (Inr hosts) # w"
    and its: "its = map (to_type E price (kube_reserved nodeClass)) (filter advertised
      (map (\<lambda>k. the (map_of (?cs hosts) k)) (w_MapOrder E (map fst (?cs hosts)))))"
    by (auto simp: ListTypes_def All_def list_pool_def call_defs Let_def simp del: map_map split: option.splits sum.splits)
  have "set its = to_type E price (kube_reserved nodeClass) ` {ci \<in> ran (map_of (?cs hosts)). advertised ci}"
    unfolding its set_map set_filter visited_set [OF assms(1), unfolded set_map] ..
  also have "{ci \<in> ran (map_of (?cs hosts)). advertised ci} = {ci. advertised ci \<and> (\<exists>c. map_of (?cs hosts) c = Some ci)}"
    by (auto simp: ran_def)
  finally show thesis using that log by blast
qed

lemma class_sums: "map_of (classes_of mp hs) c = Some ci \<Longrightarrow> sums_up mp c (members c hs) ci"
  using classes_of_correct [of mp hs] by (auto split: option.splits)

lemma class_absent: "map_of (classes_of mp hs) c = None \<Longrightarrow> members c hs = []"
  using classes_of_correct [of mp hs] by (metis (mono_tags, lifting) option.simps(4))

text \<open>C20. \<^bold>\<open>An instance type promises what every host of its class can deliver, and no less.\<close> For
  every advertised type and every resource, the advertised amount is at most what any usable host
  of the class has (its declared capacity, with the pod limit of the node class), some host of the
  class has exactly this amount, and a resource that all of them have is advertised.\<close>

theorem capacity_deliverable:
  assumes "visits_all E"
    and "run_state (ListTypes (DefaultHostProvider E) E nodeClass) w = (Inr its, w')" and "it \<in> set its"
  shows "\<exists>hosts. w' = ListHosts (w_PoolNamespace E) (HostSelector (ncl_Spec nodeClass)) (Inr hosts) # w \<and>
    (\<forall>r q. map_of (it_Capacity it) r = Some q \<longleftrightarrow>
       (\<exists>h \<in> set (members (it_Name it) hosts). cap (MaxPods (ncl_Spec nodeClass)) h r = Some q) \<and>
       (\<forall>h \<in> set (members (it_Name it) hosts). \<exists>q'. cap (MaxPods (ncl_Spec nodeClass)) h r = Some q' \<and> q \<le> q'))"
proof -
  from assms(1,2) obtain hosts price
    where log: "w' = ListHosts (w_PoolNamespace E) (HostSelector (ncl_Spec nodeClass)) (Inr hosts) # w"
    and its: "set its = to_type E price (kube_reserved nodeClass) ` {ci. advertised ci \<and>
      (\<exists>c. map_of (classes_of (MaxPods (ncl_Spec nodeClass)) hosts) c = Some ci)}" by (rule ListTypes_result)
  from its assms(3) obtain ci c where "it = to_type E price (kube_reserved nodeClass) ci"
    and "map_of (classes_of (MaxPods (ncl_Spec nodeClass)) hosts) c = Some ci" by blast
  with class_sums [OF this(2)] log show ?thesis by (auto simp: to_type_def sums_up_def least_of_def)
qed

lemma two_members: "a \<in> A \<Longrightarrow> b \<in> A \<Longrightarrow> b \<noteq> a \<Longrightarrow> A \<noteq> {x}"
  by (cases "a = x") auto

lemma sums_up_arch:
  assumes "sums_up mp c hs ci"
  shows "advertised ci \<longleftrightarrow> (\<exists>a. archs hs = {a})" and "advertised ci \<Longrightarrow> archs hs = {ci_arch ci}"
proof -
  have ne: "'''' \<notin> archs hs" by (simp add: archs_def)
  from assms have ok: "arch_ok hs (ci_arch ci) (ci_mixedArch ci)" by (simp add: sums_up_def)
  show "advertised ci \<longleftrightarrow> (\<exists>a. archs hs = {a})"
  proof (cases "ci_mixedArch ci")
    case True
    with ok have "ci_arch ci \<in> archs hs \<and> (\<exists>b \<in> archs hs. b \<noteq> ci_arch ci)" unfolding arch_ok_def by simp
    then have "archs hs \<noteq> {a}" for a by (elim conjE bexE) (rule two_members)
    with True show ?thesis by (simp add: advertised_def)
  next
    case False
    with ok have eq: "archs hs = {ci_arch ci} - {''''}" by (simp add: arch_ok_def)
    show ?thesis unfolding eq using False by (cases "ci_arch ci = ''''") (simp_all add: advertised_def)
  qed
  show "archs hs = {ci_arch ci}" if "advertised ci"
  proof -
    from that ok have "archs hs = {ci_arch ci} - {''''}" and "ci_arch ci \<noteq> ''''"
      by (simp_all add: advertised_def arch_ok_def)
    then show ?thesis by simp
  qed
qed

lemma sums_up_available:
  "sums_up mp c hs ci \<Longrightarrow> ci_available ci > 0 \<longleftrightarrow> (\<exists>h \<in> set hs. State' (Status h) = Available \<and> ClaimRef (Status h) = None)"
  by (auto simp: sums_up_def filter_empty_conv)

text \<open>C21. \<^bold>\<open>Which classes are advertised.\<close> A class is advertised exactly when one of its usable hosts
  has been probed and all probed ones have the same architecture; the type then requires this
  architecture, and its offering is available exactly when some host of the class is Available and
  unclaimed.\<close>

theorem advertised_classes:
  assumes "visits_all E"
    and "run_state (ListTypes (DefaultHostProvider E) E nodeClass) w = (Inr its, w')"
  shows "\<exists>hosts. w' = ListHosts (w_PoolNamespace E) (HostSelector (ncl_Spec nodeClass)) (Inr hosts) # w \<and>
    (\<forall>c. c \<in> it_Name ` set its \<longleftrightarrow> (\<exists>a. archs (members c hosts) = {a})) \<and>
    (\<forall>it \<in> set its. \<exists>a. archs (members (it_Name it) hosts) = {a} \<and>
       map_of (it_Requirements it) LabelArchStable = Some [a] \<and>
       (list_ex o_Available (it_Offerings it) \<longleftrightarrow>
         (\<exists>h \<in> set (members (it_Name it) hosts). State' (Status h) = Available \<and> ClaimRef (Status h) = None)))"
proof -
  let ?mp = "MaxPods (ncl_Spec nodeClass)"
  from assms obtain hosts price
    where log: "w' = ListHosts (w_PoolNamespace E) (HostSelector (ncl_Spec nodeClass)) (Inr hosts) # w"
    and its: "set its = to_type E price (kube_reserved nodeClass) ` {ci. advertised ci \<and>
      (\<exists>c. map_of (classes_of ?mp hosts) c = Some ci)}" by (rule ListTypes_result)
  have "c \<in> it_Name ` set its \<longleftrightarrow> (\<exists>a. archs (members c hosts) = {a})" for c
  proof (cases "map_of (classes_of ?mp hosts) c")
    case None
    have "archs (members c hosts) = {}" by (simp add: class_absent [OF None] archs_def)
    moreover have "c \<notin> it_Name ` set its"
      using None class_sums unfolding its by (fastforce simp: to_type_def sums_up_def)
    ultimately show ?thesis by simp
  next
    case (Some ci)
    have "c \<in> it_Name ` set its \<longleftrightarrow> advertised ci"
      using Some class_sums unfolding its by (fastforce simp: to_type_def sums_up_def image_iff)
    with sums_up_arch(1) [OF class_sums [OF Some]] show ?thesis by simp
  qed
  moreover have "\<exists>a. archs (members (it_Name it) hosts) = {a} \<and>
       map_of (it_Requirements it) LabelArchStable = Some [a] \<and>
       (list_ex o_Available (it_Offerings it) \<longleftrightarrow>
         (\<exists>h \<in> set (members (it_Name it) hosts). State' (Status h) = Available \<and> ClaimRef (Status h) = None))"
    if it: "it \<in> set its" for it
  proof -
    from it its obtain ci c where ci: "it = to_type E price (kube_reserved nodeClass) ci" "advertised ci"
      "map_of (classes_of ?mp hosts) c = Some ci" by blast
    note sums = class_sums [OF ci(3)]
    then have "it_Name it = c" using ci(1) by (simp add: to_type_def sums_up_def)
    with sums_up_arch(2) [OF sums ci(2)] sums_up_available [OF sums] ci(1) show ?thesis
      by (intro exI [of _ "ci_arch ci"]) (simp add: to_type_def LabelArchStable_def LabelInstanceTypeStable_def)
  qed
  ultimately show ?thesis using log by blast
qed

subsection \<open>A pool of two hosts\<close>

definition small_host :: SSHHost where
  "small_host = sample_host\<lparr>h_Name := ''metal-2'', Spec := (Spec sample_host)\<lparr>Capacity := [(''cpu'', 2000000000), (''memory'', 8000000000)]\<rparr>\<rparr>"

definition two_hosts :: world where
  "two_hosts = dead_world\<lparr>w_ListHosts := \<lambda>_ _ _. Inr [sample_host, small_host]\<rparr>"

definition two_types :: "err + InstanceType list" where
  "two_types = fst (run_state (ListTypes (DefaultHostProvider two_hosts) two_hosts plain_class) [])"

lemma two_types_run:
  "\<exists>it w'. run_state (ListTypes (DefaultHostProvider two_hosts) two_hosts plain_class) [] = (Inr [it], w') \<and>
     it_Name it = ''default'' \<and> map_of (it_Capacity it) ''cpu'' = Some 2000000000"
proof -
  have "case two_types of Inr [it] \<Rightarrow> it_Name it = ''default'' \<and> map_of (it_Capacity it) ''cpu'' = Some 2000000000 | _ \<Rightarrow> False"
    by code_simp
  then show ?thesis unfolding two_types_def
    by (cases "run_state (ListTypes (DefaultHostProvider two_hosts) two_hosts plain_class) []")
       (auto split: sum.splits list.splits)
qed

lemma two_hosts_visits: "visits_all two_hosts"
  by (simp add: visits_all_def two_hosts_def dead_world_def)

theorem capacity_deliverable_witness:
  "\<exists>it w'. run_state (ListTypes (DefaultHostProvider two_hosts) two_hosts plain_class) [] = (Inr [it], w') \<and>
     map_of (it_Capacity it) ''cpu'' = Some 2000000000 \<and>
     (\<exists>hosts. w' = [ListHosts (w_PoolNamespace two_hosts) None (Inr hosts)] \<and>
       (\<exists>h \<in> set (members ''default'' hosts). cap None h ''cpu'' = Some 2000000000))"
proof -
  obtain it w' where run: "run_state (ListTypes (DefaultHostProvider two_hosts) two_hosts plain_class) [] = (Inr [it], w')"
    and it: "it_Name it = ''default''" "map_of (it_Capacity it) ''cpu'' = Some 2000000000"
    using two_types_run by blast
  have spec: "HostSelector (ncl_Spec plain_class) = None" "MaxPods (ncl_Spec plain_class) = None"
    by (simp_all add: plain_class_def)
  from capacity_deliverable [OF two_hosts_visits run] it have
    "\<exists>hosts. w' = [ListHosts (w_PoolNamespace two_hosts) None (Inr hosts)] \<and>
       (\<exists>h \<in> set (members ''default'' hosts). cap None h ''cpu'' = Some 2000000000)"
    unfolding spec by fastforce
  with run it show ?thesis by blast
qed

theorem advertised_classes_witness:
  "\<exists>it w'. run_state (ListTypes (DefaultHostProvider two_hosts) two_hosts plain_class) [] = (Inr [it], w') \<and>
     (\<exists>hosts. w' = [ListHosts (w_PoolNamespace two_hosts) None (Inr hosts)] \<and> (\<exists>a. archs (members ''default'' hosts) = {a}))"
proof -
  obtain it w' where run: "run_state (ListTypes (DefaultHostProvider two_hosts) two_hosts plain_class) [] = (Inr [it], w')"
    and it: "it_Name it = ''default''" using two_types_run by blast
  have spec: "HostSelector (ncl_Spec plain_class) = None" by (simp add: plain_class_def)
  from advertised_classes [OF two_hosts_visits run] it run show ?thesis unfolding spec by fastforce
qed

end
