(* ===== verification/JoinHash.thy ===== *)
theory JoinHash
  imports ApiTypes Codec SshExec
begin

section \<open>The node class hash: JoinHash of pkg/apis/v1beta1/sshnodeclass_types.go\<close>

text \<open>
  \<^verbatim>\<open>JoinHash\<close> digests the JSON text of the join-affecting fields. The JSON encoder of the standard
  library is modelled as far as these fields need it: strings and objects, a map's keys sorted,
  empty fields omitted. The theorem says that the digested text determines the fields and nothing
  else enters it.
\<close>

subsection \<open>JSON strings\<close>

definition cont :: "char \<Rightarrow> bool" where
  "cont c \<longleftrightarrow> 0x80 \<le> (of_char c :: nat) \<and> (of_char c :: nat) \<le> 0xBF"

definition within :: "char \<Rightarrow> nat \<Rightarrow> nat \<Rightarrow> bool" where
  "within c l u \<longleftrightarrow> l \<le> of_char c \<and> of_char c \<le> u"

text \<open>The encodings of the runes of more than one byte, and the length of the one at the start of a
  string, 0 when there is none (\<^verbatim>\<open>utf8.DecodeRune\<close> returns \<^verbatim>\<open>RuneError\<close>).\<close>

fun is_rune :: "string \<Rightarrow> bool" where
  "is_rune [a, b] \<longleftrightarrow> within a 0xC2 0xDF \<and> cont b"
| "is_rune [a, b, c] \<longleftrightarrow> cont c \<and> (within a 0xE0 0xE0 \<and> within b 0xA0 0xBF \<or> within a 0xE1 0xEC \<and> cont b \<or>
     within a 0xED 0xED \<and> within b 0x80 0x9F \<or> within a 0xEE 0xEF \<and> cont b)"
| "is_rune [a, b, c, d] \<longleftrightarrow> cont c \<and> cont d \<and> (within a 0xF0 0xF0 \<and> within b 0x90 0xBF \<or>
     within a 0xF1 0xF3 \<and> cont b \<or> within a 0xF4 0xF4 \<and> within b 0x80 0x8F)"
| "is_rune _ = False"

definition rune_len :: "string \<Rightarrow> nat" where
  "rune_len s = (if is_rune (take 2 s) then 2 else if is_rune (take 3 s) then 3 else if is_rune (take 4 s) then 4 else 0)"

definition json_u :: "nat \<Rightarrow> string" where
  "json_u n = [CHR 0x5C, CHR ''u'', hex_digit (n div 4096 mod 16), hex_digit (n div 256 mod 16),
     hex_digit (n div 16 mod 16), hex_digit (n mod 16)]"

definition json_char :: "char \<Rightarrow> string" where
  "json_char c =
     (if c = CHR 0x22 \<or> c = CHR 0x5C then [CHR 0x5C, c]
      else if c = CHR 0x08 then [CHR 0x5C, CHR ''b'']
      else if c = CHR 0x0C then [CHR 0x5C, CHR ''f'']
      else if c = CHR 0x0A then [CHR 0x5C, CHR ''n'']
      else if c = CHR 0x0D then [CHR 0x5C, CHR ''r'']
      else if c = CHR 0x09 then [CHR 0x5C, CHR ''t'']
      else if of_char c < (0x20 :: nat) \<or> c = CHR ''<'' \<or> c = CHR ''>'' \<or> c = CHR ''&'' then json_u (of_char c)
      else [c])"

definition line_sep :: string where "line_sep = [CHR 0xE2, CHR 0x80, CHR 0xA8]"
definition par_sep :: string where "par_sep = [CHR 0xE2, CHR 0x80, CHR 0xA9]"

function (sequential) json_chars :: "string \<Rightarrow> string" where
  "json_chars [] = []"
| "json_chars (c # s) =
     (if of_char c < (0x80 :: nat) then json_char c @ json_chars s
      else let n = rune_len (c # s) in
        if n = 0 then json_u 0xFFFD @ json_chars s
        else let r = take n (c # s) in
          (if r = line_sep then json_u 0x2028 else if r = par_sep then json_u 0x2029 else r) @
          json_chars (drop n (c # s)))"
  by pat_completeness auto
termination
  by (relation "measure length") (auto simp: drop_Cons split: nat.splits)

definition json_string :: "string \<Rightarrow> string" where
  "json_string s = CHR 0x22 # json_chars s @ [CHR 0x22]"

function (sequential) valid_utf8 :: "string \<Rightarrow> bool" where
  "valid_utf8 [] = True"
| "valid_utf8 (c # s) =
     (if of_char c < (0x80 :: nat) then valid_utf8 s
      else if rune_len (c # s) = 0 then False else valid_utf8 (drop (rune_len (c # s)) (c # s)))"
  by pat_completeness auto
termination
  by (relation "measure length") (auto simp: drop_Cons split: nat.splits)

text \<open>The reader that undoes the escapes, up to the closing quote.\<close>

definition hex_val :: "char \<Rightarrow> nat" where
  "hex_val c = (let n = of_char c in if n < 58 then n - 48 else n - 87)"

definition unescape_u :: "nat \<Rightarrow> string" where
  "unescape_u n = (if n < 0x80 then [char_of n] else if n = 0x2028 then line_sep else par_sep)"

definition unescape :: "char \<Rightarrow> char" where
  "unescape c = (if c = CHR ''b'' then CHR 0x08 else if c = CHR ''f'' then CHR 0x0C else if c = CHR ''n'' then CHR 0x0A
     else if c = CHR ''r'' then CHR 0x0D else if c = CHR ''t'' then CHR 0x09 else c)"

fun json_read :: "string \<Rightarrow> (string \<times> string) option" where
  "json_read [] = None"
| "json_read (c # s) =
     (if c = CHR 0x22 then Some ([], s)
      else if c \<noteq> CHR 0x5C then map_option (\<lambda>(x, r). (c # x, r)) (json_read s)
      else (case s of
         u # p # q # x # y # s' \<Rightarrow>
           if u = CHR ''u'' then map_option (\<lambda>(z, r). (unescape_u (4096 * hex_val p + 256 * hex_val q + 16 * hex_val x + hex_val y) @ z, r)) (json_read s')
           else map_option (\<lambda>(z, r). (unescape u # z, r)) (json_read (p # q # x # y # s'))
       | u # s' \<Rightarrow> map_option (\<lambda>(z, r). (unescape u # z, r)) (json_read s')
       | [] \<Rightarrow> None))"

abbreviation prepend :: "string \<Rightarrow> (string \<times> string) option \<Rightarrow> (string \<times> string) option" where
  "prepend x \<equiv> map_option (\<lambda>(z, r). (x @ z, r))"

lemma prepend_prepend: "prepend x (prepend y m) = prepend (x @ y) m"
  by (cases m) auto

lemma high_bytes: "cont c \<Longrightarrow> 0x80 \<le> (of_char c :: nat)" "within c l u \<Longrightarrow> 0x80 \<le> l \<Longrightarrow> 0x80 \<le> (of_char c :: nat)"
  by (simp_all add: cont_def within_def)

lemma is_rune_bytes: "is_rune r \<Longrightarrow> list_all (\<lambda>c. 0x80 \<le> (of_char c :: nat)) r"
  by (induction r rule: is_rune.induct) (auto dest: high_bytes)

lemma rune_bytes: "list_all (\<lambda>c. 0x80 \<le> (of_char c :: nat)) (take (rune_len s) s)"
  by (simp add: rune_len_def is_rune_bytes)

lemma json_read_high:
  "list_all (\<lambda>c. 0x80 \<le> (of_char c :: nat)) xs \<Longrightarrow> json_read (xs @ t) = prepend xs (json_read t)"
proof (induction xs)
  case Nil
  show ?case by (cases "json_read t") auto
next
  case (Cons c xs)
  then have "c \<noteq> CHR 0x22" "c \<noteq> CHR 0x5C" by auto
  with Cons show ?case by (cases "json_read t") auto
qed

lemma hex_val_digit: "n < 16 \<Longrightarrow> hex_val (hex_digit n) = n"
  by (simp add: hex_val_def hex_digit_def Let_def of_char_of take_bit_eq_mod)

lemma json_read_u:
  assumes "n < 65536"
  shows "json_read (json_u n @ t) = prepend (unescape_u n) (json_read t)"
proof -
  have lt: "n div 4096 < 16" using assms by (simp add: less_mult_imp_div_less)
  have "16 * (n div 16) + n mod 16 = n" "16 * (n div 256) + n div 16 mod 16 = n div 16"
    "16 * (n div 4096) + n div 256 mod 16 = n div 256"
    using mult_div_mod_eq [of 16 n] mult_div_mod_eq [of 16 "n div 16"] mult_div_mod_eq [of 16 "n div 256"]
    by (simp_all add: div_mult2_eq [symmetric])
  then have "4096 * (n div 4096) + 256 * (n div 256 mod 16) + 16 * (n div 16 mod 16) + n mod 16 = n" by linarith
  with lt show ?thesis by (simp add: json_u_def hex_val_digit)
qed

lemma json_read_short: "u \<noteq> CHR ''u'' \<Longrightarrow> json_read (CHR 0x5C # u # t) = prepend [unescape u] (json_read t)"
  by (auto split: list.splits)

lemma json_read_char:
  assumes "of_char c < (0x80 :: nat)"
  shows "json_read (json_char c @ t) = prepend [c] (json_read t)"
proof (cases "c \<in> {CHR 0x22, CHR 0x5C, CHR 0x08, CHR 0x0C, CHR 0x0A, CHR 0x0D, CHR 0x09}")
  case True
  then show ?thesis by (auto simp: json_char_def json_read_short unescape_def simp del: json_read.simps)
next
  case False
  then have "json_char c = json_u (of_char c) \<or> json_char c = [c]" by (simp add: json_char_def)
  with False assms show ?thesis by (auto simp: json_read_u unescape_u_def)
qed

lemma json_read_chars:
  "valid_utf8 s \<Longrightarrow> json_read (json_chars s @ t) = prepend s (json_read t)"
proof (induction s rule: json_chars.induct)
  case 1
  show ?case by (cases "json_read t") auto
next
  case (2 c s)
  show ?case
  proof (cases "of_char c < (0x80 :: nat)")
    case True
    with 2 have "json_read (json_chars (c # s) @ t) = prepend [c] (prepend s (json_read t))"
      by (simp add: json_read_char del: append_Cons)
    then show ?thesis unfolding prepend_prepend by simp
  next
    case False
    let ?n = "rune_len (c # s)"
    let ?r = "take ?n (c # s)" and ?rest = "drop ?n (c # s)"
    from False 2(4) have n: "?n \<noteq> 0" and v: "valid_utf8 ?rest" by (simp_all split: if_splits)
    have ih: "json_read (json_chars ?rest @ t) = prepend ?rest (json_read t)"
      using 2(3) [OF False refl n refl v] .
    let ?e = "if ?r = line_sep then json_u 0x2028 else if ?r = par_sep then json_u 0x2029 else ?r"
    have "json_read (?e @ x) = prepend ?r (json_read x)" for x
      using json_read_high [OF rune_bytes [of "c # s"]] by (simp add: json_read_u unescape_u_def del: take_Suc_Cons)
    moreover have "json_chars (c # s) = ?e @ json_chars ?rest" using False n by (simp add: Let_def)
    ultimately have "json_read (json_chars (c # s) @ t) = prepend ?r (prepend ?rest (json_read t))"
      using ih by simp
    then show ?thesis unfolding prepend_prepend append_take_drop_id .
  qed
qed

definition json_unstring :: "string \<Rightarrow> (string \<times> string) option" where
  "json_unstring s = (case s of [] \<Rightarrow> None | c # r \<Rightarrow> if c = CHR 0x22 then json_read r else None)"

interpretation json: prefix_codec json_string json_unstring valid_utf8
  by unfold_locales (simp add: json_unstring_def json_string_def json_read_chars)

subsection \<open>JSON values\<close>

datatype json = JString string | JObject "(string \<times> json) list"

fun json_text :: "json \<Rightarrow> string" where
  "json_text (JString s) = json_string s"
| "json_text (JObject ms) = CHR ''{'' # Join (map (\<lambda>(k, v). json_string k @ '':'' @ json_text v) ms) '','' @ ''}''"

fun all_utf8 :: "json \<Rightarrow> bool" where
  "all_utf8 (JString s) = valid_utf8 s"
| "all_utf8 (JObject ms) = list_all (\<lambda>(k, v). valid_utf8 k \<and> all_utf8 v) ms"

abbreviation member :: "string \<times> json \<Rightarrow> string" where
  "member \<equiv> \<lambda>(k, v). json_string k @ '':'' @ json_text v"

definition members_text :: "(string \<times> json) list \<Rightarrow> string \<Rightarrow> string" where
  "members_text ms s = Join (map member ms) '','' @ CHR ''}'' # s"

definition members_tail :: "(string \<times> json) list \<Rightarrow> string \<Rightarrow> string" where
  "members_tail ms s = (if ms = [] then CHR ''}'' # s else CHR '','' # members_text ms s)"

lemma members_text_simps:
  "members_text [] s = CHR ''}'' # s"
  "members_text ((k, v) # ms) s = json_string k @ '':'' @ json_text v @ members_tail ms s"
  by (simp_all add: members_text_def members_tail_def) (cases ms; simp)

lemma members_text_quote: "hd (members_text ((k, v) # ms) s) = CHR 0x22"
  unfolding members_text_simps by (simp add: json_string_def)

lemma members_inject:
  assumes ih: "\<And>k v w s t. (k, v) \<in> set ms \<Longrightarrow> all_utf8 v \<Longrightarrow> all_utf8 w \<Longrightarrow>
      json_text v @ s = json_text w @ t \<Longrightarrow> v = w \<and> s = t"
    and "all_utf8 (JObject ms)" and "all_utf8 (JObject ns)" and "members_text ms s = members_text ns t"
  shows "ms = ns \<and> s = t"
  using assms
proof (induction ms arbitrary: ns)
  case Nil
  show ?case
  proof (cases ns)
    case Nil
    with \<open>members_text [] s = members_text ns t\<close> show ?thesis by (simp add: members_text_simps(1))
  next
    case (Cons n ns')
    obtain k v where "n = (k, v)" by (cases n)
    with Cons arg_cong [OF \<open>members_text [] s = members_text ns t\<close>, of hd] show ?thesis
      by (simp add: members_text_simps(1) members_text_quote)
  qed
next
  case (Cons m ms)
  obtain k v where m: "m = (k, v)" by (cases m)
  from arg_cong [OF Cons.prems(4), of hd] obtain k' w ns' where ns: "ns = (k', w) # ns'"
    by (cases ns) (auto simp: m members_text_simps(1) members_text_quote)
  from Cons.prems(4) have "json_string k @ '':'' @ json_text v @ members_tail ms s =
      json_string k' @ '':'' @ json_text w @ members_tail ns' t"
    unfolding ns m members_text_simps .
  with Cons.prems(2,3) have "k = k'" and tails: "json_text v @ members_tail ms s = json_text w @ members_tail ns' t"
    by (simp_all add: json.penc_append_inject m ns)
  from tails Cons.prems(1) [of k v w] Cons.prems(2,3) have "v = w" and "members_tail ms s = members_tail ns' t"
    by (simp_all add: m ns)
  moreover from this(2) have "members_text ms s = members_text ns' t"
    by (auto simp: members_tail_def members_text_simps(1) split: if_splits)
  then have "ms = ns' \<and> s = t"
    using Cons.prems(1-3) by (intro Cons.IH) (blast intro: list.set_intros(2), simp_all add: ns)
  ultimately show ?case using \<open>k = k'\<close> by (simp add: m ns)
qed

lemma json_text_object: "json_text (JObject ms) @ s = CHR ''{'' # members_text ms s"
  by (simp add: members_text_def)

lemma json_text_inject:
  "all_utf8 x \<Longrightarrow> all_utf8 y \<Longrightarrow> json_text x @ s = json_text y @ t \<Longrightarrow> x = y \<and> s = t"
proof (induction x arbitrary: y s t rule: json_text.induct)
  case (1 x)
  show ?case
  proof (cases y)
    case (JString z)
    with 1 show ?thesis by (simp add: json.penc_append_inject)
  next
    case (JObject ns)
    with 1(3) show ?thesis by (simp add: json_string_def)
  qed
next
  case (2 ms)
  show ?case
  proof (cases y)
    case (JString z)
    with 2(4) show ?thesis by (simp add: json_string_def)
  next
    case (JObject ns)
    from 2(4) have "members_text ms s = members_text ns t" unfolding JObject json_text_object by simp
    then have "ms = ns \<and> s = t"
      using members_inject [of ms ns s t] 2(1) [OF _ refl] 2(2,3) unfolding JObject by blast
    with JObject show ?thesis by simp
  qed
qed

lemma ascii_utf8: "list_all (\<lambda>c. of_char c < (0x80 :: nat)) s \<Longrightarrow> valid_utf8 s"
  by (induction s) auto

lemma b64_ascii: "list_all (\<lambda>c. of_char c < (0x80 :: nat)) (b64_encode s)"
proof -
  have "of_char (b64_char n) < (0x80 :: nat)" if "n < 64" for n
    using that by (auto simp: b64_char_def of_char_of take_bit_eq_mod)
  then show ?thesis by (induction s rule: b64_encode.induct) simp_all
qed

subsection \<open>JoinHash\<close>

definition omitempty :: "string \<Rightarrow> string \<Rightarrow> (string \<times> json) list" where
  "omitempty name v = (if v = '''' then [] else [(name, JString v)])"

fun show_source :: "ProviderIDSource \<Rightarrow> string" where
  "show_source SourceUnset = ''''"
| "show_source Static = ''Static''"
| "show_source Adopt = ''Adopt''"

definition vars_object :: "(string \<times> string) list \<Rightarrow> json" where
  "vars_object vars = JObject (map (\<lambda>(k, v). (k, JString v)) (sort_key fst vars))"

definition ref_object :: "string \<Rightarrow> json" where
  "ref_object n = JObject (omitempty ''name'' n)"

definition cluster_object :: "ClusterAccess \<Rightarrow> json" where
  "cluster_object c = JObject ((''endpoint'', JString (Endpoint c)) # omitempty ''caBundle'' (b64_encode (CABundle c)))"

definition join_object :: "SSHNodeClassSpec \<Rightarrow> json" where
  "join_object spec = JObject
     ((if Vars' spec = [] then [] else [(''vars'', vars_object (Vars' spec))]) @
      (case JoinSecretRef spec of None \<Rightarrow> [] | Some n \<Rightarrow> [(''joinSecretRef'', ref_object n)]) @
      omitempty ''providerIDSource'' (show_source (ProviderIDSource' spec)) @
      (case Cluster spec of None \<Rightarrow> [] | Some c \<Rightarrow> [(''cluster'', cluster_object c)]))"

definition hex_EncodeToString :: "string \<Rightarrow> string" where
  "hex_EncodeToString s = concat (map (\<lambda>c. [hex_digit (of_char c div 16), hex_digit (of_char c mod 16)]) s)"

definition JoinHash :: "'k ssh_lib \<Rightarrow> SSHNodeClass \<Rightarrow> string" where
  "JoinHash L n = hex_EncodeToString (take 8 (sha256_Sum256 L (json_text (join_object (ncl_Spec n)))))"

subsection \<open>What the hash depends on\<close>

text \<open>What the API server stores: a map has each key once, every string is valid UTF-8.\<close>

definition stored_spec :: "SSHNodeClassSpec \<Rightarrow> bool" where
  "stored_spec spec \<longleftrightarrow> distinct (map fst (Vars' spec)) \<and>
     list_all (\<lambda>(k, v). valid_utf8 k \<and> valid_utf8 v) (Vars' spec) \<and>
     (case JoinSecretRef spec of None \<Rightarrow> True | Some n \<Rightarrow> valid_utf8 n) \<and> (case Cluster spec of None \<Rightarrow> True | Some c \<Rightarrow> valid_utf8 (Endpoint c))"

definition same_join :: "SSHNodeClassSpec \<Rightarrow> SSHNodeClassSpec \<Rightarrow> bool" where
  "same_join a b \<longleftrightarrow> map_of (Vars' a) = map_of (Vars' b) \<and> JoinSecretRef a = JoinSecretRef b \<and>
     ProviderIDSource' a = ProviderIDSource' b \<and> Cluster a = Cluster b"

lemma sort_vars_eq:
  assumes "distinct (map fst a)" and "distinct (map fst b)"
  shows "sort_key fst a = sort_key fst b \<longleftrightarrow> map_of a = map_of b"
proof
  assume "sort_key fst a = sort_key fst b"
  then have "set a = set b" by (metis set_sort)
  with assms show "map_of a = map_of b" by (metis map_of_eq_Some_iff map_of_inject_set)
next
  assume "map_of a = map_of b"
  with assms have "set a = set b" by (metis map_of_inject_set)
  with assms have "mset a = mset b" by (metis distinct_mapD set_eq_iff_mset_eq_distinct)
  with assms show "sort_key fst a = sort_key fst b"
    by (intro sorted_key_unique [where f = fst]) (simp_all add: distinct_map)
qed

lemma vars_object_eq:
  assumes "distinct (map fst a)" and "distinct (map fst b)"
  shows "vars_object a = vars_object b \<longleftrightarrow> map_of a = map_of b"
proof -
  have "inj (\<lambda>(k, v). (k :: string, JString v))" by (auto simp: inj_def)
  then have "vars_object a = vars_object b \<longleftrightarrow> sort_key fst a = sort_key fst b"
    by (simp add: vars_object_def inj_map_eq_map)
  with sort_vars_eq [OF assms] show ?thesis by simp
qed

lemma source_eq: "show_source a = show_source b \<longleftrightarrow> a = b"
  by (cases a; cases b) simp_all

lemma ref_object_eq: "ref_object a = ref_object b \<longleftrightarrow> a = b"
  by (simp add: ref_object_def omitempty_def)

lemma cluster_object_eq: "cluster_object a = cluster_object b \<longleftrightarrow> a = b"
  by (cases a; cases b) (auto simp: cluster_object_def omitempty_def b64.enc_inject)

lemma join_object_eq:
  assumes "stored_spec a" and "stored_spec b"
  shows "join_object a = join_object b \<longleftrightarrow> same_join a b"
proof -
  have vars: "vars_object (Vars' a) = vars_object (Vars' b) \<longleftrightarrow> map_of (Vars' a) = map_of (Vars' b)"
    using assms vars_object_eq by (simp add: stored_spec_def)
  have empty: "Vars' a = [] \<longleftrightarrow> Vars' b = []" if "map_of (Vars' a) = map_of (Vars' b)"
    using that by (metis map_of_eq_empty_iff)
  define members where "members = (\<lambda>j. case j of JObject ms \<Rightarrow> map_of ms | JString _ \<Rightarrow> Map.empty)"
  have lookups: "members (join_object c) ''vars'' = (if Vars' c = [] then None else Some (vars_object (Vars' c)))"
    "members (join_object c) ''joinSecretRef'' = map_option ref_object (JoinSecretRef c)"
    "members (join_object c) ''providerIDSource'' =
       (if show_source (ProviderIDSource' c) = '''' then None else Some (JString (show_source (ProviderIDSource' c))))"
    "members (join_object c) ''cluster'' = map_option cluster_object (Cluster c)" for c
    by (simp_all add: members_def join_object_def omitempty_def map_add_def split: option.splits)
  have inj: "map_option ref_object x = map_option ref_object y \<longleftrightarrow> x = y" "map_option cluster_object u = map_option cluster_object v \<longleftrightarrow> u = v" for x y u v
    by (cases x; cases y; simp add: ref_object_eq) (cases u; cases v; simp add: cluster_object_eq)
  show ?thesis
  proof
    assume "join_object a = join_object b"
    then have "members (join_object a) k = members (join_object b) k" for k by simp
    from this [of "''vars''"] this [of "''joinSecretRef''"] this [of "''providerIDSource''"] this [of "''cluster''"]
    show "same_join a b" unfolding lookups inj same_join_def source_eq [symmetric] vars [symmetric]
      by (simp split: if_splits)
  next
    assume "same_join a b"
    with vars empty show "join_object a = join_object b" by (simp add: same_join_def join_object_def)
  qed
qed

lemma join_object_utf8: "stored_spec spec \<Longrightarrow> all_utf8 (join_object spec)"
proof -
  have ascii: "valid_utf8 ''vars''" "valid_utf8 ''joinSecretRef''" "valid_utf8 ''providerIDSource''" "valid_utf8 ''cluster''"
    "valid_utf8 ''name''" "valid_utf8 ''endpoint''" "valid_utf8 ''caBundle''" "valid_utf8 (show_source p)"
    "valid_utf8 (b64_encode x)" for p x
    by (auto intro!: ascii_utf8 simp: b64_ascii) (cases p; simp)
  assume "stored_spec spec"
  with ascii show ?thesis
    by (auto simp: stored_spec_def join_object_def vars_object_def ref_object_def cluster_object_def omitempty_def
        list_all_iff split: option.splits)
qed

text \<open>C23. \<^bold>\<open>The node class hash digests exactly what the join uses.\<close> For two specs as the API server
  stores them, the digested JSON texts are equal exactly when the variables (as maps), the join
  secret, the providerID mode and the cluster override are equal; then the hashes are equal too,
  whatever the host selector, the profile reference, the price, the reserved resources, the pod limit
  and the taint gates are. So two hashes of different join inputs agree only if the truncated SHA-256
  collides.\<close>

theorem JoinHash_inputs:
  assumes "stored_spec (ncl_Spec a)" and "stored_spec (ncl_Spec b)"
  shows "(json_text (join_object (ncl_Spec a)) = json_text (join_object (ncl_Spec b)) \<longleftrightarrow>
      same_join (ncl_Spec a) (ncl_Spec b)) \<and>
    (same_join (ncl_Spec a) (ncl_Spec b) \<longrightarrow> JoinHash L a = JoinHash L b)"
proof -
  have "json_text (join_object (ncl_Spec a)) = json_text (join_object (ncl_Spec b)) \<longleftrightarrow>
      join_object (ncl_Spec a) = join_object (ncl_Spec b)"
    using json_text_inject [of "join_object (ncl_Spec a)" "join_object (ncl_Spec b)" "[]" "[]"]
      assms [THEN join_object_utf8] by auto
  with join_object_eq [OF assms] show ?thesis by (metis JoinHash_def)
qed

definition vars_class :: "(string \<times> string) list \<Rightarrow> SSHNodeClass" where
  "vars_class vars = \<lparr>ncl_Name = ''metal'', ncl_Generation = 1, ncl_Finalizers = [], ncl_Deleted = False,
     ncl_Spec = \<lparr>HostSelector = None, JoinProfileRef = ''tls-bootstrap'', Vars' = vars, JoinSecretRef = Some ''eks'',
       ProviderIDSource' = Static, PricePerCPUHour = '''', KubeReserved = [], MaxPods = None,
       Cluster = Some \<lparr>Endpoint = ''https://api:6443'', CABundle = ''ca''\<rparr>, StartupTaintGates = []\<rparr>,
     ncl_Conditions = []\<rparr>"

theorem JoinHash_inputs_witness:
  "JoinHash plain_lib (vars_class [(''b'', ''<2>''), (''a'', ''1'')]) = JoinHash plain_lib (vars_class [(''a'', ''1''), (''b'', ''<2>'')]) \<and>
   json_text (join_object (ncl_Spec (vars_class [(''b'', ''2''), (''a'', ''1'')]))) \<noteq>
     json_text (join_object (ncl_Spec (vars_class [(''b'', ''2,a:1'')])))"
proof -
  have s: "stored_spec (ncl_Spec (vars_class [(''b'', ''<2>''), (''a'', ''1'')]))"
    "stored_spec (ncl_Spec (vars_class [(''a'', ''1''), (''b'', ''<2>'')]))"
    "stored_spec (ncl_Spec (vars_class [(''b'', ''2''), (''a'', ''1'')]))"
    "stored_spec (ncl_Spec (vars_class [(''b'', ''2,a:1'')]))" by code_simp+
  have "same_join (ncl_Spec (vars_class [(''b'', ''<2>''), (''a'', ''1'')])) (ncl_Spec (vars_class [(''a'', ''1''), (''b'', ''<2>'')]))"
    by (auto simp: same_join_def vars_class_def)
  moreover have "\<not> same_join (ncl_Spec (vars_class [(''b'', ''2''), (''a'', ''1'')])) (ncl_Spec (vars_class [(''b'', ''2,a:1'')]))"
    by (auto simp: same_join_def vars_class_def fun_eq_iff split: if_splits)
  ultimately show ?thesis
    using JoinHash_inputs [OF s(1,2)] JoinHash_inputs [OF s(3,4)] by blast
qed

end
