(* ===== verification/CloudProvider.thy ===== *)
theory CloudProvider
  imports InstanceTypes JoinHash
begin

section \<open>The cloud provider: pkg/cloudprovider\<close>

text \<open>
  What karpenter core calls. The struct \<^verbatim>\<open>CloudProvider\<close> holds the instance provider and the instance
  type provider as interface values; the API client and the recorder are the \<open>world\<close>. Core's
  scheduling library is the parameter \<open>karpenter_lib\<close>: whether a NodeClaim's requirements mention a
  label (\<^verbatim>\<open>Has\<close>), whether they admit a value for it (\<^verbatim>\<open>Get(..).Has\<close>), whether they are compatible with
  an instance type's requirements (\<^verbatim>\<open>Compatible\<close> with \<^verbatim>\<open>AllowUndefinedWellKnownLabels\<close>),
  \<^verbatim>\<open>resources.Fits\<close> and \<^verbatim>\<open>InstanceType.Allocatable\<close>.
\<close>

record karpenter_lib =
  k_Has :: "NodeSelectorRequirement list \<Rightarrow> string \<Rightarrow> bool"
  k_Admits :: "NodeSelectorRequirement list \<Rightarrow> string \<Rightarrow> string \<Rightarrow> bool"
  k_Compatible :: "NodeSelectorRequirement list \<Rightarrow> (string \<times> string list) list \<Rightarrow> bool"
  k_Fits :: "ResourceList \<Rightarrow> ResourceList \<Rightarrow> bool"
  k_Allocatable :: "InstanceType \<Rightarrow> ResourceList"

record instance_provider =
  ip_Create :: "SSHNodeClass \<Rightarrow> NodeClaim \<Rightarrow> InstanceType list \<Rightarrow> (cloud_err + Instance) io"
  ip_Delete :: "NodeClaim \<Rightarrow> cloud_err option io"
  ip_Get :: "string \<Rightarrow> (cloud_err + Instance) io"
  ip_List :: "(err + Instance list) io"
  ip_Reboot :: "NodeClaim \<Rightarrow> cloud_err option io"

record CloudProvider =
  instanceProvider :: instance_provider
  instanceTypeProvider :: "SSHNodeClass \<Rightarrow> (err + InstanceType list) io"
  legacyNodeRepair :: bool

definition New :: "instance_provider \<Rightarrow> (SSHNodeClass \<Rightarrow> (err + InstanceType list) io) \<Rightarrow> CloudProvider" where
  "New I T = \<lparr>instanceProvider = I, instanceTypeProvider = T, legacyNodeRepair = False\<rparr>"

definition WithLegacyNodeRepair :: "bool \<Rightarrow> CloudProvider \<Rightarrow> CloudProvider" where
  "WithLegacyNodeRepair enabled c = c\<lparr>legacyNodeRepair := enabled\<rparr>"

record NodePool =
  np_NodeClassRef :: "NodeClassReference option"

definition Name :: string where "Name = ''ssh''"

subsection \<open>Resolving node classes and instance types\<close>

definition nodeClassByRef :: "world \<Rightarrow> NodeClassReference option \<Rightarrow> (err + SSHNodeClass) io" where
  "nodeClassByRef E ref =
     (case ref of
        None \<Rightarrow> ret (Inl (Errorf ''no nodeClassRef''))
      | Some r \<Rightarrow> getNodeClass E (ncr_Name r))"

definition ownsNodeClassRef :: "NodeClassReference option \<Rightarrow> bool" where
  "ownsNodeClassRef ref =
     (case ref of
        None \<Rightarrow> False
      | Some r \<Rightarrow> ncr_Group r = Group \<and> ncr_Kind r = SSHNodeClassKind)"

definition suits :: "karpenter_lib \<Rightarrow> NodeClaim \<Rightarrow> InstanceType \<Rightarrow> bool" where
  "suits K nodeClaim it =
     (let reqs = nc_Requirements nodeClaim in
      if k_Has K reqs LabelInstanceTypeStable \<and> \<not> k_Admits K reqs LabelInstanceTypeStable (it_Name it) then False
      else if \<not> k_Compatible K reqs (it_Requirements it) then False
      else if \<not> k_Fits K (nc_Requests nodeClaim) (k_Allocatable K it) then False
      else True)"

definition resolveInstanceTypes ::
  "CloudProvider \<Rightarrow> karpenter_lib \<Rightarrow> NodeClaim \<Rightarrow> SSHNodeClass \<Rightarrow> (err + InstanceType list) io" where
  "resolveInstanceTypes C K nodeClaim nodeClass = do {
     r \<leftarrow> instanceTypeProvider C nodeClass;
     ret (case r of Inl e \<Rightarrow> Inl e | Inr all \<Rightarrow> Inr (filter (suits K nodeClaim) all)) }"

definition GetInstanceTypes :: "CloudProvider \<Rightarrow> world \<Rightarrow> NodePool option \<Rightarrow> (err + InstanceType list) io" where
  "GetInstanceTypes C E nodePool =
     (case nodePool of
        None \<Rightarrow> ret (Inr [])
      | Some np \<Rightarrow>
          if \<not> ownsNodeClassRef (np_NodeClassRef np) then ret (Inr [])
          else do {
            r \<leftarrow> nodeClassByRef E (np_NodeClassRef np);
            case r of
              Inl e \<Rightarrow> ret (Inl (Wrapf ''resolving node class, '' e))
            | Inr nodeClass \<Rightarrow> instanceTypeProvider C nodeClass })"

subsection \<open>NodeClaim views\<close>

definition single_labels :: "(string \<times> string list) list \<Rightarrow> (string \<times> string) list \<Rightarrow> (string \<times> string) list" where
  "single_labels reqs labels =
     fold (\<lambda>(key, values) ls. if length values = 1 then AList.update key (hd values) ls else ls) reqs labels"

definition instanceToNodeClaim :: "karpenter_lib \<Rightarrow> Instance \<Rightarrow> InstanceType list \<Rightarrow> NodeClaim" where
  "instanceToNodeClaim K inst instanceTypes =
     (let nc = \<lparr>nc_Name = i_NodeName inst, nc_UID = '''',
            nc_Labels = [(LabelInstanceTypeStable, i_Class inst), (LabelTopologyZone, PoolZone),
              (CapacityTypeLabelKey, CapacityTypeOnDemand)],
            nc_Annotations = [], nc_CreationTimestamp = i_CreationTime inst, nc_Taints = [], nc_StartupTaints = [],
            nc_Requirements = [], nc_Requests = [], nc_NodeClassRef = None, nc_ProviderID = i_ProviderID inst,
            nc_NodeName = '''', nc_Capacity = i_Capacity inst, nc_Allocatable = []\<rparr>
      in case List.find (\<lambda>it. it_Name it = i_Class inst) instanceTypes of
           None \<Rightarrow> nc
         | Some it \<Rightarrow> nc\<lparr>nc_Capacity := it_Capacity it, nc_Allocatable := k_Allocatable K it,
             nc_Labels := single_labels (it_Requirements it) (nc_Labels nc)\<rparr>)"

subsection \<open>Create\<close>

definition createFailedEvent :: "world \<Rightarrow> NodeClaim \<Rightarrow> cloud_err \<Rightarrow> PublishedEvent" where
  "createFailedEvent E nodeClaim err =
     (let reason = (case err of CreateError e r m \<Rightarrow> r | _ \<Rightarrow> ''CreateFailed'') in
      \<lparr>ev_InvolvedObject = nc_Name nodeClaim, ev_Type = ''Warning'', ev_Reason = reason,
       ev_Message = w_CloudErrorText E err, ev_DedupeValues = [nc_Name nodeClaim, reason]\<rparr>)"

definition launch :: "CloudProvider \<Rightarrow> world \<Rightarrow> karpenter_lib \<Rightarrow> SSHNodeClass \<Rightarrow> NodeClaim \<Rightarrow>
    InstanceType list \<Rightarrow> (cloud_err + NodeClaim) io" where
  "launch C E K nodeClass nodeClaim instanceTypes = do {
     r \<leftarrow> ip_Create (instanceProvider C) nodeClass nodeClaim instanceTypes;
     case r of
       Inl err \<Rightarrow> do { note_event (Published (createFailedEvent E nodeClaim err)); ret (Inl err) }
     | Inr inst \<Rightarrow> ret (Inr ((instanceToNodeClaim K inst instanceTypes)\<lparr>nc_Annotations :=
         [(AnnotationNodeClassHash, JoinHash (w_Ssh E) nodeClass),
          (AnnotationNodeClassHashVersion, NodeClassHashVersion)]\<rparr>)) }"

definition Create :: "CloudProvider \<Rightarrow> world \<Rightarrow> karpenter_lib \<Rightarrow> NodeClaim \<Rightarrow> (cloud_err + NodeClaim) io" where
  "Create C E K nodeClaim = do {
     r \<leftarrow> nodeClassByRef E (nc_NodeClassRef nodeClaim);
     case r of
       Inl e \<Rightarrow> ret (Inl (if IsNotFound e then InsufficientCapacityError (Wrapf ''resolving node class, '' e)
         else Plain (Wrapf ''resolving node class, '' e)))
     | Inr nodeClass \<Rightarrow>
         (let (ready, message) = w_GetReady E nodeClass in
          if ready = ConditionFalse then ret (Inl (NodeClassNotReadyError (Errorf message)))
          else if ready \<noteq> ConditionTrue then
            ret (Inl (CreateError (Errorf ''resolving node class readiness, NodeClass is in Ready=Unknown'')
              ''NodeClassReadinessUnknown'' ''NodeClass is in Ready=Unknown''))
          else do {
            t \<leftarrow> resolveInstanceTypes C K nodeClaim nodeClass;
            case t of
              Inl e \<Rightarrow> ret (Inl (Plain e))
            | Inr instanceTypes \<Rightarrow>
                if instanceTypes = [] then
                  ret (Inl (InsufficientCapacityError
                    (Errorf (''no compatible instance types for NodeClaim '' @ nc_Name nodeClaim))))
                else launch C E K nodeClass nodeClaim instanceTypes }) }"

subsection \<open>Delete, Get, List, Reboot\<close>

definition no_providerID :: "string \<Rightarrow> NodeClaim \<Rightarrow> cloud_err" where
  "no_providerID kind nodeClaim = NodeClaimNotFoundError (Errorf (kind @ '' '' @ nc_Name nodeClaim @ '' has no providerID''))"

definition Delete :: "CloudProvider \<Rightarrow> NodeClaim \<Rightarrow> cloud_err option io" where
  "Delete C nodeClaim =
     (if nc_ProviderID nodeClaim = '''' then ret (Some (no_providerID ''nodeClaim'' nodeClaim))
      else ip_Delete (instanceProvider C) nodeClaim)"

definition Get :: "CloudProvider \<Rightarrow> karpenter_lib \<Rightarrow> string \<Rightarrow> (cloud_err + NodeClaim) io" where
  "Get C K providerID =
     (if providerID = '''' then ret (Inl (Plain (Errorf ''empty providerID'')))
      else do {
        r \<leftarrow> ip_Get (instanceProvider C) providerID;
        ret (case r of Inl e \<Rightarrow> Inl e | Inr inst \<Rightarrow> Inr (instanceToNodeClaim K inst [])) })"

definition List_claims :: "CloudProvider \<Rightarrow> karpenter_lib \<Rightarrow> (err + NodeClaim list) io" where
  "List_claims C K = do {
     r \<leftarrow> ip_List (instanceProvider C);
     ret (case r of Inl e \<Rightarrow> Inl e | Inr instances \<Rightarrow> Inr (map (\<lambda>inst. instanceToNodeClaim K inst []) instances)) }"

definition Reboot :: "CloudProvider \<Rightarrow> NodeClaim \<Rightarrow> string \<Rightarrow> cloud_err option io" where
  "Reboot C nodeClaim operationID =
     (if nc_ProviderID nodeClaim = '''' then ret (Some (no_providerID ''nodeclaim'' nodeClaim))
      else ip_Reboot (instanceProvider C) nodeClaim)"

subsection \<open>Drift and repair\<close>

definition ProfileDrift :: string where "ProfileDrift = ''ProfileDrift''"
definition NodeClassDrift :: string where "NodeClassDrift = ''NodeClassDrift''"

definition annotation :: "NodeClaim \<Rightarrow> string \<Rightarrow> string" where
  "annotation nodeClaim k = (case map_of (nc_Annotations nodeClaim) k of None \<Rightarrow> '''' | Some v \<Rightarrow> v)"

definition drift_reason :: "world \<Rightarrow> NodeClaim \<Rightarrow> Instance \<Rightarrow> SSHNodeClass \<Rightarrow> SSHJoinProfile \<Rightarrow> string" where
  "drift_reason E nodeClaim inst nodeClass prof =
     (if i_InstalledProfile inst \<noteq> '''' \<and> i_InstalledProfile inst \<noteq> InstalledMarker prof then ProfileDrift
      else
        let stamped = annotation nodeClaim AnnotationNodeClassHash;
            version = annotation nodeClaim AnnotationNodeClassHashVersion
        in if stamped \<noteq> '''' \<and> version = NodeClassHashVersion \<and> stamped \<noteq> JoinHash (w_Ssh E) nodeClass
           then NodeClassDrift else '''')"

definition IsDrifted :: "CloudProvider \<Rightarrow> world \<Rightarrow> NodeClaim \<Rightarrow> (cloud_err + string) io" where
  "IsDrifted C E nodeClaim =
     (if nc_ProviderID nodeClaim = '''' then ret (Inr '''')
      else do {
        r \<leftarrow> ip_Get (instanceProvider C) (nc_ProviderID nodeClaim);
        case r of
          Inl e \<Rightarrow> ret (case e of NodeClaimNotFoundError x \<Rightarrow> Inr '''' | _ \<Rightarrow> Inl e)
        | Inr inst \<Rightarrow> do {
            c \<leftarrow> nodeClassByRef E (nc_NodeClassRef nodeClaim);
            case c of
              Inl e \<Rightarrow> ret (Inl (Plain (Wrapf ''resolving node class, '' e)))
            | Inr nodeClass \<Rightarrow> do {
                p \<leftarrow> getProfile E (JoinProfileRef (ncl_Spec nodeClass));
                ret (case p of
                       Inl e \<Rightarrow> Inl (Plain (Wrapf ''resolving join profile, '' e))
                     | Inr prof \<Rightarrow> Inr (drift_reason E nodeClaim inst nodeClass prof)) } } })"

datatype RepairAction = RebootNode | ReplaceNode

record RepairPolicy =
  rp_ConditionType :: string
  rp_ConditionStatus :: ConditionStatus
  rp_ReasonRegex :: string
  rp_TolerationDuration :: time
  rp_TerminationGracePeriod :: "time option"
  rp_Action :: RepairAction

definition RepairPolicies :: "CloudProvider \<Rightarrow> RepairPolicy list" where
  "RepairPolicies C =
     (let notReady = (if legacyNodeRepair C then ReplaceNode else RebootNode) in
      [\<lparr>rp_ConditionType = ''Ready'', rp_ConditionStatus = ConditionFalse, rp_ReasonRegex = ''.*'',
        rp_TolerationDuration = 600 * second, rp_TerminationGracePeriod = Some 0, rp_Action = notReady\<rparr>,
       \<lparr>rp_ConditionType = ''Ready'', rp_ConditionStatus = ConditionUnknown, rp_ReasonRegex = '''',
        rp_TolerationDuration = 600 * second, rp_TerminationGracePeriod = Some 0, rp_Action = ReplaceNode\<rparr>])"

subsection \<open>The providers of the program\<close>

definition DefaultInstanceProvider :: "world \<Rightarrow> instance_provider" where
  "DefaultInstanceProvider E =
     (let P = DefaultHostProvider E; B = DefaultBootstrapProvider E in
      \<lparr>ip_Create = Instance.Create P B E, ip_Delete = Instance.Delete P B E, ip_Get = Instance.Get P,
       ip_List = List_instances P, ip_Reboot = Instance.Reboot P E\<rparr>)"

definition DefaultCloudProvider :: "world \<Rightarrow> CloudProvider" where
  "DefaultCloudProvider E = New (DefaultInstanceProvider E) (ListTypes (DefaultHostProvider E) E)"

lemma default_cloud_sel [simp]:
  "ip_Create (DefaultInstanceProvider E) = Instance.Create (DefaultHostProvider E) (DefaultBootstrapProvider E) E"
  "ip_Delete (DefaultInstanceProvider E) = Instance.Delete (DefaultHostProvider E) (DefaultBootstrapProvider E) E"
  "ip_Get (DefaultInstanceProvider E) = Instance.Get (DefaultHostProvider E)"
  "ip_List (DefaultInstanceProvider E) = List_instances (DefaultHostProvider E)"
  "ip_Reboot (DefaultInstanceProvider E) = Instance.Reboot (DefaultHostProvider E) E"
  "instanceProvider (DefaultCloudProvider E) = DefaultInstanceProvider E"
  "instanceTypeProvider (DefaultCloudProvider E) = ListTypes (DefaultHostProvider E) E"
  by (simp_all add: DefaultInstanceProvider_def DefaultCloudProvider_def New_def Let_def)

subsection \<open>The calls of the cloud provider\<close>

text \<open>What the cloud provider relies on of the two providers, for a class \<open>\<phi>\<close> of calls and a class
  \<open>\<rho>\<close> of answers: their calls are in \<open>\<phi>\<close> as long as the answers are in \<open>\<rho>\<close>. Then so are its own.\<close>

locale cloud_contract =
  fixes C :: CloudProvider and \<rho> \<phi> :: "event \<Rightarrow> bool"
  assumes ip_Create_law: "rg \<rho> \<phi> (ip_Create (instanceProvider C) nodeClass nc its) (\<lambda>_. True)"
    and ip_Delete_law: "rg \<rho> \<phi> (ip_Delete (instanceProvider C) nc) (\<lambda>_. True)"
    and ip_Get_law: "rg \<rho> \<phi> (ip_Get (instanceProvider C) pid) (\<lambda>_. True)"
    and ip_List_law: "rg \<rho> \<phi> (ip_List (instanceProvider C)) (\<lambda>_. True)"
    and ip_Reboot_law: "rg \<rho> \<phi> (ip_Reboot (instanceProvider C) nc) (\<lambda>_. True)"
    and types_law: "rg \<rho> \<phi> (instanceTypeProvider C nodeClass) (\<lambda>_. True)"
    and reads_law: "\<phi> (GetNodeClass n a)" "\<phi> (GetProfile n b)" "\<phi> (Published ev)"
begin

lemmas provider_laws = ip_Create_law ip_Delete_law ip_Get_law ip_List_law ip_Reboot_law types_law

lemma nodeClassByRef_calls: "rg \<rho> \<phi> (nodeClassByRef E ref) (\<lambda>_. True)"
  by (auto simp: nodeClassByRef_def call_defs reads_law intro!: guar_rules)

lemma Create_calls: "rg \<rho> \<phi> (Create C E K nc) (\<lambda>_. True)"
  unfolding Create_def launch_def resolveInstanceTypes_def
  by (auto simp: call_defs reads_law intro!: guar_rules nodeClassByRef_calls provider_laws)

lemma read_calls:
  "rg \<rho> \<phi> (Get C K pid) (\<lambda>_. True)" "rg \<rho> \<phi> (List_claims C K) (\<lambda>_. True)"
  "rg \<rho> \<phi> (GetInstanceTypes C E np) (\<lambda>_. True)" "rg \<rho> \<phi> (IsDrifted C E nc) (\<lambda>_. True)"
  unfolding Get_def List_claims_def GetInstanceTypes_def IsDrifted_def
  by (auto simp: call_defs reads_law intro!: guar_rules nodeClassByRef_calls provider_laws)

lemma end_calls: "rg \<rho> \<phi> (Delete C nc) (\<lambda>_. True)" "rg \<rho> \<phi> (Reboot C nc op) (\<lambda>_. True)"
  by (auto simp: Delete_def Reboot_def intro!: guar_rules provider_laws)

end

lemma ListTypes_calls: "rg (good at) (legal_event at) (ListTypes (DefaultHostProvider E) E nodeClass) (\<lambda>_. True)"
  unfolding ListTypes_def by (intro guar_bind_any pool.All_law guar_return TrueI)

interpretation cloud: cloud_contract "DefaultCloudProvider E" "good at" "legal_event at" for E at
  by unfold_locales (simp_all add: lifecycle.Create_calls lifecycle.Delete_calls lifecycle.Get_calls
      lifecycle.List_calls lifecycle.Reboot_calls ListTypes_calls)

subsection \<open>Capacity verdicts\<close>

text \<open>The answers after which a lack of capacity is a verdict: reads that succeeded, a node class
  that does not exist, and claims lost to another replica.\<close>

fun calm :: "event \<Rightarrow> bool" where
  "calm (GetNodeClass n (Inr c)) = True"
| "calm (GetNodeClass n (Inl e)) = IsNotFound e"
| "calm (ListHosts ns sel (Inr hs)) = True"
| "calm (UpdateHostStatus h (Inl e)) = IsConflict e"
| "calm (Published ev) = True"
| "calm _ = False"

abbreviation calm_after :: "('a \<Rightarrow> bool) \<Rightarrow> 'a io \<Rightarrow> bool" where
  "calm_after V m \<equiv> valid (list_all calm) m (\<lambda>r w. V r \<longrightarrow> list_all calm w)"

abbreviation listed :: "err + 'a \<Rightarrow> bool" where
  "listed r \<equiv> \<exists>x. r = Inr x"

lemma list_pool_calm: "calm_after listed (list_pool E sel)"
  by (auto simp: list_pool_def call_defs intro!: valid_rules)

lemma pool_reads_calm: "calm_after listed (ByClaim E nc)" "calm_after listed (Available_hosts E sel cls)"
  "calm_after listed (ListTypes (DefaultHostProvider E) E nodeClass)"
  unfolding ByClaim_def Available_hosts_def ListTypes_def default_sel All_def
  by (auto intro!: valid_bind [OF list_pool_calm] valid_rules split: sum.splits)

lemma Claim_calm: "calm_after (\<lambda>r. fst r = Inr False) (Claim E h nc)"
  by (auto simp: Claim_def Let_def call_defs valid_def split: sum.splits)

lemma claim_first_calm: "calm_after (\<lambda>r. r = Inr None) (claim_first (DefaultHostProvider E) nc cs)"
proof (induction cs)
  case (Cons c cs)
  have "valid (\<lambda>w. r = Inr False \<longrightarrow> list_all calm w)
      (case r of Inl e \<Rightarrow> ret (Inl e) | Inr ok \<Rightarrow> if ok then ret (Inr (Some c')) else claim_first (DefaultHostProvider E) nc cs)
      (\<lambda>r w. r = Inr None \<longrightarrow> list_all calm w)" for r c'
    by (auto intro!: valid_rules valid_weaken [OF Cons] split: sum.splits)
  then show ?case by (auto intro!: valid_bind [OF Claim_calm] split: prod.splits)
qed (auto intro!: valid_rules)

lemma claim_types_calm: "calm_after (\<lambda>r. r = Inr None) (claim_types (DefaultHostProvider E) nodeClass nc its)"
proof (induction its)
  case (Cons it its)
  have first: "valid (list_all calm) (do { r \<leftarrow> claim_first (DefaultHostProvider E) nc cs; case r of Inl e \<Rightarrow> ret (Inl e)
      | Inr None \<Rightarrow> claim_types (DefaultHostProvider E) nodeClass nc its | Inr (Some h) \<Rightarrow> ret (Inr (Some h)) })
      (\<lambda>r w. r = Inr None \<longrightarrow> list_all calm w)" for cs
    by (auto intro!: valid_bind [OF claim_first_calm] valid_rules valid_weaken [OF Cons] split: sum.splits option.splits)
  show ?case
    by (auto intro!: valid_bind [OF pool_reads_calm(2)] valid_rules valid_weaken [OF first] split: sum.splits)
qed (auto intro!: valid_rules)

lemma acquire_calm: "calm_after (\<lambda>r. r = Inr None) (acquire (DefaultHostProvider E) nodeClass nc its)"
  unfolding acquire_def default_sel
  by (auto intro!: valid_bind [OF pool_reads_calm(1)] valid_rules valid_weaken [OF claim_types_calm] split: sum.splits option.splits)

abbreviation verdict :: "cloud_err + 'a \<Rightarrow> bool" where
  "verdict r \<equiv> \<exists>e. r = Inl (InsufficientCapacityError e)"

text \<open>After a claim a launch no longer reports a lack of capacity.\<close>

lemma Instance_Create_calm:
  "calm_after verdict (Instance.Create (DefaultHostProvider E) (DefaultBootstrapProvider E) E nodeClass nc its)"
  unfolding Instance.Create_def finish_create_def
  by (rule valid_bind [OF acquire_calm]) (auto intro!: valid_rules valid_bind_any split: sum.splits option.splits)

lemma launch_calm: "calm_after verdict (launch (DefaultCloudProvider E) E K nodeClass nc its)"
  unfolding launch_def default_cloud_sel
  by (rule valid_bind [OF Instance_Create_calm]) (auto simp: call_defs valid_def split: sum.splits)

lemma nodeClassByRef_calm: "calm_after (\<lambda>r. \<forall>e. r = Inl e \<longrightarrow> IsNotFound e) (nodeClassByRef E ref)"
  by (auto simp: nodeClassByRef_def call_defs valid_def split: option.splits) (metis calm.simps(1,2) sum.exhaust)

lemma Create_calm: "calm_after verdict (Create (DefaultCloudProvider E) E K nc)"
proof -
  have types: "calm_after listed (resolveInstanceTypes (DefaultCloudProvider E) K nc nodeClass)" for nodeClass
    unfolding resolveInstanceTypes_def default_cloud_sel
    by (rule valid_bind [OF pool_reads_calm(3)]) (auto intro!: valid_rules split: sum.splits)
  have rest: "calm_after verdict (do { t \<leftarrow> resolveInstanceTypes (DefaultCloudProvider E) K nc nodeClass;
      case t of Inl e \<Rightarrow> ret (Inl (Plain e)) | Inr its \<Rightarrow> if its = [] then ret (Inl (InsufficientCapacityError x))
        else launch (DefaultCloudProvider E) E K nodeClass nc its })" for nodeClass x
    by (rule valid_bind [OF types]) (auto intro!: valid_rules valid_weaken [OF launch_calm] split: sum.splits)
  show ?thesis
    unfolding Create_def
    by (rule valid_bind [OF nodeClassByRef_calm])
       (auto simp: Let_def intro!: valid_rules valid_weaken [OF rest] split: sum.splits)
qed

text \<open>C12. \<^bold>\<open>A transient error is never a capacity verdict.\<close> \<^verbatim>\<open>Create\<close> reports InsufficientCapacityError,
  on which karpenter core deletes the NodeClaim, only when every answer it got supports this: the node
  class does not exist, or all reads succeeded and every claim attempt was lost to a conflict. A node
  class that cannot be read for any other reason gives a plain, retryable error, and a node class
  that is not ready gives NodeClassNotReadyError, both before any host is looked at.\<close>

theorem Create_verdicts:
  assumes run: "run_state (Create (DefaultCloudProvider E) E K nc) [] = (r, w')"
    and ref: "nc_NodeClassRef nc = Some ref"
  shows "((\<exists>e. r = Inl (InsufficientCapacityError e)) \<longrightarrow> list_all calm w') \<and>
    (case w_GetNodeClass E [] (ncr_Name ref) of
       Inl x \<Rightarrow> w' = [GetNodeClass (ncr_Name ref) (Inl x)] \<and>
         (if IsNotFound x then r = Inl (InsufficientCapacityError (Wrapf ''resolving node class, '' x))
          else r = Inl (Plain (Wrapf ''resolving node class, '' x)))
     | Inr c \<Rightarrow> fst (w_GetReady E c) = ConditionFalse \<longrightarrow>
         w' = [GetNodeClass (ncr_Name ref) (Inr c)] \<and> r = Inl (NodeClassNotReadyError (Errorf (snd (w_GetReady E c)))))"
proof
  show "(\<exists>e. r = Inl (InsufficientCapacityError e)) \<longrightarrow> list_all calm w'"
    using validD [OF Create_calm _ run] by simp
next
  show "case w_GetNodeClass E [] (ncr_Name ref) of
       Inl x \<Rightarrow> w' = [GetNodeClass (ncr_Name ref) (Inl x)] \<and>
         (if IsNotFound x then r = Inl (InsufficientCapacityError (Wrapf ''resolving node class, '' x))
          else r = Inl (Plain (Wrapf ''resolving node class, '' x)))
     | Inr c \<Rightarrow> fst (w_GetReady E c) = ConditionFalse \<longrightarrow>
         w' = [GetNodeClass (ncr_Name ref) (Inr c)] \<and> r = Inl (NodeClassNotReadyError (Errorf (snd (w_GetReady E c))))"
    using run ref
    by (auto simp: Create_def nodeClassByRef_def call_defs case_prod_beta Let_def split: sum.splits if_splits)
qed

definition ready_class :: SSHNodeClass where
  "ready_class = plain_class\<lparr>ncl_Conditions := [\<lparr>c_Type = ''Ready'', c_Status = ConditionTrue, c_ObservedGeneration = 1,
     c_LastTransitionTime = 0, c_Reason = ''Ready'', c_Message = ''''\<rparr>]\<rparr>"

definition launching_claim :: NodeClaim where
  "launching_claim = held_claim\<lparr>nc_NodeClassRef := Some \<lparr>ncr_Group = Group, ncr_Kind = SSHNodeClassKind, ncr_Name = ''metal''\<rparr>,
     nc_ProviderID := ''''\<rparr>"

definition easy_lib :: karpenter_lib where
  "easy_lib = \<lparr>k_Has = \<lambda>_ _. False, k_Admits = \<lambda>_ _ _. True, k_Compatible = \<lambda>_ _. True, k_Fits = \<lambda>_ _. True,
     k_Allocatable = it_Capacity\<rparr>"

text \<open>A pool with one Available host, whose claim is lost to another replica.\<close>

definition lost_world :: world where
  "lost_world = (one_host_world sample_host)\<lparr>w_GetNodeClass := \<lambda>_ _. Inr ready_class,
     w_UpdateHostStatus := \<lambda>_ _. Inl (ConflictErr ''stale'')\<rparr>"

theorem Create_verdicts_witness:
  "\<exists>e w'. run_state (Create (DefaultCloudProvider lost_world) lost_world easy_lib launching_claim) [] =
       (Inl (InsufficientCapacityError e), w') \<and> length w' = 6 \<and> list_all calm w'"
proof -
  let ?run = "run_state (Create (DefaultCloudProvider lost_world) lost_world easy_lib launching_claim) []"
  have "case fst ?run of Inl (InsufficientCapacityError e) \<Rightarrow> True | _ \<Rightarrow> False" by code_simp
  then obtain e w' where run: "?run = (Inl (InsufficientCapacityError e), w')"
    by (cases ?run) (auto split: sum.splits cloud_err.splits)
  have "length (snd ?run) = 6" by code_simp
  then have "length w' = 6" by (simp add: run)
  moreover have "\<exists>ref. nc_NodeClassRef launching_claim = Some ref" by (simp add: launching_claim_def)
  ultimately show ?thesis using run Create_verdicts [OF run] by blast
qed

subsection \<open>Drift\<close>

lemma launch_annotations:
  "valid (\<lambda>_. True) (launch C E K nodeClass nc its)
    (\<lambda>r _. \<forall>created. r = Inr created \<longrightarrow> nc_Annotations created =
       [(AnnotationNodeClassHash, JoinHash (w_Ssh E) nodeClass), (AnnotationNodeClassHashVersion, NodeClassHashVersion)])"
  unfolding launch_def by (auto intro!: valid_rules valid_bind_any split: sum.splits)

lemma Create_annotations:
  assumes "run_state (Create C E K nc) w = (Inr created, w')" and "nc_NodeClassRef nc = Some ref"
    and "w_GetNodeClass E w (ncr_Name ref) = Inr c"
  shows "nc_Annotations created =
    [(AnnotationNodeClassHash, JoinHash (w_Ssh E) c), (AnnotationNodeClassHashVersion, NodeClassHashVersion)]"
proof -
  let ?w = "GetNodeClass (ncr_Name ref) (Inr c) # w"
  have rest: "run_state (do { t \<leftarrow> resolveInstanceTypes C K nc c;
      case t of Inl e \<Rightarrow> ret (Inl (Plain e)) | Inr its \<Rightarrow> if its = [] then ret (Inl (InsufficientCapacityError
          (Errorf (''no compatible instance types for NodeClaim '' @ nc_Name nc)))) else launch C E K c nc its }) ?w = (Inr created, w')"
    using assms by (auto simp: Create_def nodeClassByRef_def call_defs Let_def case_prod_beta split: if_splits)
  obtain t v where t: "run_state (resolveInstanceTypes C K nc c) ?w = (t, v)" by (cases "run_state (resolveInstanceTypes C K nc c) ?w")
  from rest t obtain its where "run_state (launch C E K c nc its) v = (Inr created, w')"
    by (cases t) (auto split: if_splits)
  from validD [OF launch_annotations TrueI this] show ?thesis by simp
qed

lemma JoinHash_nonempty:
  assumes "length (sha256_Sum256 L (json_text (join_object (ncl_Spec c)))) = 32"
  shows "JoinHash L c \<noteq> ''''"
  using assms by (cases "sha256_Sum256 L (json_text (join_object (ncl_Spec c)))") (simp_all add: JoinHash_def hex_EncodeToString_def)

text \<open>C22. \<^bold>\<open>Drift after a launch.\<close> Take a NodeClaim with the annotations \<^verbatim>\<open>Create\<close> stamped from the node
  class \<open>c\<close>, and ask \<^verbatim>\<open>IsDrifted\<close> later, when the node class reads \<open>d\<close> and the profile \<open>prof\<close>. The
  answer is ProfileDrift exactly when the host has the marker of another profile or version,
  otherwise NodeClassDrift exactly when the hashes of \<open>c\<close> and \<open>d\<close> differ; an edit of \<open>d\<close> that leaves the
  join inputs alone never rolls a node.\<close>

theorem drift_after_create:
  assumes create: "run_state (Create C E K nc) w = (Inr created, w')" "nc_NodeClassRef nc = Some ref"
      "w_GetNodeClass E w (ncr_Name ref) = Inr c"
    and claim: "nc_Annotations nc' = nc_Annotations created" "nc_NodeClassRef nc' = Some ref" "nc_ProviderID nc' \<noteq> ''''"
    and inst: "run_state (ip_Get (instanceProvider C') (nc_ProviderID nc')) v = (Inr inst, v1)"
    and later: "\<And>v. w_GetNodeClass E' v (ncr_Name ref) = Inr d"
      "\<And>v. w_GetProfile E' v (JoinProfileRef (ncl_Spec d)) = Inr prof" "w_Ssh E' = w_Ssh E"
    and sha256: "\<And>x. length (sha256_Sum256 (w_Ssh E) x) = 32"
    and specs: "stored_spec (ncl_Spec c)" "stored_spec (ncl_Spec d)"
  shows "fst (run_state (IsDrifted C' E' nc') v) =
      Inr (if i_InstalledProfile inst \<noteq> '''' \<and> i_InstalledProfile inst \<noteq> InstalledMarker prof then ProfileDrift
           else if JoinHash (w_Ssh E) c = JoinHash (w_Ssh E) d then '''' else NodeClassDrift) \<and>
    (same_join (ncl_Spec c) (ncl_Spec d) \<longrightarrow> fst (run_state (IsDrifted C' E' nc') v) \<noteq> Inr NodeClassDrift)"
proof -
  have "fst (run_state (IsDrifted C' E' nc') v) = Inr (drift_reason E' nc' inst d prof)"
    using claim inst later by (simp add: IsDrifted_def nodeClassByRef_def call_defs)
  moreover have "annotation nc' AnnotationNodeClassHash = JoinHash (w_Ssh E) c"
    "annotation nc' AnnotationNodeClassHashVersion = NodeClassHashVersion"
    unfolding annotation_def claim(1) Create_annotations [OF create]
    by (simp_all add: AnnotationNodeClassHash_def AnnotationNodeClassHashVersion_def)
  ultimately have eq: "fst (run_state (IsDrifted C' E' nc') v) =
      Inr (if i_InstalledProfile inst \<noteq> '''' \<and> i_InstalledProfile inst \<noteq> InstalledMarker prof then ProfileDrift
           else if JoinHash (w_Ssh E) c = JoinHash (w_Ssh E) d then '''' else NodeClassDrift)"
    using JoinHash_nonempty [OF sha256] later(3) by (simp add: drift_reason_def Let_def)
  moreover have "JoinHash L c = JoinHash L d" if "same_join (ncl_Spec c) (ncl_Spec d)" for L :: "pubkey ssh_lib"
    using that join_object_eq [OF specs] by (simp add: JoinHash_def)
  ultimately show ?thesis by (simp add: ProfileDrift_def NodeClassDrift_def)
qed

definition hashing_lib :: "pubkey ssh_lib" where
  "hashing_lib = plain_lib\<lparr>sha256_Sum256 := \<lambda>s. take 32 (rev s @ replicate 32 CHR 0x00)\<rparr>"

definition launch_world :: world where
  "launch_world = (writable (ready_world sample_host sample_profile))\<lparr>w_GetNodeClass := \<lambda>_ _. Inr ready_class,
     w_Ssh := hashing_lib\<rparr>"

definition edited_class :: SSHNodeClass where
  "edited_class = ready_class\<lparr>ncl_Spec := (ncl_Spec ready_class)\<lparr>MaxPods := Some 50, PricePerCPUHour := ''0.03''\<rparr>\<rparr>"

definition edited_world :: world where
  "edited_world = (ready_world claimed_host sample_profile)\<lparr>w_GetNodeClass := \<lambda>_ _. Inr edited_class, w_Ssh := hashing_lib\<rparr>"

theorem drift_after_create_witness:
  "\<exists>created w'. run_state (Create (DefaultCloudProvider launch_world) launch_world easy_lib launching_claim) [] = (Inr created, w') \<and>
     nc_ProviderID created = ''kpssh://kpssh-system/metal-1'' \<and>
     fst (run_state (IsDrifted (DefaultCloudProvider edited_world) edited_world
       (launching_claim\<lparr>nc_Annotations := nc_Annotations created, nc_ProviderID := nc_ProviderID created\<rparr>)) []) = Inr ''''"
proof -
  let ?C = "DefaultCloudProvider launch_world" and ?D = "DefaultCloudProvider edited_world"
  let ?run = "run_state (Create ?C launch_world easy_lib launching_claim) []"
  have "case fst ?run of Inr created \<Rightarrow> nc_ProviderID created = ''kpssh://kpssh-system/metal-1'' | _ \<Rightarrow> False" by code_simp
  then obtain created w' where run: "?run = (Inr created, w')" and pid: "nc_ProviderID created = ''kpssh://kpssh-system/metal-1''"
    by (cases ?run) (auto split: sum.splits)
  let ?nc = "launching_claim\<lparr>nc_Annotations := nc_Annotations created, nc_ProviderID := nc_ProviderID created\<rparr>"
  let ?ref = "\<lparr>ncr_Group = Group, ncr_Kind = SSHNodeClassKind, ncr_Name = ''metal''\<rparr>"
  have "case fst (run_state (ip_Get (instanceProvider ?D) ''kpssh://kpssh-system/metal-1'') []) of
      Inr inst \<Rightarrow> i_InstalledProfile inst = ''tls-bootstrap@2'' | _ \<Rightarrow> False" by code_simp
  then obtain inst v1 where inst: "run_state (ip_Get (instanceProvider ?D) (nc_ProviderID ?nc)) [] = (Inr inst, v1)"
    and marker: "i_InstalledProfile inst = ''tls-bootstrap@2''"
    unfolding pid by (cases "run_state (ip_Get (instanceProvider ?D) ''kpssh://kpssh-system/metal-1'') []") (auto split: sum.splits)
  have specs: "stored_spec (ncl_Spec ready_class)" "stored_spec (ncl_Spec edited_class)" by code_simp+
  have "InstalledMarker sample_profile = ''tls-bootstrap@2''" by code_simp
  moreover have "JoinHash (w_Ssh launch_world) ready_class = JoinHash (w_Ssh launch_world) edited_class" by code_simp
  moreover have "fst (run_state (IsDrifted ?D edited_world ?nc) []) =
      Inr (if i_InstalledProfile inst \<noteq> '''' \<and> i_InstalledProfile inst \<noteq> InstalledMarker sample_profile then ProfileDrift
           else if JoinHash (w_Ssh launch_world) ready_class = JoinHash (w_Ssh launch_world) edited_class then '''' else NodeClassDrift)"
    using drift_after_create [OF run, of ?ref ready_class ?nc ?D "[]" inst v1 edited_world edited_class sample_profile]
    using inst specs
    by (simp add: launching_claim_def launch_world_def edited_world_def ready_world_def hashing_lib_def pid)
  ultimately show ?thesis using run pid marker by simp
qed

end
