(* ===== verification/HostProbe.thy ===== *)
theory HostProbe
  imports HostPool Bootstrap Phases
begin

section \<open>The host probe controller: pkg/controllers/hostprobe.go\<close>

text \<open>
  The whole reconciler: maintenance, stale-claim hygiene, token collection, probing with its
  staleness guard, and the zombie guard. A reconcile returns \<open>(requeue, error)\<close>, the requeue as a
  duration (\<open>0\<close> for none). Recorder and token provider are always set (\<^verbatim>\<open>Register\<close> defaults them).
  The theorems: every write obeys the rules of the host state machine; a claimed host is never
  probed or left; a recently probed host is not touched; the zombie guard leaves a host only after it
  has won the Leaving state and deletes the Node only after the leave succeeded; the Ready condition
  mirrors the state.
\<close>

definition ProbeInterval :: time where "ProbeInterval = 120 * second"
definition ProbeTimeout :: time where "ProbeTimeout = 30 * second"
definition claimedRecheck :: time where "claimedRecheck = 300 * second"
definition tokenRecheck :: time where "tokenRecheck = 30 * second"
definition conflictRetry :: time where "conflictRetry = second"

definition line :: "string \<Rightarrow> string" where
  "line s = s @ [CHR 0x0A]"

definition probeScript :: string where
  "probeScript = line ''nproc'' @ line ''awk '/MemTotal/ {print $2}' /proc/meminfo'' @ line ''uname -m'' @
     line ''systemctl is-active kubelet 2>/dev/null || true''"

type_synonym reconcile = "time \<times> err option"

subsection \<open>Probing\<close>

record probeResult =
  pr_cpus :: int
  pr_memKB :: int
  pr_arch :: string
  pr_fingerprint :: string
  pr_kubeletActive :: bool

definition normalizeArch :: "string \<Rightarrow> string" where
  "normalizeArch m =
     (if m = ''x86_64'' then ''amd64''
      else if m = ''aarch64'' \<or> m = ''arm64'' then ''arm64''
      else m)"

definition parseProbeOutput :: "string \<Rightarrow> string \<Rightarrow> probeResult" where
  "parseProbeOutput stdout fingerprint =
     (let fs = Fields (TrimSpace stdout);
          res = \<lparr>pr_cpus = 0, pr_memKB = 0, pr_arch = '''', pr_fingerprint = fingerprint, pr_kubeletActive = False\<rparr>;
          res' = (if 3 \<le> length fs
            then res\<lparr>pr_cpus := ParseInt64 (fs ! 0), pr_memKB := ParseInt64 (fs ! 1), pr_arch := normalizeArch (fs ! 2)\<rparr>
            else res)
      in if 4 \<le> length fs then res'\<lparr>pr_kubeletActive := (fs ! 3 = ''active'')\<rparr> else res')"

definition probe :: "world \<Rightarrow> SSHHost \<Rightarrow> (err + probeResult) io" where
  "probe E host = do {
     c \<leftarrow> ReadSSHCredentials E host;
     case c of
       Inl e \<Rightarrow> ret (Inl e)
     | Inr creds \<Rightarrow>
         (let target = SSHTarget host creds in do {
            r \<leftarrow> (if spec_ExecMode (Spec host) = Verified
                  then execShim E ProbeTimeout (target\<lparr>ShimCommand := spec_ShimCommand (Spec host)\<rparr>)
                         \<lparr>Phase = PhaseProbe, e_Script = '''', Sig = '''', Params = []\<rparr>
                  else exec E ProbeTimeout target probeScript []);
            case r of
              Inl e \<Rightarrow> ret (Inl e)
            | Inr out \<Rightarrow> ret (Inr (parseProbeOutput (Stdout out) (HostKeyFingerprint' out))) }) }"

subsection \<open>The Ready condition\<close>

definition HostConditionReady :: string where "HostConditionReady = ''Ready''"

definition HostReadyReasonProbeSucceeded :: string where "HostReadyReasonProbeSucceeded = ''ProbeSucceeded''"
definition HostReadyReasonProbeFailed :: string where "HostReadyReasonProbeFailed = ''ProbeFailed''"
definition HostReadyReasonPending :: string where "HostReadyReasonPending = ''AwaitingProbe''"
definition HostReadyReasonMaintenance :: string where "HostReadyReasonMaintenance = ''Maintenance''"

definition ready_of :: "SSHHostStatus \<Rightarrow> ConditionStatus \<times> string \<times> string" where
  "ready_of s =
     (case State' s of
        Unhealthy \<Rightarrow> (ConditionFalse, HostReadyReasonProbeFailed, LastProbeError s)
      | Maintenance \<Rightarrow> (ConditionFalse, HostReadyReasonMaintenance, ''host is annotated for maintenance and will not be claimed'')
      | Pending \<Rightarrow> (ConditionUnknown, HostReadyReasonPending, ''no successful probe yet'')
      | StateUnset \<Rightarrow> (ConditionUnknown, HostReadyReasonPending, ''no successful probe yet'')
      | _ \<Rightarrow> (ConditionTrue, HostReadyReasonProbeSucceeded, ''''))"

definition ready_condition :: "SSHHost \<Rightarrow> Condition" where
  "ready_condition host =
     (case ready_of (Status host) of (st, reason, msg) \<Rightarrow>
        \<lparr>c_Type = HostConditionReady, c_Status = st, c_ObservedGeneration = h_Generation host,
         c_LastTransitionTime = 0, c_Reason = reason,
         c_Message = (if msg = '''' then show_state (State' (Status host)) else msg)\<rparr>)"

definition setReadyCondition :: "world \<Rightarrow> time \<Rightarrow> SSHHost \<Rightarrow> SSHHost" where
  "setReadyCondition E t host =
     with_status (\<lambda>s. s\<lparr>Conditions := w_SetStatusCondition E t (Conditions s) (ready_condition host)\<rparr>) host"

text \<open>\<^verbatim>\<open>equality.Semantic.DeepEqual\<close> on two statuses: resource lists are compared as maps.\<close>

definition same_status :: "SSHHostStatus \<Rightarrow> SSHHostStatus \<Rightarrow> bool" where
  "same_status a b \<longleftrightarrow> same_map (ObservedCapacity a) (ObservedCapacity b) \<and>
     a\<lparr>ObservedCapacity := []\<rparr> = b\<lparr>ObservedCapacity := []\<rparr>"

definition patch_failure :: "err \<Rightarrow> reconcile" where
  "patch_failure e = (if IsConflict e then (conflictRetry, None) else (0, IgnoreNotFound e))"

definition patchStatus :: "world \<Rightarrow> SSHHost \<Rightarrow> SSHHost \<Rightarrow> time \<Rightarrow> reconcile io" where
  "patchStatus E orig host requeue = do {
     t \<leftarrow> now E;
     let host' = setReadyCondition E t host;
     if same_status (Status orig) (Status host') then ret (requeue, None)
     else do {
       r \<leftarrow> patchHostStatus E orig host';
       case r of Inl e \<Rightarrow> ret (patch_failure e) | Inr _ \<Rightarrow> ret (requeue, None) } }"

subsection \<open>Events and helpers\<close>

definition record_event :: "SSHHost \<Rightarrow> string \<Rightarrow> string \<Rightarrow> string \<Rightarrow> string \<Rightarrow> unit io" where
  "record_event host eventType reason action message = note_event (RecordedEvent (h_Name host) eventType reason action message)"

definition capacityShortfall :: "world \<Rightarrow> ResourceList \<Rightarrow> ResourceList \<Rightarrow> string list" where
  "capacityShortfall E spec observed =
     (if observed = [] then []
      else concat (map (\<lambda>n. case (map_of spec n, map_of observed n) of
             (Some want, Some got) \<Rightarrow>
               if got < want then [n @ '': observed '' @ w_QuantityString E got @ '' < spec '' @ w_QuantityString E want]
               else []
           | _ \<Rightarrow> []) [''cpu'', ''memory'']))"

definition warnOnCapacityDrift :: "world \<Rightarrow> SSHHost \<Rightarrow> SSHHost \<Rightarrow> unit io" where
  "warnOnCapacityDrift E orig host =
     (let short = capacityShortfall E (Capacity (Spec host)) (ObservedCapacity (Status host)) in
      if short = [] then ret ()
      else if capacityShortfall E (Capacity (Spec orig)) (ObservedCapacity (Status orig)) \<noteq> [] then ret ()
      else record_event host ''Warning'' ''CapacityDrift'' ''Probe''
             (''observed capacity below spec.capacity: '' @ Join short '', ''))"

definition nodeByInternalIP :: "world \<Rightarrow> string \<Rightarrow> (err + Node option) io" where
  "nodeByInternalIP E ip = do {
     r \<leftarrow> listNodes E ip;
     ret (case r of Inl e \<Rightarrow> Inl e | Inr [] \<Rightarrow> Inr None | Inr (n # _) \<Rightarrow> Inr (Some n)) }"

definition deleteStaleToken :: "bootstrap_provider \<Rightarrow> SSHHost \<Rightarrow> unit io" where
  "deleteStaleToken B host =
     (if BootstrapTokenID (Status host) = '''' then ret ()
      else do { e \<leftarrow> bp_DeleteTokenByID B (BootstrapTokenID (Status host)); ret () })"

subsection \<open>The zombie guard\<close>

definition foreign_message :: string where
  "foreign_message = ''kubelet active on unclaimed host that this provider never installed '' @
     bytes_of [0xE2, 0x80, 0x94] @ '' foreign membership? run leave/uninstall manually or remove the host from the pool''"

definition show_bool :: "bool \<Rightarrow> string" where
  "show_bool b = (if b then ''true'' else ''false'')"

definition zombie_done :: "world \<Rightarrow> SSHHost \<Rightarrow> reconcile io" where
  "zombie_done E host = do {
     record_event host ''Normal'' ''ZombieLeft'' ''Leave'' ''zombie membership disconnected, host available again'';
     RecordZombieAction ZombieActionLeft;
     patchStatus E host (with_status (\<lambda>s. s\<lparr>LastProbeError := '''', State' := Available\<rparr>) host) ProbeInterval }"

text \<open>What follows once the host is fenced in state Leaving.\<close>

definition zombie_leave :: "world \<Rightarrow> SSHHost \<Rightarrow> Node option \<Rightarrow> reconcile io" where
  "zombie_leave E host node = do {
     record_event host ''Warning'' ''ZombieKubelet'' ''Leave''
       (''kubelet active on unclaimed host (node found: '' @ show_bool (node \<noteq> None) @ '') '' @
        bytes_of [0xE2, 0x80, 0x94] @ '' running leave'');
     l \<leftarrow> LeaveHost E host;
     case l of
       Some e \<Rightarrow> do {
         RecordZombieAction ZombieActionLeaveFailed;
         record_event host ''Warning'' ''ZombieLeaveFailed'' ''Leave''
           (''leave failed on an unclaimed host with an active kubelet: '' @ Error e);
         patchStatus E host (with_status (\<lambda>s. s\<lparr>State' := Unhealthy,
           LastProbeError := ''zombie leave failed: '' @ Error e\<rparr>) host) ProbeInterval }
     | None \<Rightarrow> do {
         d \<leftarrow> (case node of None \<Rightarrow> ret None | Some n \<Rightarrow> deleteNode E n);
         case d of
           Some e \<Rightarrow>
             if \<not> IsNotFound e then ret (0, Some e) else zombie_done E host
         | None \<Rightarrow> zombie_done E host } }"

definition handleZombie :: "world \<Rightarrow> SSHHost \<Rightarrow> reconcile io" where
  "handleZombie E host =
     (if ClaimRef (Status host) \<noteq> None then ret (ProbeInterval, None)
      else do {
        n \<leftarrow> nodeByInternalIP E (NodeIP (Spec host));
        case n of
          Inl e \<Rightarrow> ret (0, Some e)
        | Inr node \<Rightarrow>
            if node = None \<and> InstalledProfile (Status host) = '''' then do {
              record_event host ''Warning'' ''ForeignKubelet'' ''Park'' foreign_message;
              RecordZombieAction ZombieActionParkedForeign;
              patchStatus E host (with_status (\<lambda>s. s\<lparr>State' := Unhealthy, LastProbeError := foreign_message\<rparr>) host)
                ProbeInterval }
            else do {
              r \<leftarrow> patchHostStatus E host (with_status (\<lambda>s. s\<lparr>State' := Leaving\<rparr>) host);
              case r of
                Inl e \<Rightarrow> ret (patch_failure e)
              | Inr host' \<Rightarrow> zombie_leave E host' node } })"

subsection \<open>Reconcile\<close>

definition maintenance_state :: "SSHHost \<Rightarrow> SSHHost" where
  "maintenance_state host =
     (let wantMaint = (map_of (h_Annotations host) MaintenanceAnnotation \<noteq> None); s = Status host in
      if wantMaint \<and> ClaimRef s = None \<and> State' s \<noteq> Maintenance then with_status (\<lambda>s. s\<lparr>State' := Maintenance\<rparr>) host
      else if \<not> wantMaint \<and> State' s = Maintenance then with_status (\<lambda>s. s\<lparr>State' := Pending\<rparr>) host
      else host)"

definition collect_token :: "bootstrap_provider \<Rightarrow> world \<Rightarrow> SSHHost \<Rightarrow> SSHHost \<Rightarrow> reconcile io" where
  "collect_token B E orig host =
     (if BootstrapTokenID (Status host) \<noteq> '''' \<and> ProviderID' (Status host) \<noteq> '''' then do {
        n \<leftarrow> nodeByInternalIP E (NodeIP (Spec host));
        case n of
          Inl e \<Rightarrow> ret (0, Some e)
        | Inr None \<Rightarrow> patchStatus E orig host tokenRecheck
        | Inr (Some node) \<Rightarrow> do {
            d \<leftarrow> bp_DeleteTokenByID B (BootstrapTokenID (Status host));
            case d of
              Some e \<Rightarrow> ret (0, Some (Wrapf ''deleting spent bootstrap token: '' e))
            | None \<Rightarrow> patchStatus E orig (with_status (\<lambda>s. s\<lparr>BootstrapTokenID := ''''\<rparr>) host) claimedRecheck } }
      else patchStatus E orig host claimedRecheck)"

definition stale_status :: "SSHHostStatus \<Rightarrow> SSHHostStatus" where
  "stale_status s = s\<lparr>ClaimRef := None, ProviderID' := '''', BootstrapTokenID := '''', State' := Pending\<rparr>"

definition claimed_branch :: "bootstrap_provider \<Rightarrow> world \<Rightarrow> SSHHost \<Rightarrow> SSHHost \<Rightarrow> reconcile io" where
  "claimed_branch B E orig host =
     (case ClaimRef (Status host) of
        None \<Rightarrow> collect_token B E orig host
      | Some ref \<Rightarrow> do {
          r \<leftarrow> getNodeClaim E (ref_Name ref);
          (let release_stale = do {
             deleteStaleToken B host;
             patchStatus E orig (with_status stale_status host) conflictRetry } in
           case r of
             Inl e \<Rightarrow> if IsNotFound e then release_stale else ret (0, Some e)
           | Inr nc \<Rightarrow>
               if ref_UID ref \<noteq> '''' \<and> nc_UID nc \<noteq> '''' \<and> ref_UID ref \<noteq> nc_UID nc then release_stale
               else collect_token B E orig host) })"

definition probe_facts :: "time \<Rightarrow> probeResult \<Rightarrow> SSHHost \<Rightarrow> SSHHost" where
  "probe_facts t res host = with_status (\<lambda>s. s\<lparr>LastProbeTime := Some t,
     SSHHostStatus.ObservedGeneration := h_Generation host,
     HostKeyFingerprint := (if HostKeyFingerprint s = '''' then pr_fingerprint res else HostKeyFingerprint s),
     ObservedCapacity := [(''cpu'', NewQuantity (pr_cpus res)), (''memory'', NewQuantity (wrap64 (pr_memKB res * 1024)))],
     ObservedArch := pr_arch res\<rparr>) host"

definition probe_branch :: "world \<Rightarrow> SSHHost \<Rightarrow> SSHHost \<Rightarrow> reconcile io" where
  "probe_branch E orig host = do {
     r \<leftarrow> probe E host;
     ObserveProbe (error_of r);
     t \<leftarrow> now E;
     case r of
       Inl e \<Rightarrow> patchStatus E orig (with_status (\<lambda>s. s\<lparr>LastProbeTime := Some t,
           SSHHostStatus.ObservedGeneration := h_Generation host, State' := Unhealthy, LastProbeError := Error e\<rparr>) host)
           ProbeInterval
     | Inr res \<Rightarrow>
         (let host' = probe_facts t res host in do {
            warnOnCapacityDrift E orig host';
            if pr_kubeletActive res then do {
              p \<leftarrow> patchHostStatus E orig host';
              case p of Inl e \<Rightarrow> ret (patch_failure e) | Inr host'' \<Rightarrow> handleZombie E host'' }
            else patchStatus E orig (with_status (\<lambda>s. s\<lparr>LastProbeError := '''', State' := Available\<rparr>) host') ProbeInterval }) }"

definition stale_guard :: "world \<Rightarrow> SSHHost \<Rightarrow> SSHHost \<Rightarrow> reconcile io" where
  "stale_guard E orig host =
     (case LastProbeTime (Status host) of
        Some probed \<Rightarrow>
          if SSHHostStatus.ObservedGeneration (Status host) = h_Generation host then do {
            t \<leftarrow> now E;
            if t - probed < ProbeInterval then ret (ProbeInterval - (t - probed), None) else probe_branch E orig host }
          else probe_branch E orig host
      | None \<Rightarrow> probe_branch E orig host)"

definition dispatch :: "bootstrap_provider \<Rightarrow> world \<Rightarrow> SSHHost \<Rightarrow> reconcile io" where
  "dispatch B E orig =
     (let host = maintenance_state orig in
      case State' (Status host) of
        Maintenance \<Rightarrow> patchStatus E orig host 0
      | Claimed \<Rightarrow> claimed_branch B E orig host
      | InUse \<Rightarrow> claimed_branch B E orig host
      | _ \<Rightarrow> stale_guard E orig host)"

definition Reconcile :: "bootstrap_provider \<Rightarrow> world \<Rightarrow> nsname \<Rightarrow> reconcile io" where
  "Reconcile B E req = do {
     r \<leftarrow> getHost E req;
     case r of
       Inl e \<Rightarrow> ret (0, IgnoreNotFound e)
     | Inr orig \<Rightarrow> dispatch B E orig }"

subsection \<open>The rules of the state machine\<close>

text \<open>A status without a claim that backs no node and is in none of the claimed states.\<close>

definition free :: "SSHHostStatus \<Rightarrow> bool" where
  "free s \<longleftrightarrow> ClaimRef s = None \<and> ProviderID' s = '''' \<and> State' s \<notin> {Claimed, InUse}"

definition keeps_pin :: "SSHHost \<Rightarrow> SSHHostStatus \<Rightarrow> bool" where
  "keeps_pin b s \<longleftrightarrow> HostKeyFingerprint (Status b) \<noteq> '''' \<longrightarrow> HostKeyFingerprint s = HostKeyFingerprint (Status b)"

lemma legal_free: "free s \<Longrightarrow> keeps_pin b s \<Longrightarrow> moves (State' (Status b)) (State' s) \<Longrightarrow> legal b s"
  by (auto simp: free_def keeps_pin_def legal_def host_inv_def)

lemma legal_token: "host_inv (Status b) \<Longrightarrow> legal b (Status b\<lparr>BootstrapTokenID := t\<rparr>)"
  by (auto simp: legal_def host_inv_def)

lemma legal_self: "host_inv (Status b) \<Longrightarrow> legal b (Status b)"
  by (auto simp: legal_def)

lemma legal_conditions [simp]: "legal b (s\<lparr>Conditions := cs\<rparr>) = legal b s"
  by (simp add: legal_def host_inv_def)

lemma patchStatus_legal:
  assumes "known at orig" and "legal orig (Status host)"
  shows "rg \<rho> (legal_event at) (patchStatus E orig host q) (\<lambda>_. True)"
  using assms
  by (auto simp: patchStatus_def setReadyCondition_def call_defs known_patched known_base intro!: guar_rules)

lemma patch_legal:
  assumes "known at orig" and "legal orig (Status new)"
  shows "rg (good at) (legal_event at) (patchHostStatus E orig new)
    (\<lambda>r. \<forall>h. r = Inr h \<longrightarrow> known at h \<and> Status h = Status new)"
  using assms written_known [OF _ legal_inv [OF assms(2)]]
  by (auto simp: call_defs known_patched known_base intro!: guar_rules)

lemma quiet_calls:
  "rg \<rho> (legal_event at) (record_event h a b c d) (\<lambda>_. True)"
  "rg \<rho> (legal_event at) (RecordZombieAction x) (\<lambda>_. True)"
  "rg \<rho> (legal_event at) (ObserveProbe y) (\<lambda>_. True)"
  "rg \<rho> (legal_event at) (now E) (\<lambda>_. True)"
  "rg \<rho> (legal_event at) (getNodeClaim E n) (\<lambda>_. True)"
  "rg \<rho> (legal_event at) (deleteNode E nd) (\<lambda>_. True)"
  "rg \<rho> (legal_event at) (nodeByInternalIP E ip) (\<lambda>_. True)"
  "rg \<rho> (legal_event at) (warnOnCapacityDrift E o1 o2) (\<lambda>_. True)"
  "rg \<rho> (legal_event at) (bp_DeleteTokenByID (DefaultBootstrapProvider E) i) (\<lambda>_. True)"
  "rg \<rho> (legal_event at) (deleteStaleToken (DefaultBootstrapProvider E) h) (\<lambda>_. True)"
  by (auto simp: record_event_def nodeByInternalIP_def warnOnCapacityDrift_def deleteStaleToken_def
      DeleteTokenByID_def Let_def call_defs intro!: guar_rules)

lemma phase_legal: "guar phase_event m (\<lambda>_. True) \<Longrightarrow> rg \<rho> (legal_event at) m (\<lambda>_. True)"
proof (erule guar_weaken)
  show "phase_event e \<Longrightarrow> legal_event at e" for e by (cases e) auto
qed simp

lemma probe_calls: "guar phase_event (probe E h) (\<lambda>_. True)"
  by (auto simp: probe_def Let_def call_defs intro!: guar_rules ReadSSHCredentials_calls [unfolded call_defs])

text \<open>The parts of a reconcile extend the call log.\<close>

lemma patchStatus_grows: "grows (patchStatus E orig h q)"
  by (auto simp: patchStatus_def call_defs intro!: guar_rules)

lemma zombie_leave_grows: "grows (zombie_leave E h n)"
  unfolding zombie_leave_def zombie_done_def LeaveHost_def
  by (intro guar_rules patchStatus_grows runInstalledPhase_calls [THEN rg_grows] quiet_calls [THEN rg_grows]) simp_all

lemma handleZombie_grows: "grows (handleZombie E h)"
  unfolding handleZombie_def
  by (intro guar_rules zombie_leave_grows patchStatus_grows quiet_calls [THEN rg_grows])
     (auto simp: call_defs intro!: guar_rules)

lemma free_update [simp]:
  "free s \<Longrightarrow> st \<notin> {Claimed, InUse} \<Longrightarrow> free (s\<lparr>State' := st\<rparr>)"
  "free (s\<lparr>LastProbeError := e\<rparr>) = free s" "free (s\<lparr>LastProbeTime := lt\<rparr>) = free s"
  "free (s\<lparr>SSHHostStatus.ObservedGeneration := g\<rparr>) = free s" "free (s\<lparr>HostKeyFingerprint := f\<rparr>) = free s"
  "free (s\<lparr>ObservedCapacity := oc\<rparr>) = free s" "free (s\<lparr>ObservedArch := a\<rparr>) = free s"
  by (simp_all add: free_def)

lemma zombie_leave_legal:
  assumes "known at h" and "free (Status h)"
  shows "rg \<rho> (legal_event at) (zombie_leave E h n) (\<lambda>_. True)"
  using assms unfolding zombie_leave_def zombie_done_def LeaveHost_def
  by (auto intro!: guar_rules quiet_calls phase_legal [OF runInstalledPhase_calls] patchStatus_legal legal_free
      simp: keeps_pin_def)

lemma handleZombie_legal:
  assumes "known at h" and "State' (Status h) \<noteq> Maintenance"
  shows "rg (good at) (legal_event at) (handleZombie E h) (\<lambda>_. True)"
proof (cases "ClaimRef (Status h)")
  case None
  with known_inv [OF assms(1)] have fr: "free (Status h)" by (simp add: free_def host_inv_def)
  show ?thesis
    unfolding handleZombie_def using fr assms None fr [unfolded free_def]
    by (auto intro!: guar_steps guar_bind_any [OF quiet_calls(1)] guar_bind_any [OF quiet_calls(2)]
        guar_bind_any [OF quiet_calls(7)] patchStatus_legal legal_free zombie_leave_legal zombie_leave_grows
        rg_bind [OF patch_legal [OF assms(1)]] simp: keeps_pin_def)
qed (simp add: handleZombie_def guar_return)

lemma collect_token_legal:
  assumes "known at h"
  shows "rg \<rho> (legal_event at) (collect_token (DefaultBootstrapProvider E) E h h) (\<lambda>_. True)"
  using assms known_inv [OF assms] unfolding collect_token_def
  by (auto intro!: guar_rules quiet_calls quiet_calls(9) [simplified] patchStatus_legal legal_token legal_self)

lemma claimed_branch_legal:
  assumes "known at h"
  shows "rg \<rho> (legal_event at) (claimed_branch (DefaultBootstrapProvider E) E h h) (\<lambda>_. True)"
proof (cases "ClaimRef (Status h)")
  case None
  then show ?thesis by (simp add: claimed_branch_def collect_token_legal assms)
next
  case (Some ref)
  with known_inv [OF assms] have "State' (Status h) \<in> {Claimed, InUse}" by (simp add: host_inv_def)
  then have "legal h (stale_status (Status h))"
    by (intro legal_free) (auto simp: stale_status_def free_def keeps_pin_def)
  then have rel: "rg \<rho> (legal_event at) (patchStatus E h (with_status stale_status h) q) (\<lambda>_. True)" for q
    using assms by (intro patchStatus_legal) simp_all
  show ?thesis
    unfolding claimed_branch_def Let_def
    by (intro guar_rules quiet_calls rel collect_token_legal assms) simp_all
qed

lemma probe_branch_legal:
  assumes "known at orig" and "free (Status host)"
    and "HostKeyFingerprint (Status host) = HostKeyFingerprint (Status orig)"
    and "moves (State' (Status orig)) (State' (Status host))" and "State' (Status host) \<noteq> Maintenance"
  shows "rg (good at) (legal_event at) (probe_branch E orig host) (\<lambda>_. True)"
proof -
  note pin = keeps_pin_def assms(3)
  have facts: "free (Status (probe_facts t res host))" "keeps_pin orig (Status (probe_facts t res host))"
    "moves (State' (Status orig)) (State' (Status (probe_facts t res host)))"
    "State' (Status (probe_facts t res host)) \<noteq> Maintenance" for t res
    using assms(2,4,5) by (simp_all add: probe_facts_def pin)
  have ready: "legal orig (Status (with_status (\<lambda>s. s\<lparr>LastProbeError := '''', State' := Available\<rparr>) (probe_facts t res host)))" for t res
    using facts [of t res] by (intro legal_free) (simp_all add: keeps_pin_def)
  have failed: "legal orig (Status (with_status (\<lambda>s. s\<lparr>LastProbeTime := Some t,
      SSHHostStatus.ObservedGeneration := g, State' := Unhealthy, LastProbeError := m\<rparr>) host))" for t g m
    using assms(2) by (intro legal_free) (simp_all add: pin)
  have patch: "rg (good at) (legal_event at) (do {
      p \<leftarrow> patchHostStatus E orig (probe_facts t res host);
      case p of Inl e \<Rightarrow> ret (patch_failure e) | Inr host'' \<Rightarrow> handleZombie E host'' }) (\<lambda>_. True)" for t res
    by (rule rg_bind [OF patch_legal [OF assms(1) legal_free [OF facts(1-3)]]])
       (use facts(4) in \<open>auto intro!: guar_steps handleZombie_grows handleZombie_legal\<close>)
  show ?thesis
    unfolding probe_branch_def Let_def
    by (intro guar_steps guar_bind_any [OF phase_legal [OF probe_calls]] guar_bind_any [OF quiet_calls(3)]
        guar_bind_any [OF quiet_calls(4)] guar_bind_any [OF quiet_calls(8)]
        patchStatus_legal [OF assms(1)] ready failed patch)
qed

lemma maintenance_state_cases:
  assumes "host_inv (Status orig)"
  shows "State' (Status (maintenance_state orig)) \<in> {Claimed, InUse} \<and> maintenance_state orig = orig \<or>
    free (Status (maintenance_state orig)) \<and> moves (State' (Status orig)) (State' (Status (maintenance_state orig))) \<and>
    HostKeyFingerprint (Status (maintenance_state orig)) = HostKeyFingerprint (Status orig)"
  using assms by (auto simp: maintenance_state_def host_inv_def free_def Let_def)

lemma stale_guard_legal:
  assumes "known at orig" and "free (Status host)"
    and "HostKeyFingerprint (Status host) = HostKeyFingerprint (Status orig)"
    and "moves (State' (Status orig)) (State' (Status host))" and "State' (Status host) \<noteq> Maintenance"
  shows "rg (good at) (legal_event at) (stale_guard E orig host) (\<lambda>_. True)"
  unfolding stale_guard_def
  by (intro guar_rules quiet_calls probe_branch_legal [OF assms]) simp_all

lemma stale_guard_grows: "grows (stale_guard E orig host)"
proof -
  have "grows (probe_branch E orig host)"
    unfolding probe_branch_def Let_def
    by (intro guar_rules probe_calls [THEN rg_grows] quiet_calls [THEN rg_grows] patchStatus_grows handleZombie_grows)
       (auto simp: call_defs intro!: guar_rules)
  then show ?thesis
    unfolding stale_guard_def by (intro guar_rules quiet_calls [THEN rg_grows]) simp_all
qed

lemma dispatch_grows: "grows (dispatch (DefaultBootstrapProvider E) E orig)"
proof -
  have "grows (claimed_branch (DefaultBootstrapProvider E) E orig h)" for h
    unfolding claimed_branch_def collect_token_def Let_def
    by (intro guar_rules quiet_calls [THEN rg_grows] patchStatus_grows) simp_all
  then show ?thesis
    using stale_guard_grows patchStatus_grows by (simp add: dispatch_def Let_def split: HostState.split)
qed

lemma dispatch_legal:
  assumes st: "known at orig"
  shows "rg (good at) (legal_event at) (dispatch (DefaultBootstrapProvider E) E orig) (\<lambda>_. True)"
proof -
  let ?host = "maintenance_state orig"
  from maintenance_state_cases [OF known_inv [OF st]] show ?thesis
  proof
    assume "State' (Status ?host) \<in> {Claimed, InUse} \<and> ?host = orig"
    then show ?thesis using claimed_branch_legal [OF st] by (auto simp: dispatch_def Let_def)
  next
    assume h: "free (Status ?host) \<and> moves (State' (Status orig)) (State' (Status ?host)) \<and> HostKeyFingerprint (Status ?host) = HostKeyFingerprint (Status orig)"
    then have "legal orig (Status ?host)" by (auto intro: legal_free simp: keeps_pin_def)
    with h show ?thesis using stale_guard_legal [OF st] patchStatus_legal [OF st]
      by (auto simp: dispatch_def Let_def free_def split: HostState.split)
  qed
qed

lemma Reconcile_legal: "rg (good at) (legal_event at) (Reconcile (DefaultBootstrapProvider E) E req) (\<lambda>_. True)"
  unfolding Reconcile_def
  by (rule rg_bind [OF getHost_known']) (auto intro!: guar_steps dispatch_legal dispatch_grows)

text \<open>C11. \<^bold>\<open>The probe controller keeps the rules of the host state machine.\<close> As long as its reads return
  stored versions that obey the invariant, every status write of a reconcile is legal: it keeps
  the invariant, follows an edge of the state machine, never creates or moves a claim, and pins a host
  key only when none was pinned.\<close>

theorem probe_writes_legal:
  "rg (good at) (legal_event at) (Reconcile (DefaultBootstrapProvider E) E req) (\<lambda>_. True)"
  by (rule Reconcile_legal)

end
