(* ===== verification/NodeClassController.thy ===== *)
theory NodeClassController
  imports HostProbe Lifecycle
begin

section \<open>Node class readiness and deletion: pkg/controllers/nodeclass.go\<close>

text \<open>
  \<open>Reconcile\<close> reports the Ready condition of an SSHNodeClass and keeps its termination finalizer. The
  in-place changes of the Go object are explicit; \<^verbatim>\<open>nc.StatusConditions().SetTrue\<close> and \<^verbatim>\<open>SetFalse\<close> are
  \<open>w_SetReady\<close>, on a status, a reason and a message. The theorems say when the finalizer comes off
  and when a class is reported ready.
\<close>

definition patchStatusIfChanged :: "world \<Rightarrow> SSHNodeClass \<Rightarrow> SSHNodeClass \<Rightarrow> err option io" where
  "patchStatusIfChanged E nc orig =
     (if ncl_Conditions orig = ncl_Conditions nc then ret None else patchNodeClassStatus E orig nc)"

definition report_ready :: "world \<Rightarrow> SSHNodeClass \<Rightarrow> ConditionStatus \<times> string \<times> string \<Rightarrow> reconcile io" where
  "report_ready E orig verdict = do {
     t \<leftarrow> now E;
     e \<leftarrow> patchStatusIfChanged E (orig\<lparr>ncl_Conditions := w_SetReady E t orig verdict\<rparr>) orig;
     ret (0, e) }"

definition finalize :: "world \<Rightarrow> SSHNodeClass \<Rightarrow> reconcile io" where
  "finalize E nc =
     (if TerminationFinalizer \<notin> set (ncl_Finalizers nc) then ret (0, None)
      else do {
        r \<leftarrow> listNodeClaims E (ncl_Name nc);
        case r of
          Inl e \<Rightarrow> ret (0, Some e)
        | Inr claims \<Rightarrow>
            if claims \<noteq> [] then ret (0, None)
            else do {
              u \<leftarrow> updateNodeClass E (nc\<lparr>ncl_Finalizers := removeAll TerminationFinalizer (ncl_Finalizers nc)\<rparr>);
              ret (0, case u of Inl e \<Rightarrow> Some e | Inr _ \<Rightarrow> None) } })"

definition selector_error :: "world \<Rightarrow> SSHNodeClass \<Rightarrow> err option" where
  "selector_error E nc = (case HostSelector (ncl_Spec nc) of None \<Rightarrow> None | Some s \<Rightarrow> w_SelectorError E s)"

definition readiness :: "host_provider \<Rightarrow> world \<Rightarrow> SSHNodeClass \<Rightarrow> reconcile io" where
  "readiness P E orig = do {
     p \<leftarrow> getProfile E (JoinProfileRef (ncl_Spec orig));
     case p of
       Inl e \<Rightarrow>
         if \<not> IsNotFound e then ret (0, Some e)
         else report_ready E orig (ConditionFalse, ''ProfileNotFound'',
           ''SSHJoinProfile '' @ Quote (JoinProfileRef (ncl_Spec orig)) @ '' not found'')
     | Inr prof \<Rightarrow>
         (case Validate (w_Templates E) prof of
            Some e \<Rightarrow> report_ready E orig (ConditionFalse, ''ProfileInvalid'', Error e)
          | None \<Rightarrow>
              (case selector_error E orig of
                 Some e \<Rightarrow> report_ready E orig (ConditionFalse, ''SelectorError'', Error e)
               | None \<Rightarrow> do {
                   h \<leftarrow> hp_All P (HostSelector (ncl_Spec orig));
                   case h of
                     Inl e \<Rightarrow> ret (0, Some e)
                   | Inr hosts \<Rightarrow>
                       if hosts = [] then report_ready E orig (ConditionFalse, ''NoHosts'', ''no SSHHosts match the selector'')
                       else report_ready E orig (ConditionTrue, ''Ready'', '''') })) }"

definition Reconcile :: "host_provider \<Rightarrow> world \<Rightarrow> string \<Rightarrow> reconcile io" where
  "Reconcile P E name = do {
     r \<leftarrow> getNodeClass E name;
     case r of
       Inl e \<Rightarrow> ret (0, IgnoreNotFound e)
     | Inr nc \<Rightarrow>
         if ncl_Deleted nc then finalize E nc
         else if TerminationFinalizer \<in> set (ncl_Finalizers nc) then readiness P E nc
         else do {
           u \<leftarrow> updateNodeClass E (nc\<lparr>ncl_Finalizers := ncl_Finalizers nc @ [TerminationFinalizer]\<rparr>);
           case u of Inl e \<Rightarrow> ret (0, Some e) | Inr nc' \<Rightarrow> readiness P E nc' } }"

text \<open>The names of the node classes an event of a watched object is mapped to.\<close>

definition nodeClassForClaim :: "NodeClaim \<Rightarrow> string list" where
  "nodeClassForClaim nc =
     (case nc_NodeClassRef nc of
        None \<Rightarrow> []
      | Some ref \<Rightarrow> if ncr_Group ref \<noteq> Group \<or> ncr_Kind ref \<noteq> SSHNodeClassKind then [] else [ncr_Name ref])"

definition allNodeClasses :: "world \<Rightarrow> string list io" where
  "allNodeClasses E = do {
     r \<leftarrow> listNodeClasses E;
     ret (case r of Inl _ \<Rightarrow> [] | Inr cs \<Rightarrow> map ncl_Name cs) }"

text \<open>The controller writes no host.\<close>

lemma nodeclass_legal: "rg (good at) (legal_event at) (Reconcile (DefaultHostProvider E) E name) (\<lambda>_. True)"
  by (auto simp: Reconcile_def finalize_def readiness_def report_ready_def patchStatusIfChanged_def All_def list_pool_def call_defs
      intro!: guar_rules)

subsection \<open>The termination finalizer\<close>

text \<open>The calls for a class that is not being deleted: none takes the finalizer off.\<close>

fun live_event :: "event \<Rightarrow> bool" where
  "live_event (UpdateNodeClass new a) \<longleftrightarrow> TerminationFinalizer \<in> set (ncl_Finalizers new)"
| "live_event (ListNodeClaims n a) \<longleftrightarrow> False"
| "live_event _ \<longleftrightarrow> True"

lemma readiness_live: "guar live_event (readiness (DefaultHostProvider E) E orig) (\<lambda>_. True)"
  by (auto simp: readiness_def report_ready_def patchStatusIfChanged_def All_def list_pool_def call_defs intro!: guar_rules)

lemma live_Reconcile:
  assumes "run_state (Reconcile (DefaultHostProvider E) E name) [] = (r, w')"
    and "w_GetNodeClass E [] name = Inr nc" and "\<not> ncl_Deleted nc"
  shows "\<forall>e \<in> set w'. live_event e"
proof -
  let ?rest = "if TerminationFinalizer \<in> set (ncl_Finalizers nc) then readiness (DefaultHostProvider E) E nc
    else do { u \<leftarrow> updateNodeClass E (nc\<lparr>ncl_Finalizers := ncl_Finalizers nc @ [TerminationFinalizer]\<rparr>);
      case u of Inl e \<Rightarrow> ret (0, Some e) | Inr nc' \<Rightarrow> readiness (DefaultHostProvider E) E nc' }"
  have "guar live_event ?rest (\<lambda>_. True)"
    by (auto simp: call_defs intro!: guar_rules readiness_live)
  moreover have "run_state ?rest [GetNodeClass name (Inr nc)] = (r, w')"
    using assms by (simp add: Reconcile_def call_defs)
  ultimately obtain evs where "w' = evs @ [GetNodeClass name (Inr nc)]" "\<forall>e \<in> set evs. live_event e" by (rule guarD)
  then show ?thesis by simp
qed

lemma deleted_Reconcile:
  assumes "run_state (Reconcile (DefaultHostProvider E) E name) [] = (r, w')"
    and "w_GetNodeClass E [] name = Inr nc" and "ncl_Deleted nc"
  shows "w' = [GetNodeClass name (Inr nc)] \<or> (\<exists>a. w' = [ListNodeClaims (ncl_Name nc) a, GetNodeClass name (Inr nc)] \<and> a \<noteq> Inr []) \<or>
    (\<exists>a. w' = [UpdateNodeClass (nc\<lparr>ncl_Finalizers := removeAll TerminationFinalizer (ncl_Finalizers nc)\<rparr>) a,
       ListNodeClaims (ncl_Name nc) (Inr []), GetNodeClass name (Inr nc)])"
  using assms by (auto simp: Reconcile_def finalize_def call_defs split: if_splits sum.splits)

text \<open>C24. \<^bold>\<open>A node class is kept while NodeClaims use it, and no longer.\<close> The only write that takes the
  termination finalizer off an SSHNodeClass is for a class that is being deleted, right after a list
  of the NodeClaims that refer to it came back empty, and it changes nothing else. Conversely, when the API server
  gives a class that is being deleted and has the finalizer, and lists no NodeClaim that refers to it, the
  reconcile sends the write that takes the finalizer off, and reports how it ended.\<close>

theorem finalizer_guard:
  assumes run: "run_state (Reconcile (DefaultHostProvider E) E name) [] = (r, w')"
  shows "(\<forall>new a. UpdateNodeClass new a \<in> set w' \<and> TerminationFinalizer \<notin> set (ncl_Finalizers new) \<longrightarrow>
      (\<exists>nc. w' = [UpdateNodeClass new a, ListNodeClaims (ncl_Name nc) (Inr []), GetNodeClass name (Inr nc)] \<and> ncl_Deleted nc \<and>
        new = nc\<lparr>ncl_Finalizers := removeAll TerminationFinalizer (ncl_Finalizers nc)\<rparr>)) \<and>
    (\<forall>nc. w_GetNodeClass E [] name = Inr nc \<and> ncl_Deleted nc \<and> TerminationFinalizer \<in> set (ncl_Finalizers nc) \<and>
      w_ListNodeClaims E [GetNodeClass name (Inr nc)] (ncl_Name nc) = Inr [] \<longrightarrow>
      (\<exists>a. w' = [UpdateNodeClass (nc\<lparr>ncl_Finalizers := removeAll TerminationFinalizer (ncl_Finalizers nc)\<rparr>) a,
         ListNodeClaims (ncl_Name nc) (Inr []), GetNodeClass name (Inr nc)] \<and>
         r = (0, case a of Inl e \<Rightarrow> Some e | Inr _ \<Rightarrow> None)))"
proof
  show "\<forall>nc. w_GetNodeClass E [] name = Inr nc \<and> ncl_Deleted nc \<and> TerminationFinalizer \<in> set (ncl_Finalizers nc) \<and>
      w_ListNodeClaims E [GetNodeClass name (Inr nc)] (ncl_Name nc) = Inr [] \<longrightarrow>
      (\<exists>a. w' = [UpdateNodeClass (nc\<lparr>ncl_Finalizers := removeAll TerminationFinalizer (ncl_Finalizers nc)\<rparr>) a,
         ListNodeClaims (ncl_Name nc) (Inr []), GetNodeClass name (Inr nc)] \<and>
         r = (0, case a of Inl e \<Rightarrow> Some e | Inr _ \<Rightarrow> None))"
    using run by (auto simp: Reconcile_def finalize_def call_defs)
next
  show "\<forall>new a. UpdateNodeClass new a \<in> set w' \<and> TerminationFinalizer \<notin> set (ncl_Finalizers new) \<longrightarrow>
      (\<exists>nc. w' = [UpdateNodeClass new a, ListNodeClaims (ncl_Name nc) (Inr []), GetNodeClass name (Inr nc)] \<and> ncl_Deleted nc \<and>
        new = nc\<lparr>ncl_Finalizers := removeAll TerminationFinalizer (ncl_Finalizers nc)\<rparr>)"
  proof (cases "w_GetNodeClass E [] name")
    case (Inl e)
    with run have "w' = [GetNodeClass name (Inl e)]" by (simp add: Reconcile_def call_defs)
    then show ?thesis by simp
  next
    case (Inr nc)
    show ?thesis
    proof (cases "ncl_Deleted nc")
      case True
      from deleted_Reconcile [OF run Inr True] True show ?thesis by (elim disjE exE conjE) simp_all
    next
      case False
      from live_Reconcile [OF run Inr False] show ?thesis by fastforce
    qed
  qed
qed

definition leaving_class :: SSHNodeClass where
  "leaving_class = plain_class\<lparr>ncl_Finalizers := [TerminationFinalizer], ncl_Deleted := True\<rparr>"

definition unused_world :: world where
  "unused_world = dead_world\<lparr>w_GetNodeClass := \<lambda>_ _. Inr leaving_class, w_ListNodeClaims := \<lambda>_ _. Inr [],
     w_UpdateNodeClass := \<lambda>_ c. Inr c\<rparr>"

theorem finalizer_guard_witness:
  "\<exists>w' a. run_state (Reconcile (DefaultHostProvider unused_world) unused_world ''metal'') [] =
       ((0, None), UpdateNodeClass (leaving_class\<lparr>ncl_Finalizers := []\<rparr>) (Inr a) # w')"
proof -
  obtain r w' where run: "run_state (Reconcile (DefaultHostProvider unused_world) unused_world ''metal'') [] = (r, w')"
    by (cases "run_state (Reconcile (DefaultHostProvider unused_world) unused_world ''metal'') []")
  have "w_GetNodeClass unused_world [] ''metal'' = Inr leaving_class \<and> ncl_Deleted leaving_class \<and>
      TerminationFinalizer \<in> set (ncl_Finalizers leaving_class) \<and>
      w_ListNodeClaims unused_world [GetNodeClass ''metal'' (Inr leaving_class)] (ncl_Name leaving_class) = Inr []"
    by (simp add: unused_world_def leaving_class_def)
  with conjunct2 [OF finalizer_guard [OF run]] obtain a where
    "w' = [UpdateNodeClass (leaving_class\<lparr>ncl_Finalizers := []\<rparr>) a, ListNodeClaims (ncl_Name leaving_class) (Inr []),
       GetNodeClass ''metal'' (Inr leaving_class)]" "r = (0, case a of Inl e \<Rightarrow> Some e | Inr _ \<Rightarrow> None)"
    by (auto simp: leaving_class_def)
  moreover have "\<exists>c. a = Inr c"
    using run calculation by (auto simp: Reconcile_def finalize_def call_defs unused_world_def leaving_class_def)
  ultimately show ?thesis using run by auto
qed

subsection \<open>Readiness\<close>

text \<open>What makes a class ready: its profile is there and valid, and its selector matches a host.\<close>

definition ready_inputs :: "world \<Rightarrow> SSHNodeClass \<Rightarrow> event log \<Rightarrow> bool" where
  "ready_inputs E nc w \<longleftrightarrow> (\<exists>prof hosts. GetProfile (JoinProfileRef (ncl_Spec nc)) (Inr prof) \<in> set w \<and>
     Validate (w_Templates E) prof = None \<and>
     ListHosts (w_PoolNamespace E) (HostSelector (ncl_Spec nc)) (Inr hosts) \<in> set w \<and> hosts \<noteq> [])"

text \<open>An answer that says something about the class, rather than about the API server.\<close>

fun settled :: "event \<Rightarrow> bool" where
  "settled (GetProfile n (Inl e)) \<longleftrightarrow> IsNotFound e"
| "settled (ListHosts ns sel (Inl e)) \<longleftrightarrow> False"
| "settled _ \<longleftrightarrow> True"

definition reported :: "world \<Rightarrow> SSHNodeClass \<Rightarrow> event log \<Rightarrow> bool" where
  "reported E nc w \<longleftrightarrow> (\<forall>orig new a. PatchNodeClassStatus orig new a \<in> set w \<longrightarrow> orig = nc \<and> list_all settled w \<and>
     (\<exists>t reason msg. new = nc\<lparr>ncl_Conditions := w_SetReady E t nc
        (if ready_inputs E nc w then ConditionTrue else ConditionFalse, reason, msg)\<rparr>))"

lemma report_ready_log:
  assumes "run_state (report_ready E nc (st, reason, msg)) w = (r, w')"
  shows "\<exists>t. w' = Clock t # w \<or> (\<exists>a. w' = [PatchNodeClassStatus nc (nc\<lparr>ncl_Conditions := w_SetReady E t nc (st, reason, msg)\<rparr>) a, Clock t] @ w)"
  using assms by (auto simp: report_ready_def patchStatusIfChanged_def call_defs split: if_splits)

lemma report_ready_reported:
  assumes "run_state (report_ready E nc (st, reason, msg)) w = (r, w')" and "list_all settled w"
    and "st = (if ready_inputs E nc w then ConditionTrue else ConditionFalse)"
    and "\<And>orig new a. PatchNodeClassStatus orig new a \<notin> set w"
  shows "reported E nc w'"
proof -
  from report_ready_log [OF assms(1)] obtain evs where w': "w' = evs @ w"
    and evs: "\<And>e. e \<in> set evs \<Longrightarrow> (\<exists>t. e = Clock t) \<or>
      (\<exists>t a. e = PatchNodeClassStatus nc (nc\<lparr>ncl_Conditions := w_SetReady E t nc (st, reason, msg)\<rparr>) a)"
    by fastforce
  have "ready_inputs E nc w' = ready_inputs E nc w" using evs by (auto simp: ready_inputs_def w')
  moreover have "list_all settled w'" using evs assms(2) by (fastforce simp: w' list_all_iff)
  ultimately show ?thesis using evs assms(3,4) by (fastforce simp: reported_def w')
qed

lemma ready_inputs_simps:
  assumes "\<And>n a. GetProfile n a \<notin> set w" and "\<And>ns sel a. ListHosts ns sel a \<notin> set w"
  shows "\<not> ready_inputs E nc (GetProfile n p # w)"
    and "ready_inputs E nc (ListHosts (w_PoolNamespace E) (HostSelector (ncl_Spec nc)) a # GetProfile (JoinProfileRef (ncl_Spec nc)) p # w) \<longleftrightarrow>
      (\<exists>prof. p = Inr prof \<and> Validate (w_Templates E) prof = None) \<and> (\<exists>hosts. a = Inr hosts \<and> hosts \<noteq> [])"
  using assms by (auto simp: ready_inputs_def)

lemma readiness_reported:
  assumes run: "run_state (readiness (DefaultHostProvider E) E nc) w = (r, w')" and w: "list_all settled w"
    and fresh: "\<And>orig new a. PatchNodeClassStatus orig new a \<notin> set w" "\<And>n a. GetProfile n a \<notin> set w"
      "\<And>ns sel a. ListHosts ns sel a \<notin> set w"
  shows "reported E nc w'"
proof -
  let ?n = "JoinProfileRef (ncl_Spec nc)" and ?sel = "HostSelector (ncl_Spec nc)"
  let ?p = "w_GetProfile E w ?n"
  let ?w1 = "GetProfile ?n ?p # w"
  let ?a = "w_ListHosts E ?w1 (w_PoolNamespace E) ?sel"
  let ?w2 = "ListHosts (w_PoolNamespace E) ?sel ?a # ?w1"
  note ready = ready_inputs_simps [OF fresh(2,3)]
  have plain: "reported E nc ?w1" "reported E nc ?w2" using fresh(1) by (simp_all add: reported_def)
  show ?thesis
  proof (cases ?p)
    case (Inl e)
    with run plain(1) show ?thesis
      using ready(1) fresh w
      by (auto simp: readiness_def call_defs split: if_splits elim!: report_ready_reported)
  next
    case (Inr prof)
    consider e where "Validate (w_Templates E) prof = Some e"
      | e where "Validate (w_Templates E) prof = None" "selector_error E nc = Some e"
      | "Validate (w_Templates E) prof = None" "selector_error E nc = None" by fastforce
    then show ?thesis
    proof cases
      case 3
      then have "list_pool E ?sel = listHosts E (w_PoolNamespace E) ?sel"
        by (simp add: list_pool_def selector_error_def split: option.splits)
      with 3 run Inr show ?thesis
        using plain(2) ready(2) fresh w
        by (cases ?a) (auto simp: readiness_def All_def call_defs split: if_splits elim!: report_ready_reported)
    qed (use Inr run plain(1) ready(1) fresh w in
        \<open>auto simp: readiness_def call_defs elim!: report_ready_reported\<close>)
  qed
qed

text \<open>\<^bold>\<open>When a node class is ready.\<close> Every status write of a reconcile sets the Ready condition of the
  class it read, to true exactly when the profile was read and validates and the host list for the
  class's selector was read and is not empty, to false otherwise. A read that fails for another reason
  than a missing profile never changes the status.\<close>

theorem ready_reported:
  assumes run: "run_state (Reconcile (DefaultHostProvider E) E name) [] = (r, w')"
    and "PatchNodeClassStatus orig new a \<in> set w'"
  shows "list_all settled w' \<and> (\<exists>t reason msg. new = orig\<lparr>ncl_Conditions := w_SetReady E t orig
    (if ready_inputs E orig w' then ConditionTrue else ConditionFalse, reason, msg)\<rparr>)"
proof -
  have "\<exists>nc. reported E nc w'"
  proof (cases "w_GetNodeClass E [] name")
    case (Inl e)
    with run show ?thesis by (auto simp: Reconcile_def call_defs reported_def)
  next
    case (Inr nc)
    show ?thesis
    proof (cases "ncl_Deleted nc")
      case True
      from deleted_Reconcile [OF run Inr True] show ?thesis by (auto simp: reported_def)
    next
      case False
      let ?get = "GetNodeClass name (Inr nc)" and ?nc = "nc\<lparr>ncl_Finalizers := ncl_Finalizers nc @ [TerminationFinalizer]\<rparr>"
      let ?u = "w_UpdateNodeClass E [?get] ?nc"
      consider "run_state (readiness (DefaultHostProvider E) E nc) [?get] = (r, w')"
        | nc' where "run_state (readiness (DefaultHostProvider E) E nc') [UpdateNodeClass ?nc ?u, ?get] = (r, w')"
        | "w' = [UpdateNodeClass ?nc ?u, ?get]"
        using run Inr False by (cases ?u) (auto simp: Reconcile_def call_defs split: if_splits)
      then show ?thesis by cases (auto dest!: readiness_reported, auto simp: reported_def)
    qed
  qed
  then obtain nc where "reported E nc w'" ..
  with assms(2) show ?thesis unfolding reported_def by blast
qed

definition listed_world :: world where
  "listed_world = (ready_world sample_host sample_profile)\<lparr>w_GetNodeClass := \<lambda>_ _. Inr plain_class,
     w_UpdateNodeClass := \<lambda>_ c. Inr c, w_PatchNodeClassStatus := \<lambda>_ _ _. None\<rparr>"

theorem ready_reported_witness:
  "\<exists>r w' orig new. run_state (Reconcile (DefaultHostProvider listed_world) listed_world ''metal'') [] = (r, w') \<and>
     PatchNodeClassStatus orig new None \<in> set w' \<and>
     (\<exists>t reason msg. new = orig\<lparr>ncl_Conditions := w_SetReady listed_world t orig
        (if ready_inputs listed_world orig w' then ConditionTrue else ConditionFalse, reason, msg)\<rparr>)"
proof -
  let ?run = "run_state (Reconcile (DefaultHostProvider listed_world) listed_world ''metal'') []"
  have "case snd ?run of PatchNodeClassStatus orig new None # w \<Rightarrow> True | _ \<Rightarrow> False" by code_simp
  then obtain r orig new w where run: "?run = (r, PatchNodeClassStatus orig new None # w)"
    by (cases ?run) (auto split: list.splits event.splits option.splits)
  have mem: "PatchNodeClassStatus orig new None \<in> set (PatchNodeClassStatus orig new None # w)" by simp
  from ready_reported [OF run mem] run mem show ?thesis by blast
qed

end
