(* ===== verification/TaintGate.thy ===== *)
theory TaintGate
  imports HostProbe Lifecycle
begin

section \<open>Startup taint gates: pkg/controllers/startuptaintgate.go\<close>

text \<open>
  \<open>Reconcile\<close> evaluates the gates of a Node's class and removes the startup taints whose gate is open,
  in one patch. The map of keys to remove is a list without duplicates, visited in the order the
  runtime chooses after the patch. The first theorem says which taints come off; the second one that
  the match is by key alone, so a taint that is not a startup taint goes too when it shares the key.
\<close>

definition nodeClaimAPIVersion :: string where "nodeClaimAPIVersion = ''karpenter.sh/v1''"
definition gateRecheck :: time where "gateRecheck = 30 * second"

definition hasTaintKey :: "Taint list \<Rightarrow> string \<Rightarrow> bool" where
  "hasTaintKey taints key = list_ex (\<lambda>t. taint_Key t = key) taints"

text \<open>The status of the first condition of a type.\<close>

definition condition_status :: "(string \<times> ConditionStatus) list \<Rightarrow> string \<Rightarrow> ConditionStatus option" where
  "condition_status conditions t = map_option snd (List.find (\<lambda>c. fst c = t) conditions)"

definition isPodReady :: "Pod \<Rightarrow> bool" where
  "isPodReady p = (condition_status (pod_Conditions p) ''Ready'' = Some ConditionTrue)"

definition is_claim_ref :: "OwnerReference \<Rightarrow> bool" where
  "is_claim_ref ref = (or_Kind ref = ''NodeClaim'' \<and> or_APIVersion ref = nodeClaimAPIVersion)"

definition ownedByNodeClaim :: "Node \<Rightarrow> bool" where
  "ownedByNodeClaim n = list_ex is_claim_ref (n_OwnerReferences n)"

definition ignore_missing :: "err + 'a \<Rightarrow> err + 'a option" where
  "ignore_missing r = (case r of
       Inr x \<Rightarrow> Inr (Some x)
     | Inl e \<Rightarrow> (case IgnoreNotFound e of None \<Rightarrow> Inr None | Some x \<Rightarrow> Inl x))"

definition nodeClaimFor :: "world \<Rightarrow> Node \<Rightarrow> (err + NodeClaim option) io" where
  "nodeClaimFor E node =
     (case List.find is_claim_ref (n_OwnerReferences node) of
        None \<Rightarrow> ret (Inr None)
      | Some ref \<Rightarrow> do { r \<leftarrow> getNodeClaim E (or_Name ref); ret (ignore_missing r) })"

definition nodeClassFor :: "world \<Rightarrow> NodeClaim \<Rightarrow> (err + SSHNodeClass option) io" where
  "nodeClassFor E nodeClaim =
     (case nc_NodeClassRef nodeClaim of
        None \<Rightarrow> ret (Inr None)
      | Some ref \<Rightarrow>
          if ncr_Group ref \<noteq> Group \<or> ncr_Kind ref \<noteq> SSHNodeClassKind then ret (Inr None)
          else do { r \<leftarrow> getNodeClass E (ncr_Name ref); ret (ignore_missing r) })"

definition ready_pods :: "Node \<Rightarrow> Pod list \<Rightarrow> int" where
  "ready_pods node pods =
     int (length (filter (\<lambda>p. pod_NodeName p = n_Name node \<and> \<not> pod_Deleted p \<and> isPodReady p) pods))"

definition podsReady :: "world \<Rightarrow> Node \<Rightarrow> PodsReadyCondition \<Rightarrow> (err + bool) io" where
  "podsReady E node cond =
     (case w_SelectorError E (pr_Selector cond) of
        Some e \<Rightarrow> ret (Inl (Wrapf ''podsReady selector: '' e))
      | None \<Rightarrow> do {
          r \<leftarrow> listPods E (pr_Namespace cond) (pr_Selector cond);
          ret (case r of
                 Inl e \<Rightarrow> Inl (Wrapf ''listing pods: '' e)
               | Inr pods \<Rightarrow> Inr (ready_pods node pods \<ge> MinReadyOrDefault cond)) })"

definition evaluate :: "world \<Rightarrow> Node \<Rightarrow> StartupTaintCondition \<Rightarrow> (err + bool) io" where
  "evaluate E node cond =
     (case PodsReady cond of
        Some p \<Rightarrow> podsReady E node p
      | None \<Rightarrow>
          (case NodeCondition cond of
             Some c \<Rightarrow> ret (Inr (condition_status (n_Conditions node) (ncc_Type c) = Some (StatusOrDefault c)))
           | None \<Rightarrow> ret (Inl (Errorf ''removeWhen sets no condition''))))"

text \<open>The loop over the gates: the keys to remove and the number of gates still closed.\<close>

fun eval_gates :: "world \<Rightarrow> Node \<Rightarrow> NodeClaim \<Rightarrow> StartupTaintGate list \<Rightarrow> string list \<times> nat \<Rightarrow>
    (err + string list \<times> nat) io" where
  "eval_gates E node nodeClaim [] acc = ret (Inr acc)"
| "eval_gates E node nodeClaim (gate # gates) (remove, pending) =
     (if \<not> hasTaintKey (n_Taints node) (TaintKey gate) then eval_gates E node nodeClaim gates (remove, pending)
      else if \<not> hasTaintKey (nc_StartupTaints nodeClaim) (TaintKey gate) then
        eval_gates E node nodeClaim gates (remove, pending)
      else do {
        r \<leftarrow> evaluate E node (RemoveWhen gate);
        case r of
          Inl e \<Rightarrow> ret (Inl (Wrapf (''evaluating gate '' @ Quote (TaintKey gate) @ '': '') e))
        | Inr open \<Rightarrow>
            if open then eval_gates E node nodeClaim gates (List.insert (TaintKey gate) remove, pending)
            else eval_gates E node nodeClaim gates (remove, Suc pending) })"

fun observe_gates :: "Node \<Rightarrow> string list \<Rightarrow> unit io" where
  "observe_gates node [] = ret ()"
| "observe_gates node (key # keys) = do {
     ObserveStartupTaintGate key (n_CreationTimestamp node);
     note_event (RecordedEvent (n_Name node) ''Normal'' ''StartupTaintRemoved'' ''GateOpened''
       (''startup taint '' @ key @ '' removed: gate condition met''));
     observe_gates node keys }"

definition without_taints :: "string list \<Rightarrow> Node \<Rightarrow> Node" where
  "without_taints keys node = node\<lparr>n_Taints := filter (\<lambda>t. taint_Key t \<notin> set keys) (n_Taints node)\<rparr>"

definition removeTaints :: "world \<Rightarrow> Node \<Rightarrow> string list \<Rightarrow> err option io" where
  "removeTaints E node keys = do {
     r \<leftarrow> patchNode E node (without_taints keys node);
     case r of
       Some e \<Rightarrow> ret (if IsConflict e then None else Some (Wrapf ''removing startup taints: '' e))
     | None \<Rightarrow> do { observe_gates (without_taints keys node) (w_MapOrder E keys); ret None } }"

definition open_gates :: "world \<Rightarrow> Node \<Rightarrow> NodeClaim \<Rightarrow> StartupTaintGate list \<Rightarrow> reconcile io" where
  "open_gates E node nodeClaim gates = do {
     r \<leftarrow> eval_gates E node nodeClaim gates ([], 0);
     case r of
       Inl e \<Rightarrow> ret (0, Some e)
     | Inr (remove, pending) \<Rightarrow> do {
         e \<leftarrow> (if remove \<noteq> [] then removeTaints E node remove else ret None);
         case e of
           Some x \<Rightarrow> ret (0, IgnoreNotFound x)
         | None \<Rightarrow> if pending > 0 then ret (gateRecheck, None) else ret (0, None) } }"

definition Reconcile :: "world \<Rightarrow> string \<Rightarrow> reconcile io" where
  "Reconcile E name = do {
     g \<leftarrow> getNode E name;
     case g of
       Inl e \<Rightarrow> ret (0, IgnoreNotFound e)
     | Inr node \<Rightarrow>
         if n_Deleted node \<or> n_Taints node = [] then ret (0, None)
         else do {
           c \<leftarrow> nodeClaimFor E node;
           case c of
             Inl e \<Rightarrow> ret (0, Some e)
           | Inr None \<Rightarrow> ret (0, None)
           | Inr (Some nodeClaim) \<Rightarrow>
               if nc_StartupTaints nodeClaim = [] then ret (0, None)
               else do {
                 k \<leftarrow> nodeClassFor E nodeClaim;
                 case k of
                   Inl e \<Rightarrow> ret (0, Some e)
                 | Inr None \<Rightarrow> ret (0, None)
                 | Inr (Some nodeClass) \<Rightarrow>
                     if StartupTaintGates (ncl_Spec nodeClass) = [] then ret (0, None)
                     else open_gates E node nodeClaim (StartupTaintGates (ncl_Spec nodeClass)) } } }"

text \<open>What wakes the controller: the nodes an event is mapped to, and the pod updates that count.\<close>

definition nodeForPod :: "Pod \<Rightarrow> string list" where
  "nodeForPod p = (if pod_NodeName p = '''' then [] else [pod_NodeName p])"

definition nodesForNodeClass :: "world \<Rightarrow> SSHNodeClass \<Rightarrow> string list io" where
  "nodesForNodeClass E nc =
     (if StartupTaintGates (ncl_Spec nc) = [] then ret []
      else do {
        r \<leftarrow> listNodeClaims E (ncl_Name nc);
        ret (case r of Inl _ \<Rightarrow> [] | Inr claims \<Rightarrow> filter (\<lambda>n. n \<noteq> '''') (map nc_NodeName claims)) })"

definition podReadyChanged :: "Pod \<Rightarrow> Pod \<Rightarrow> bool" where
  "podReadyChanged oldPod newPod = (isPodReady oldPod \<noteq> isPodReady newPod)"

subsection \<open>Which taints come off\<close>

text \<open>What the answers in the log say about a gate.\<close>

definition gate_open :: "event log \<Rightarrow> Node \<Rightarrow> StartupTaintCondition \<Rightarrow> bool" where
  "gate_open w node cond =
     (case PodsReady cond of
        Some p \<Rightarrow> (\<exists>pods. ListPods (pr_Namespace p) (pr_Selector p) (Inr pods) \<in> set w \<and>
          int (length (filter (\<lambda>q. pod_NodeName q = n_Name node \<and> \<not> pod_Deleted q \<and> isPodReady q) pods)) \<ge> MinReadyOrDefault p)
      | None \<Rightarrow>
          (case NodeCondition cond of
             Some c \<Rightarrow> condition_status (n_Conditions node) (ncc_Type c) = Some (StatusOrDefault c)
           | None \<Rightarrow> False))"

lemma gate_open_mono: "gate_open w node cond \<Longrightarrow> set w \<subseteq> set w' \<Longrightarrow> gate_open w' node cond"
  by (auto simp: gate_open_def split: option.splits)

lemma evaluate_open:
  assumes "run_state (evaluate E node cond) w = (r, w')"
  shows "(w' = w \<or> (\<exists>ns sel a. w' = ListPods ns sel a # w)) \<and> (r = Inr True \<longrightarrow> gate_open w' node cond)"
  using assms by (auto simp: evaluate_def podsReady_def gate_open_def ready_pods_def call_defs split: option.splits sum.splits)

definition eligible :: "Node \<Rightarrow> NodeClaim \<Rightarrow> string \<Rightarrow> bool" where
  "eligible node nodeClaim k \<longleftrightarrow> hasTaintKey (n_Taints node) k \<and> hasTaintKey (nc_StartupTaints nodeClaim) k"

fun pod_list :: "event \<Rightarrow> bool" where
  "pod_list (ListPods ns sel a) = True"
| "pod_list _ = False"

text \<open>What the loop over the gates guarantees of the keys it collects.\<close>

definition justified_keys :: "event log \<Rightarrow> Node \<Rightarrow> NodeClaim \<Rightarrow> StartupTaintGate list \<Rightarrow> string list \<Rightarrow> bool" where
  "justified_keys w node nodeClaim gates keys \<longleftrightarrow> (\<forall>k \<in> set keys. eligible node nodeClaim k \<and>
     (\<exists>g \<in> set gates. TaintKey g = k \<and> gate_open w node (RemoveWhen g)))"

lemma justified_keys_mono: "justified_keys w node nc gates keys \<Longrightarrow> set w \<subseteq> set w' \<Longrightarrow> justified_keys w' node nc gates keys"
  unfolding justified_keys_def by (blast intro: gate_open_mono)

lemma eval_gates_keys:
  assumes "run_state (eval_gates E node nodeClaim gates (remove, pending)) w = (Inr (keys, closed), w')"
    and "set gates \<subseteq> set all" and "justified_keys w node nodeClaim all remove"
  shows "(\<exists>evs. w' = evs @ w \<and> list_all pod_list evs) \<and> justified_keys w' node nodeClaim all keys \<and>
    set remove \<subseteq> set keys \<and> pending \<le> closed \<and>
    (closed = pending \<longrightarrow> (\<forall>g \<in> set gates. eligible node nodeClaim (TaintKey g) \<longrightarrow> TaintKey g \<in> set keys))"
  using assms
proof (induction gates arbitrary: remove pending w)
  case Nil
  then show ?case by simp
next
  case (Cons gate gates)
  show ?case
  proof (cases "eligible node nodeClaim (TaintKey gate)")
    case False
    with Cons show ?thesis by (auto simp: eligible_def split: if_splits)
  next
    case True
    obtain r w1 where ev: "run_state (evaluate E node (RemoveWhen gate)) w = (r, w1)"
      by (cases "run_state (evaluate E node (RemoveWhen gate)) w")
    note step = evaluate_open [OF ev]
    then have w1: "\<exists>evs. w1 = evs @ w \<and> list_all pod_list evs" by fastforce
    then have just: "justified_keys w1 node nodeClaim all remove"
      using justified_keys_mono [OF Cons.prems(3)] by auto
    show ?thesis
    proof (cases "r = Inr True")
      case opened: True
      let ?rem = "List.insert (TaintKey gate) remove"
      have run: "run_state (eval_gates E node nodeClaim gates (?rem, pending)) w1 = (Inr (keys, closed), w')"
        using Cons.prems(1) True ev opened by (simp add: eligible_def)
      have "justified_keys w1 node nodeClaim all ?rem"
        using just True step opened Cons.prems(2) by (auto simp: justified_keys_def)
      from Cons.IH [OF run _ this] Cons.prems(2) w1 show ?thesis by auto
    next
      case False
      with Cons.prems(1) True ev have run: "run_state (eval_gates E node nodeClaim gates (remove, Suc pending)) w1 = (Inr (keys, closed), w')"
        by (cases r) (auto simp: eligible_def)
      from Cons.IH [OF run _ just] Cons.prems(2) w1 show ?thesis by auto
    qed
  qed
qed

fun no_patch :: "event \<Rightarrow> bool" where
  "no_patch (PatchNode old new a) = False"
| "no_patch _ = True"

lemma eval_gates_calls: "guar no_patch (eval_gates E node nodeClaim gates acc) (\<lambda>_. True)"
  by (induction E node nodeClaim gates acc rule: eval_gates.induct)
     (auto simp: evaluate_def podsReady_def call_defs intro!: guar_rules)

lemma observe_gates_calls: "guar no_patch (observe_gates node keys) (\<lambda>_. True)"
  by (induction keys) (auto simp: call_defs intro!: guar_rules)

text \<open>The patch of a reconcile is justified, and complete when nothing is pending.\<close>

definition gate_patch :: "event log \<Rightarrow> Node \<Rightarrow> NodeClaim \<Rightarrow> StartupTaintGate list \<Rightarrow> Node \<Rightarrow> bool" where
  "gate_patch w node nodeClaim gates new \<longleftrightarrow>
     (\<exists>keys. new = without_taints keys node \<and> keys \<noteq> [] \<and> justified_keys w node nodeClaim gates keys)"

lemma removeTaints_log:
  assumes "run_state (removeTaints E node keys) w = (e, w')"
  shows "\<exists>evs a. w' = evs @ PatchNode node (without_taints keys node) a # w \<and> list_all no_patch evs \<and> (a = None \<longrightarrow> e = None)"
proof -
  let ?a = "w_PatchNode E w node (without_taints keys node)"
  let ?w1 = "PatchNode node (without_taints keys node) ?a # w"
  show ?thesis
  proof (cases ?a)
    case (Some x)
    with assms show ?thesis by (auto simp: removeTaints_def call_defs)
  next
    case None
    obtain u w2 where obs: "run_state (observe_gates (without_taints keys node) (w_MapOrder E keys)) ?w1 = (u, w2)"
      by (cases "run_state (observe_gates (without_taints keys node) (w_MapOrder E keys)) ?w1")
    with None assms have "w' = w2" and "e = None" by (simp_all add: removeTaints_def call_defs)
    from observe_gates_calls obs obtain evs where "w2 = evs @ ?w1" "\<forall>e \<in> set evs. no_patch e" by (rule guarD)
    with \<open>w' = w2\<close> \<open>e = None\<close> show ?thesis by (auto simp: list_all_iff)
  qed
qed

lemma without_taints_key: "hasTaintKey (n_Taints (without_taints keys node)) k \<Longrightarrow> k \<notin> set keys"
  by (auto simp: hasTaintKey_def without_taints_def list_ex_iff)

lemma open_gates_run:
  assumes run: "run_state (open_gates E node nodeClaim gates) w = (r, w')" and w: "list_all no_patch w"
  shows "(\<forall>old new a. PatchNode old new a \<in> set w' \<longrightarrow> old = node \<and> gate_patch w' node nodeClaim gates new) \<and> set w \<subseteq> set w' \<and>
    (r = (0, None) \<and> (\<forall>old new a. PatchNode old new a \<in> set w' \<longrightarrow> a = None) \<longrightarrow>
      (\<forall>g \<in> set gates. eligible node nodeClaim (TaintKey g) \<longrightarrow>
        (\<exists>new. PatchNode node new None \<in> set w' \<and> \<not> hasTaintKey (n_Taints new) (TaintKey g))))"
proof -
  obtain q w1 where ev: "run_state (eval_gates E node nodeClaim gates ([], 0)) w = (q, w1)"
    by (cases "run_state (eval_gates E node nodeClaim gates ([], 0)) w")
  from eval_gates_calls ev obtain evs where w1: "w1 = evs @ w" "\<forall>e \<in> set evs. no_patch e" by (rule guarD)
  then have np: "list_all no_patch w1" using w by (auto simp: list_all_iff)
  then have none: "PatchNode old new a \<notin> set w1" for old new a by (auto simp: list_all_iff)
  show ?thesis
  proof (cases q)
    case (Inl e)
    with run ev have "r = (0, Some e)" "w' = w1" by (simp_all add: open_gates_def)
    with none w1(1) show ?thesis by auto
  next
    case (Inr p)
    then obtain keys closed where q: "q = Inr (keys, closed)" by (cases p) auto
    have "justified_keys w node nodeClaim gates []" by (simp add: justified_keys_def)
    note gates = eval_gates_keys [OF ev [unfolded q] subset_refl this]
    show ?thesis
    proof (cases "keys = []")
      case True
      then have "w' = w1" and r: "r = (if closed > 0 then (gateRecheck, None) else (0, None))"
        using run ev q by (auto simp: open_gates_def split: if_splits)
      moreover have "\<not> eligible node nodeClaim (TaintKey g)" if "r = (0, None)" "g \<in> set gates" for g
        using that r gates True by (auto simp: gateRecheck_def second_def split: if_splits)
      ultimately show ?thesis using none w1(1) by auto
    next
      case ne: False
      obtain e w2 where rem: "run_state (removeTaints E node keys) w1 = (e, w2)" by (cases "run_state (removeTaints E node keys) w1")
      from removeTaints_log [OF rem] obtain evs' a where w2: "w2 = evs' @ PatchNode node (without_taints keys node) a # w1"
        "list_all no_patch evs'" "a = None \<longrightarrow> e = None" by blast
      have w': "w' = w2" and r: "r = (case e of Some x \<Rightarrow> (0, IgnoreNotFound x) | None \<Rightarrow> if closed > 0 then (gateRecheck, None) else (0, None))"
        using run ev q ne rem by (auto simp: open_gates_def split: option.splits if_splits)
      have only: "old = node \<and> new = without_taints keys node \<and> a' = a" if "PatchNode old new a' \<in> set w'" for old new a'
        using that np w2 unfolding w' by (auto simp: list_all_iff)
      have just: "justified_keys w' node nodeClaim gates keys"
        using gates unfolding w' w2(1) by (auto elim: justified_keys_mono)
      have patch: "PatchNode node (without_taints keys node) a \<in> set w'" unfolding w' w2(1) by simp
      have gone: "\<not> hasTaintKey (n_Taints (without_taints keys node)) (TaintKey g)"
        if "a = None" "r = (0, None)" "g \<in> set gates" "eligible node nodeClaim (TaintKey g)" for g
      proof -
        have "closed = 0" using that(1,2) r w2(3) by (auto simp: gateRecheck_def second_def split: if_splits)
        with gates that show ?thesis using without_taints_key by blast
      qed
      have "gate_patch w' node nodeClaim gates (without_taints keys node)" unfolding gate_patch_def using ne just by blast
      moreover have "set w \<subseteq> set w'" unfolding w' w2(1) w1(1) by auto
      ultimately show ?thesis using only gone patch by metis
    qed
  qed
qed

text \<open>What a reconcile of a Node reads: the Node, which is not being deleted, the NodeClaim that owns it and the NodeClaim's class.\<close>

definition gate_reads :: "world \<Rightarrow> string \<Rightarrow> Node \<Rightarrow> NodeClaim \<Rightarrow> SSHNodeClass \<Rightarrow> bool" where
  "gate_reads E name node nodeClaim nodeClass \<longleftrightarrow> w_GetNode E [] name = Inr node \<and> \<not> n_Deleted node \<and>
     (\<exists>ref classRef. List.find is_claim_ref (n_OwnerReferences node) = Some ref \<and>
        w_GetNodeClaim E [GetNode name (Inr node)] (or_Name ref) = Inr nodeClaim \<and>
        nc_NodeClassRef nodeClaim = Some classRef \<and> ncr_Group classRef = Group \<and> ncr_Kind classRef = SSHNodeClassKind \<and>
        w_GetNodeClass E [GetNodeClaim (or_Name ref) (Inr nodeClaim), GetNode name (Inr node)] (ncr_Name classRef) = Inr nodeClass)"

lemma gate_reads_run:
  assumes "gate_reads E name node nodeClaim nodeClass" and "run_state (Reconcile E name) [] = (r, w')"
    and "n_Taints node \<noteq> []" and "nc_StartupTaints nodeClaim \<noteq> []" and "StartupTaintGates (ncl_Spec nodeClass) \<noteq> []"
  obtains w where "run_state (open_gates E node nodeClaim (StartupTaintGates (ncl_Spec nodeClass))) w = (r, w')" and "list_all no_patch w"
  using assms by (auto simp: gate_reads_def Reconcile_def nodeClaimFor_def nodeClassFor_def call_defs ignore_missing_def)

lemma ignore_missing_Some: "ignore_missing r = Inr (Some x) \<Longrightarrow> r = Inr x"
  by (auto simp: ignore_missing_def split: sum.splits option.splits)

lemma Reconcile_reads:
  assumes "run_state (Reconcile E name) [] = (r, w')" and "PatchNode old new a \<in> set w'"
  shows "\<exists>node nodeClaim nodeClass ref classRef. List.find is_claim_ref (n_OwnerReferences node) = Some ref \<and>
    nc_NodeClassRef nodeClaim = Some classRef \<and> ncr_Kind classRef = SSHNodeClassKind \<and>
    run_state (open_gates E node nodeClaim (StartupTaintGates (ncl_Spec nodeClass)))
      [GetNodeClass (ncr_Name classRef) (Inr nodeClass), GetNodeClaim (or_Name ref) (Inr nodeClaim), GetNode name (Inr node)] = (r, w')"
proof -
  obtain node where node: "w_GetNode E [] name = Inr node" and live: "\<not> (n_Deleted node \<or> n_Taints node = [])"
    using assms by (cases "w_GetNode E [] name") (auto simp: Reconcile_def call_defs split: if_splits)
  let ?w1 = "[GetNode name (Inr node)]"
  obtain ref where ref: "List.find is_claim_ref (n_OwnerReferences node) = Some ref"
    using assms node live by (cases "List.find is_claim_ref (n_OwnerReferences node)")
       (auto simp: Reconcile_def nodeClaimFor_def call_defs)
  obtain nodeClaim where claim: "w_GetNodeClaim E ?w1 (or_Name ref) = Inr nodeClaim" and st: "nc_StartupTaints nodeClaim \<noteq> []"
    using assms node live ref
    by (cases "w_GetNodeClaim E ?w1 (or_Name ref)")
       (auto simp: Reconcile_def nodeClaimFor_def call_defs ignore_missing_def split: option.splits if_splits)
  let ?w2 = "GetNodeClaim (or_Name ref) (Inr nodeClaim) # ?w1"
  obtain classRef where cref: "nc_NodeClassRef nodeClaim = Some classRef" "ncr_Group classRef = Group" "ncr_Kind classRef = SSHNodeClassKind"
    using assms node live ref claim st
    by (cases "nc_NodeClassRef nodeClaim")
       (auto simp: Reconcile_def nodeClaimFor_def nodeClassFor_def call_defs ignore_missing_def split: if_splits)
  obtain nodeClass where "w_GetNodeClass E ?w2 (ncr_Name classRef) = Inr nodeClass"
    and "StartupTaintGates (ncl_Spec nodeClass) \<noteq> []"
    using assms node live ref claim st cref
    by (cases "w_GetNodeClass E ?w2 (ncr_Name classRef)")
       (auto simp: Reconcile_def nodeClaimFor_def nodeClassFor_def call_defs ignore_missing_def split: option.splits if_splits)
  then have "run_state (open_gates E node nodeClaim (StartupTaintGates (ncl_Spec nodeClass)))
      (GetNodeClass (ncr_Name classRef) (Inr nodeClass) # ?w2) = (r, w')"
    using assms node live ref claim st cref
    by (simp add: Reconcile_def nodeClaimFor_def nodeClassFor_def call_defs ignore_missing_def)
  with ref cref show ?thesis by blast
qed

lemma patch_justified:
  assumes run: "run_state (Reconcile E name) [] = (r, w')" and patch: "PatchNode old new a \<in> set w'"
  shows "GetNode name (Inr old) \<in> set w' \<and>
    (\<exists>nodeClaim nodeClass ref classRef keys. ref \<in> set (n_OwnerReferences old) \<and> or_Kind ref = ''NodeClaim'' \<and>
      GetNodeClaim (or_Name ref) (Inr nodeClaim) \<in> set w' \<and>
      nc_NodeClassRef nodeClaim = Some classRef \<and> ncr_Kind classRef = SSHNodeClassKind \<and>
      GetNodeClass (ncr_Name classRef) (Inr nodeClass) \<in> set w' \<and>
      new = old\<lparr>n_Taints := filter (\<lambda>t. taint_Key t \<notin> set keys) (n_Taints old)\<rparr> \<and>
      (\<forall>k \<in> set keys. hasTaintKey (nc_StartupTaints nodeClaim) k \<and>
        (\<exists>g \<in> set (StartupTaintGates (ncl_Spec nodeClass)). TaintKey g = k \<and> gate_open w' old (RemoveWhen g))))"
proof -
  obtain node nodeClaim nodeClass ref classRef where ref: "List.find is_claim_ref (n_OwnerReferences node) = Some ref"
    and cref: "nc_NodeClassRef nodeClaim = Some classRef" "ncr_Kind classRef = SSHNodeClassKind"
    and gates: "run_state (open_gates E node nodeClaim (StartupTaintGates (ncl_Spec nodeClass)))
      [GetNodeClass (ncr_Name classRef) (Inr nodeClass), GetNodeClaim (or_Name ref) (Inr nodeClaim), GetNode name (Inr node)] = (r, w')"
    using Reconcile_reads [OF run patch] by blast
  from open_gates_run [OF gates] patch have "old = node" and sub: "{GetNodeClass (ncr_Name classRef) (Inr nodeClass),
      GetNodeClaim (or_Name ref) (Inr nodeClaim), GetNode name (Inr node)} \<subseteq> set w'"
    and "gate_patch w' node nodeClaim (StartupTaintGates (ncl_Spec nodeClass)) new" by auto
  then obtain keys where new: "new = without_taints keys node"
    and just: "justified_keys w' node nodeClaim (StartupTaintGates (ncl_Spec nodeClass)) keys"
    unfolding gate_patch_def by blast
  have "ref \<in> set (n_OwnerReferences old)" "or_Kind ref = ''NodeClaim''"
    using find_SomeD [OF ref] \<open>old = node\<close> by (simp_all add: is_claim_ref_def)
  moreover have "\<forall>k \<in> set keys. hasTaintKey (nc_StartupTaints nodeClaim) k \<and>
      (\<exists>g \<in> set (StartupTaintGates (ncl_Spec nodeClass)). TaintKey g = k \<and> gate_open w' old (RemoveWhen g))"
    using just \<open>old = node\<close> by (auto simp: justified_keys_def eligible_def)
  moreover have "new = old\<lparr>n_Taints := filter (\<lambda>t. taint_Key t \<notin> set keys) (n_Taints old)\<rparr>"
    using new \<open>old = node\<close> by (simp add: without_taints_def)
  ultimately show ?thesis using sub cref \<open>old = node\<close> by blast
qed

text \<open>C25. \<^bold>\<open>Which taints a gate takes off.\<close> A reconcile patches only the Node it read, and only its taints:
  it drops the taints with certain keys, each of which is the key of a startup taint of the NodeClaim
  that owns the Node and is named by a gate of the NodeClaim's SSHNodeClass that the answers show to be
  open. Conversely, when the Node, its NodeClaim and the class can be read, no error is returned, no recheck is asked for and
  no patch was refused, then no taint with the key of a gated startup taint stays: the Node did not have it, or a patch without
  it was accepted. (Taints are told apart by their key alone. The comment in the source that a gate can never touch a
  permanent taint is true of other keys only: see the theorem after the next one.)\<close>

theorem gate_removes_open_taints:
  assumes run: "run_state (Reconcile E name) [] = (r, w')"
  shows "(\<forall>old new a. PatchNode old new a \<in> set w' \<longrightarrow> GetNode name (Inr old) \<in> set w' \<and>
    (\<exists>nodeClaim nodeClass ref classRef keys. ref \<in> set (n_OwnerReferences old) \<and> or_Kind ref = ''NodeClaim'' \<and>
      GetNodeClaim (or_Name ref) (Inr nodeClaim) \<in> set w' \<and>
      nc_NodeClassRef nodeClaim = Some classRef \<and> ncr_Kind classRef = SSHNodeClassKind \<and>
      GetNodeClass (ncr_Name classRef) (Inr nodeClass) \<in> set w' \<and>
      new = old\<lparr>n_Taints := filter (\<lambda>t. taint_Key t \<notin> set keys) (n_Taints old)\<rparr> \<and>
      (\<forall>k \<in> set keys. hasTaintKey (nc_StartupTaints nodeClaim) k \<and>
        (\<exists>g \<in> set (StartupTaintGates (ncl_Spec nodeClass)). TaintKey g = k \<and> gate_open w' old (RemoveWhen g))))) \<and>
    (\<forall>node nodeClaim nodeClass g. gate_reads E name node nodeClaim nodeClass \<and> r = (0, None) \<and>
      (\<forall>old new a. PatchNode old new a \<in> set w' \<longrightarrow> a = None) \<and>
      g \<in> set (StartupTaintGates (ncl_Spec nodeClass)) \<and> hasTaintKey (nc_StartupTaints nodeClaim) (TaintKey g) \<longrightarrow>
      \<not> hasTaintKey (n_Taints node) (TaintKey g) \<or>
      (\<exists>new. PatchNode node new None \<in> set w' \<and> \<not> hasTaintKey (n_Taints new) (TaintKey g)))"
proof (rule conjI; intro allI impI)
  fix old new a
  assume "PatchNode old new a \<in> set w'"
  with run show "GetNode name (Inr old) \<in> set w' \<and>
    (\<exists>nodeClaim nodeClass ref classRef keys. ref \<in> set (n_OwnerReferences old) \<and> or_Kind ref = ''NodeClaim'' \<and>
      GetNodeClaim (or_Name ref) (Inr nodeClaim) \<in> set w' \<and>
      nc_NodeClassRef nodeClaim = Some classRef \<and> ncr_Kind classRef = SSHNodeClassKind \<and>
      GetNodeClass (ncr_Name classRef) (Inr nodeClass) \<in> set w' \<and>
      new = old\<lparr>n_Taints := filter (\<lambda>t. taint_Key t \<notin> set keys) (n_Taints old)\<rparr> \<and>
      (\<forall>k \<in> set keys. hasTaintKey (nc_StartupTaints nodeClaim) k \<and>
        (\<exists>g \<in> set (StartupTaintGates (ncl_Spec nodeClass)). TaintKey g = k \<and> gate_open w' old (RemoveWhen g))))" by (rule patch_justified)
next
  fix node nodeClaim nodeClass g
  assume a: "gate_reads E name node nodeClaim nodeClass \<and> r = (0, None) \<and>
      (\<forall>old new a. PatchNode old new a \<in> set w' \<longrightarrow> a = None) \<and>
      g \<in> set (StartupTaintGates (ncl_Spec nodeClass)) \<and> hasTaintKey (nc_StartupTaints nodeClaim) (TaintKey g)"
  show "\<not> hasTaintKey (n_Taints node) (TaintKey g) \<or>
      (\<exists>new. PatchNode node new None \<in> set w' \<and> \<not> hasTaintKey (n_Taints new) (TaintKey g))"
  proof (cases "hasTaintKey (n_Taints node) (TaintKey g)")
    case True
    with a have "n_Taints node \<noteq> []" "nc_StartupTaints nodeClaim \<noteq> []" "StartupTaintGates (ncl_Spec nodeClass) \<noteq> []"
      and el: "eligible node nodeClaim (TaintKey g)"
      by (auto simp: hasTaintKey_def eligible_def)
    from gate_reads_run [OF conjunct1 [OF a] run this(1-3)] obtain w where
      "run_state (open_gates E node nodeClaim (StartupTaintGates (ncl_Spec nodeClass))) w = (r, w')" "list_all no_patch w" .
    from open_gates_run [OF this] a el show ?thesis by blast
  qed simp
qed

definition startup_taint :: Taint where
  "startup_taint = \<lparr>taint_Key = ''acme.io/agent'', taint_Value = '''', taint_Effect = ''NoSchedule''\<rparr>"

definition permanent_taint :: Taint where
  "permanent_taint = \<lparr>taint_Key = ''acme.io/agent'', taint_Value = ''dedicated'', taint_Effect = ''NoExecute''\<rparr>"

definition gated_node :: "Taint list \<Rightarrow> Node" where
  "gated_node taints = hybrid_node\<lparr>n_Taints := taints, n_Conditions := [(''AgentReady'', ConditionTrue)],
     n_OwnerReferences := [\<lparr>or_APIVersion = ''karpenter.sh/v1'', or_Kind = ''NodeClaim'', or_Name = ''pool-abc''\<rparr>]\<rparr>"

definition gated_claim :: NodeClaim where
  "gated_claim = held_claim\<lparr>nc_NodeClassRef := Some \<lparr>ncr_Group = Group, ncr_Kind = SSHNodeClassKind, ncr_Name = ''metal''\<rparr>,
     nc_Taints := [permanent_taint], nc_StartupTaints := [startup_taint]\<rparr>"

definition gated_class :: SSHNodeClass where
  "gated_class = plain_class\<lparr>ncl_Spec := (ncl_Spec plain_class)\<lparr>StartupTaintGates :=
     [\<lparr>TaintKey = ''acme.io/agent'', RemoveWhen = \<lparr>PodsReady = None,
        NodeCondition = Some \<lparr>ncc_Type = ''AgentReady'', ncc_Status = None\<rparr>\<rparr>\<rparr>]\<rparr>\<rparr>"

definition gated_world :: "Taint list \<Rightarrow> world" where
  "gated_world taints = dead_world\<lparr>w_GetNode := \<lambda>_ _. Inr (gated_node taints), w_GetNodeClaim := \<lambda>_ _. Inr gated_claim,
     w_GetNodeClass := \<lambda>_ _. Inr gated_class, w_PatchNode := \<lambda>_ _ _. None\<rparr>"

lemma gated_patch:
  "\<exists>w'. run_state (Reconcile (gated_world [startup_taint, permanent_taint]) ''mi-1'') [] = ((0, None), w') \<and>
     PatchNode (gated_node [startup_taint, permanent_taint]) (gated_node []) None \<in> set w'"
proof -
  let ?run = "run_state (Reconcile (gated_world [startup_taint, permanent_taint]) ''mi-1'') []"
  have "fst ?run = (0, None) \<and> list_ex (\<lambda>e. e = PatchNode (gated_node [startup_taint, permanent_taint]) (gated_node []) None) (snd ?run)"
    by code_simp
  then show ?thesis by (cases ?run) (auto simp: list_ex_iff)
qed

text \<open>A Node with the startup taint and a taint of another key: only the first comes off.\<close>

definition foreign_taint :: Taint where
  "foreign_taint = \<lparr>taint_Key = ''node.kubernetes.io/unreachable'', taint_Value = '''', taint_Effect = ''NoExecute''\<rparr>"

lemma gated_reads: "gate_reads (gated_world taints) ''mi-1'' (gated_node taints) gated_claim gated_class"
  by (simp add: gate_reads_def gated_world_def gated_node_def hybrid_node_def is_claim_ref_def nodeClaimAPIVersion_def gated_claim_def)

theorem gate_removes_open_taints_witness:
  "\<exists>w' new. run_state (Reconcile (gated_world [startup_taint, foreign_taint]) ''mi-1'') [] = ((0, None), w') \<and>
     PatchNode (gated_node [startup_taint, foreign_taint]) new None \<in> set w' \<and> \<not> hasTaintKey (n_Taints new) ''acme.io/agent''"
proof -
  let ?ts = "[startup_taint, foreign_taint]"
  let ?run = "run_state (Reconcile (gated_world ?ts) ''mi-1'') []"
  have "fst ?run = (0, None)" by code_simp
  then obtain w' where run: "?run = ((0, None), w')" by (metis prod.collapse)
  have "list_all (\<lambda>e. case e of PatchNode old new a \<Rightarrow> a = None | _ \<Rightarrow> True) (snd ?run)" by code_simp
  then have ok: "\<forall>old new a. PatchNode old new a \<in> set w' \<longrightarrow> a = None" using run by (fastforce simp: list_all_iff)
  let ?g = "hd (StartupTaintGates (ncl_Spec gated_class))"
  have g: "?g \<in> set (StartupTaintGates (ncl_Spec gated_class))" "TaintKey ?g = ''acme.io/agent''"
    "hasTaintKey (nc_StartupTaints gated_claim) (TaintKey ?g)" "hasTaintKey (n_Taints (gated_node ?ts)) ''acme.io/agent''"
    by (simp_all add: gated_class_def gated_claim_def gated_node_def hasTaintKey_def startup_taint_def)
  from conjunct2 [OF gate_removes_open_taints [OF run]] gated_reads [of ?ts] ok g
  have "\<exists>new. PatchNode (gated_node ?ts) new None \<in> set w' \<and> \<not> hasTaintKey (n_Taints new) ''acme.io/agent''" by metis
  with run show ?thesis by blast
qed

text \<open>The match is by key: the same patch drops a permanent taint of the NodePool, with another value
  and another effect, because it shares its key with a startup taint.\<close>

theorem gate_strips_permanent_taint:
  "\<exists>w' old new. run_state (Reconcile (gated_world [startup_taint, permanent_taint]) ''mi-1'') [] = ((0, None), w') \<and>
     PatchNode old new None \<in> set w' \<and> permanent_taint \<in> set (n_Taints old) \<and> permanent_taint \<notin> set (n_Taints new) \<and>
     permanent_taint \<notin> set (nc_StartupTaints gated_claim) \<and> permanent_taint \<in> set (nc_Taints gated_claim)"
proof -
  obtain w' where run: "run_state (Reconcile (gated_world [startup_taint, permanent_taint]) ''mi-1'') [] = ((0, None), w')"
    and patch: "PatchNode (gated_node [startup_taint, permanent_taint]) (gated_node []) None \<in> set w'"
    using gated_patch by blast
  have "permanent_taint \<in> set (n_Taints (gated_node [startup_taint, permanent_taint]))" "permanent_taint \<notin> set (n_Taints (gated_node []))"
    by (simp_all add: gated_node_def)
  moreover have "permanent_taint \<notin> set (nc_StartupTaints gated_claim)" "permanent_taint \<in> set (nc_Taints gated_claim)"
    by (simp_all add: gated_claim_def startup_taint_def permanent_taint_def)
  ultimately show ?thesis using run patch by blast
qed

text \<open>The controller writes no host.\<close>

lemma taintgate_legal: "rg (good at) (legal_event at) (Reconcile E name) (\<lambda>_. True)"
proof -
  have gates: "rg (good at) (legal_event at) (eval_gates E node nodeClaim gs acc) (\<lambda>_. True)" for node nodeClaim gs acc
    by (induction E node nodeClaim gs acc rule: eval_gates.induct)
       (auto simp: evaluate_def podsReady_def call_defs intro!: guar_rules)
  have obs: "rg (good at) (legal_event at) (observe_gates node keys) (\<lambda>_. True)" for node keys
    by (induction keys) (auto simp: call_defs intro!: guar_rules)
  have remove: "rg (good at) (legal_event at) (removeTaints E node keys) (\<lambda>_. True)" for node keys
    unfolding removeTaints_def call_defs by (intro guar_rules obs TrueI) simp_all
  have opened: "rg (good at) (legal_event at) (open_gates E node nodeClaim gs) (\<lambda>_. True)" for node nodeClaim gs
    unfolding open_gates_def by (intro guar_steps guar_bind_any gates remove TrueI)
  have reads: "rg (good at) (legal_event at) (nodeClaimFor E node) (\<lambda>_. True)"
    "rg (good at) (legal_event at) (nodeClassFor E nc) (\<lambda>_. True)" for node nc
    by (auto simp: nodeClaimFor_def nodeClassFor_def call_defs intro!: guar_rules)
  show ?thesis
    unfolding Reconcile_def call_defs by (intro guar_rules opened reads TrueI) simp_all
qed

subsection \<open>The events that are dropped\<close>

text \<open>The predicate \<^verbatim>\<open>Register\<close> puts on Node events.\<close>

definition gate_node_filter :: "Node \<Rightarrow> bool" where
  "gate_node_filter n = (n_Taints n \<noteq> [] \<and> ownedByNodeClaim n)"

lemma unowned_no_claim: "\<not> ownedByNodeClaim node \<Longrightarrow> nodeClaimFor E node = ret (Inr None)"
  by (auto simp: ownedByNodeClaim_def nodeClaimFor_def list_ex_iff split: option.splits dest: find_SomeD)

lemma ready_pods_split: "ready_pods node (before @ p # after) = ready_pods node (before @ after) + ready_pods node [p]"
  by (simp add: ready_pods_def)

text \<open>\<^bold>\<open>The dropped events carry no work.\<close> The controller does not look at a Node event that its filter
  rejects, nor at a Pod update that leaves readiness as it was. Nothing is missed: a reconcile of such a Node
  reads it and ends without another call and without a recheck; and a Pod that stays on its node and is not
  undeleted counts after such an update for no node for which it did not count before, so that no
  \<^verbatim>\<open>podsReady\<close> gate that was closed opens, whatever the other Pods are.\<close>

theorem dropped_events_irrelevant:
  "(\<not> gate_node_filter node \<and> w_GetNode E w name = Inr node \<longrightarrow>
      run_state (Reconcile E name) w = ((0, None), GetNode name (Inr node) # w)) \<and>
   (\<not> podReadyChanged old new \<and> pod_NodeName new = pod_NodeName old \<and> (pod_Deleted old \<longrightarrow> pod_Deleted new) \<and>
      ready_pods node (before @ old # after) < MinReadyOrDefault cond \<longrightarrow>
      ready_pods node (before @ new # after) < MinReadyOrDefault cond)"
proof (intro conjI impI)
  assume "\<not> gate_node_filter node \<and> w_GetNode E w name = Inr node"
  then show "run_state (Reconcile E name) w = ((0, None), GetNode name (Inr node) # w)"
    using unowned_no_claim [of node E] by (auto simp: Reconcile_def gate_node_filter_def call_defs)
next
  assume upd: "\<not> podReadyChanged old new \<and> pod_NodeName new = pod_NodeName old \<and> (pod_Deleted old \<longrightarrow> pod_Deleted new) \<and>
    ready_pods node (before @ old # after) < MinReadyOrDefault cond"
  then have "ready_pods node [new] \<le> ready_pods node [old]" by (auto simp: ready_pods_def podReadyChanged_def)
  with upd show "ready_pods node (before @ new # after) < MinReadyOrDefault cond"
    by (simp add: ready_pods_split [of node before])
qed

text \<open>An untainted Node, and a Pod that starts to terminate while it is ready.\<close>

theorem dropped_events_irrelevant_witness:
  "let pod = \<lparr>pod_NodeName = ''mi-1'', pod_Deleted = False, pod_Conditions = [(''Ready'', ConditionTrue)]\<rparr>;
       cond = \<lparr>pr_Namespace = ''kube-system'', pr_Selector = \<lparr>MatchLabels = [], MatchExpressions = []\<rparr>, pr_MinReady = Some 2\<rparr> in
   run_state (Reconcile (gated_world []) ''mi-1'') [] = ((0, None), [GetNode ''mi-1'' (Inr (gated_node []))]) \<and>
   ready_pods (gated_node []) [pod\<lparr>pod_Deleted := True\<rparr>] < MinReadyOrDefault cond"
  using dropped_events_irrelevant [where node = "gated_node []" and E = "gated_world []" and w = "[]" and name = "''mi-1''"
    and old = "\<lparr>pod_NodeName = ''mi-1'', pod_Deleted = False, pod_Conditions = [(''Ready'', ConditionTrue)]\<rparr>"
    and new = "\<lparr>pod_NodeName = ''mi-1'', pod_Deleted = True, pod_Conditions = [(''Ready'', ConditionTrue)]\<rparr>"
    and before = "[]" and after = "[]"
    and cond = "\<lparr>pr_Namespace = ''kube-system'', pr_Selector = \<lparr>MatchLabels = [], MatchExpressions = []\<rparr>, pr_MinReady = Some 2\<rparr>"]
  by (simp add: gate_node_filter_def gated_node_def gated_world_def hybrid_node_def podReadyChanged_def isPodReady_def
      condition_status_def ready_pods_def MinReadyOrDefault_def)

end
