(* ===== verification/Metrics.thy ===== *)
theory Metrics
  imports HostPool "HOL-Library.AList"
begin

section \<open>Pool inventory: pkg/metrics/metrics.go\<close>

text \<open>
  \<open>Collect\<close> is what the pool collector sends on a scrape: one gauge per state and host class, in any
  order. A count is exact as a float64 below 2 to the power 53. The functions that observe the histograms and
  counters of the same file are in Environment, beside the log they write to; their declarations are here. The
  Prometheus library panics when metrics are registered under the same name, with labels that repeat, with bucket bounds
  that do not increase, or are observed with another number of label values than they have labels; the
  last theorem says that none of that happens. (Label values must also be UTF-8, which the strings of API objects are.)
\<close>

definition gauge_key :: "SSHHost \<Rightarrow> string \<times> string" where
  "gauge_key h =
     (let state = show_state (State' (Status h)) in
      (if state = '''' then show_state Pending else state, HostClass h))"

definition count_host :: "SSHHost \<Rightarrow> ((string \<times> string) \<times> int) list \<Rightarrow> ((string \<times> string) \<times> int) list" where
  "count_host h counts =
     AList.update (gauge_key h) ((case map_of counts (gauge_key h) of None \<Rightarrow> 0 | Some n \<Rightarrow> n) + 1) counts"

definition Collect :: "world \<Rightarrow> ((string \<times> string) \<times> int) list io" where
  "Collect E = do {
     r \<leftarrow> listHosts E (w_PoolNamespace E) None;
     ret (case r of Inl _ \<Rightarrow> [] | Inr hosts \<Rightarrow> fold count_host hosts []) }"

lemma count_host_lookup:
  "map_of (count_host h counts) k =
     (if k = gauge_key h then Some ((case map_of counts k of None \<Rightarrow> 0 | Some n \<Rightarrow> n) + 1) else map_of counts k)"
  by (simp add: count_host_def update_conv')

lemma count_host_distinct: "distinct (map fst counts) \<Longrightarrow> distinct (map fst (count_host h counts))"
  by (simp add: count_host_def distinct_update)

lemma count_hosts:
  "distinct (map fst (fold count_host hosts [])) \<and>
   map_of (fold count_host hosts []) k =
     (let n = length (filter (\<lambda>h. gauge_key h = k) hosts) in if n = 0 then None else Some (int n))"
proof (induction hosts arbitrary: k rule: rev_induct)
  case (snoc h hosts)
  from snoc [of k] show ?case
    by (auto simp: count_host_lookup count_host_distinct Let_def)
qed simp

text \<open>The gauges of a scrape add up: for every state and class, the number of hosts in it, and no gauge
  for an empty one; a failed list gives no gauges.\<close>

theorem gauges_count_hosts:
  assumes "run_state (Collect E) w = (gauges, w')"
  shows "\<exists>r. w' = ListHosts (w_PoolNamespace E) None r # w \<and> (case r of Inl _ \<Rightarrow> gauges = []
    | Inr hosts \<Rightarrow> distinct (map fst gauges) \<and>
        (\<forall>k. map_of gauges k = (let n = length (filter (\<lambda>h. gauge_key h = k) hosts) in if n = 0 then None else Some (int n))))"
  using assms count_hosts by (auto simp: Collect_def call_defs split: sum.splits)

subsection \<open>Declarations\<close>

text \<open>The options of a metric. Bucket bounds are in milliseconds; a counter and a gauge have none.\<close>

record metric =
  m_Namespace :: string
  m_Subsystem :: string
  m_Name :: string
  m_Help :: string
  m_Buckets :: "int list"
  m_Labels :: "string list"

definition sshBuckets :: "int list" where
  "sshBuckets = [250, 500, 1000, 2500, 5000, 10000, 30000, 60000, 120000, 300000, 600000]"

definition probeDuration :: metric where
  "probeDuration = \<lparr>m_Namespace = ''kpssh'', m_Subsystem = ''host'', m_Name = ''probe_duration_seconds'',
     m_Help = ''Duration of SSH host probes.'', m_Buckets = sshBuckets, m_Labels = [''outcome'']\<rparr>"

definition phaseDuration :: metric where
  "phaseDuration = \<lparr>m_Namespace = ''kpssh'', m_Subsystem = ''instance'', m_Name = ''phase_duration_seconds'',
     m_Help = ''Duration of profile script phases executed over SSH.'', m_Buckets = sshBuckets,
     m_Labels = [''phase'', ''outcome'']\<rparr>"

definition startupTaintGate :: metric where
  "startupTaintGate = \<lparr>m_Namespace = ''kpssh'', m_Subsystem = ''node'', m_Name = ''startup_taint_gate_seconds'',
     m_Help = ''Time from Node creation until a gated startup taint was removed.'',
     m_Buckets = [1000, 2500, 5000, 10000, 20000, 30000, 60000, 120000, 300000, 600000, 1200000],
     m_Labels = [''taint_key'']\<rparr>"

definition zombieActions :: metric where
  "zombieActions = \<lparr>m_Namespace = ''kpssh'', m_Subsystem = ''host'', m_Name = ''zombie_actions_total'',
     m_Help = ''Zombie guard interventions on unclaimed hosts running a kubelet.'', m_Buckets = [], m_Labels = [''action'']\<rparr>"

text \<open>The descriptor of the pool collector, which gives its full name at once.\<close>

definition pool_desc :: metric where
  "pool_desc = \<lparr>m_Namespace = '''', m_Subsystem = '''', m_Name = ''kpssh_pool_hosts'',
     m_Help = ''Hosts in the pool by lifecycle state and host class.'', m_Buckets = [], m_Labels = [''state'', ''class'']\<rparr>"

definition registered :: "metric list" where
  "registered = [probeDuration, phaseDuration, zombieActions, startupTaintGate, pool_desc]"

text \<open>The name under which a metric is registered: the non-empty parts, joined.\<close>

definition fq_name :: "metric \<Rightarrow> string" where
  "fq_name m = Join (filter (\<lambda>s. s \<noteq> '''') [m_Namespace m, m_Subsystem m, m_Name m]) ''_''"

text \<open>The metric and the label values of an observation, and those of a gauge.\<close>

fun observation :: "event \<Rightarrow> (metric \<times> string list) option" where
  "observation (ObservedProbe res) = Some (probeDuration, [res])"
| "observation (ObservedPhase phase res) = Some (phaseDuration, [phase, res])"
| "observation (ZombieAction action) = Some (zombieActions, [action])"
| "observation (ObservedGate key t) = Some (startupTaintGate, [key])"
| "observation _ = None"

definition gauge_labels :: "string \<times> string \<Rightarrow> string list" where
  "gauge_labels k = [fst k, snd k]"

text \<open>\<^bold>\<open>The metrics are used as they are declared.\<close> The registered metrics have different names, each has
  distinct labels, none of them the reserved \<^verbatim>\<open>le\<close>, and increasing buckets; every observation and every gauge
  gives one value for each label of a registered metric.\<close>

theorem metrics_consistent:
  "distinct (map fq_name registered) \<and>
   (\<forall>m \<in> set registered. distinct (m_Labels m) \<and> ''le'' \<notin> set (m_Labels m) \<and> sorted_wrt (<) (m_Buckets m)) \<and>
   (\<forall>e m vs. observation e = Some (m, vs) \<longrightarrow> m \<in> set registered \<and> length vs = length (m_Labels m)) \<and>
   pool_desc \<in> set registered \<and> (\<forall>k. length (gauge_labels k) = length (m_Labels pool_desc))"
proof (intro conjI ballI allI impI)
  note metrics = probeDuration_def phaseDuration_def zombieActions_def startupTaintGate_def pool_desc_def
  show "distinct (map fq_name registered)" by code_simp
  fix m
  assume "m \<in> set registered"
  then show "distinct (m_Labels m)" "''le'' \<notin> set (m_Labels m)" "sorted_wrt (<) (m_Buckets m)"
    by (auto simp: registered_def metrics sshBuckets_def)
next
  fix e m vs
  assume "observation e = Some (m, vs)"
  then show "m \<in> set registered" "length vs = length (m_Labels m)"
    by (cases e rule: observation.cases; auto simp: registered_def probeDuration_def phaseDuration_def zombieActions_def startupTaintGate_def)+
qed (simp_all add: registered_def gauge_labels_def pool_desc_def)

end
