(* ===== verification/Operator.thy ===== *)
theory Operator
  imports CloudProvider NodeClassController TaintGate Metrics
begin

section \<open>The assembled program: pkg/operator, pkg/controllers/controllers.go, cmd/controller/main.go\<close>

text \<open>
  \<open>NewOperator\<close> builds the providers on one API client, \<open>sshCloudProvider\<close> is the cloud provider \<^verbatim>\<open>main\<close>
  hands to karpenter core, \<open>NewControllers\<close> the reconcilers it starts (operatorpkg's own status
  controller left out), each as a function of the request. The pool namespace, which
  the program takes from its environment, is \<open>w_PoolNamespace\<close>. Starting the manager is not modelled.
\<close>

record Operator =
  HostProvider :: host_provider
  InstanceProvider :: instance_provider
  InstanceTypeProvider :: "SSHNodeClass \<Rightarrow> (err + InstanceType list) io"

definition NewOperator :: "world \<Rightarrow> Operator" where
  "NewOperator E =
     (let hostProvider = DefaultHostProvider E;
          instanceTypeProvider = ListTypes hostProvider E;
          instanceProvider = DefaultInstanceProvider E
      in \<lparr>HostProvider = hostProvider, InstanceProvider = instanceProvider, InstanceTypeProvider = instanceTypeProvider\<rparr>)"

definition sshCloudProvider :: "world \<Rightarrow> bool \<Rightarrow> CloudProvider" where
  "sshCloudProvider E legacy =
     (let op = NewOperator E in WithLegacyNodeRepair legacy (New (InstanceProvider op) (InstanceTypeProvider op)))"

definition NewControllers :: "world \<Rightarrow> host_provider \<Rightarrow> (nsname \<Rightarrow> reconcile io) list" where
  "NewControllers E hostProvider =
     [HostProbe.Reconcile (DefaultBootstrapProvider E) E,
      \<lambda>req. NodeClassController.Reconcile hostProvider E (snd req),
      \<lambda>req. TaintGate.Reconcile E (snd req)]"

lemma sshCloudProvider_sel [simp]:
  "instanceProvider (sshCloudProvider E legacy) = DefaultInstanceProvider E"
  "instanceTypeProvider (sshCloudProvider E legacy) = ListTypes (DefaultHostProvider E) E"
  "legacyNodeRepair (sshCloudProvider E legacy) = legacy"
  by (simp_all add: sshCloudProvider_def NewOperator_def New_def WithLegacyNodeRepair_def Let_def)

text \<open>The flag for legacy repair changes nothing but the repair policies.\<close>

lemma legacy_irrelevant:
  "CloudProvider.Create (sshCloudProvider E legacy) = CloudProvider.Create (DefaultCloudProvider E)"
  "CloudProvider.Delete (sshCloudProvider E legacy) = CloudProvider.Delete (DefaultCloudProvider E)"
  "IsDrifted (sshCloudProvider E legacy) = IsDrifted (DefaultCloudProvider E)"
proof -
  have "launch (sshCloudProvider E legacy) = launch (DefaultCloudProvider E)"
    "resolveInstanceTypes (sshCloudProvider E legacy) = resolveInstanceTypes (DefaultCloudProvider E)"
    by (intro ext, simp add: launch_def resolveInstanceTypes_def)+
  then show "CloudProvider.Create (sshCloudProvider E legacy) = CloudProvider.Create (DefaultCloudProvider E)"
    by (intro ext) (simp only: CloudProvider.Create_def)
  show "CloudProvider.Delete (sshCloudProvider E legacy) = CloudProvider.Delete (DefaultCloudProvider E)"
    "IsDrifted (sshCloudProvider E legacy) = IsDrifted (DefaultCloudProvider E)"
    by (intro ext, simp add: CloudProvider.Delete_def IsDrifted_def)+
qed

text \<open>What core asks of the repair policies: exactly one fallback (without a reason pattern), and with
  legacy repair, which knows no other action, only replacements.\<close>

lemma repair_policies_valid:
  "length (filter (\<lambda>p. rp_ReasonRegex p = '''') (RepairPolicies C)) = 1 \<and>
   distinct (map rp_ConditionStatus (RepairPolicies C)) \<and>
   (legacyNodeRepair C \<longrightarrow> list_all (\<lambda>p. rp_Action p = ReplaceNode) (RepairPolicies C))"
  by (simp add: RepairPolicies_def)

interpretation assembled: cloud_contract "sshCloudProvider E legacy" "good at" "legal_event at" for E legacy at
  by unfold_locales (simp_all add: lifecycle.Create_calls lifecycle.Delete_calls lifecycle.Get_calls
      lifecycle.List_calls lifecycle.Reboot_calls ListTypes_calls)

lemma Collect_legal: "rg (good at) (legal_event at) (Metrics.Collect E) (\<lambda>_. True)"
  by (auto simp: Metrics.Collect_def call_defs intro!: guar_rules)

lemma controllers_legal:
  "c \<in> set (NewControllers E (HostProvider (NewOperator E))) \<Longrightarrow> rg (good at) (legal_event at) (c req) (\<lambda>_. True)"
  by (auto simp: NewControllers_def NewOperator_def Let_def
      intro!: HostProbe.Reconcile_legal nodeclass_legal taintgate_legal)

end
