(* ===== verification/HostMachine.thy ===== *)
theory HostMachine
  imports Operator
begin

section \<open>The shared host state machine\<close>

text \<open>
  The whole system: any number of concurrent executions of the cloud provider's operations, of the
  instance lifecycle below them, of the three controllers' \<^verbatim>\<open>Reconcile\<close> and of metric scrapes over one API server, interleaved call by call, together with users
  who create hosts, edit their metadata and spec, and clear the install marker and the recorded host key
  of a rebuilt machine, as docs/operations.md and docs/troubleshooting.md tell them to. The state is the list of all versions of all
  hosts, newest first, and the trace of the calls, newest first, each with the execution that made
  it. A status write that names a version is accepted only while this version is the current one of
  its host.

  The theorems close the circle of HostRules: each execution's guarantee holds as long as the
  answers it got were good, the answers are good because every version obeys the invariant, and the
  invariant holds because every write is one of the executions' and so is legal.
\<close>

subsection \<open>The API server\<close>

type_synonym history = "SSHHost list"

definition key :: "SSHHost \<Rightarrow> nsname" where
  "key h = (h_Namespace h, h_Name h)"

definition current :: "history \<Rightarrow> nsname \<Rightarrow> SSHHost option" where
  "current hs k = List.find (\<lambda>h. key h = k) hs"

definition fresh :: "history \<Rightarrow> string \<Rightarrow> bool" where
  "fresh hs rv \<longleftrightarrow> rv \<notin> h_ResourceVersion ` set hs"

text \<open>The version stored under a resource version; a made-up new host for one that does not exist.\<close>

definition new_status :: SSHHostStatus where
  "new_status = \<lparr>State' = StateUnset, Conditions = [], ClaimRef = None, InstalledProfile = '''',
     BootstrapTokenID = '''', ProviderID' = '''', HostKeyFingerprint = '''', ObservedCapacity = [],
     ObservedArch = '''', ObservedGeneration = 0, LastProbeTime = None, LastProbeError = ''''\<rparr>"

definition lookup :: "history \<Rightarrow> string \<Rightarrow> SSHHost" where
  "lookup hs rv = (case List.find (\<lambda>h. h_ResourceVersion h = rv) hs of
       Some h \<Rightarrow> h
     | None \<Rightarrow> sample_host\<lparr>h_ResourceVersion := rv, Status := new_status\<rparr>)"

text \<open>A call that changes no host: reads return versions of the history, possibly stale ones, and only
  writes report conflicts.\<close>

fun serves :: "history \<Rightarrow> event \<Rightarrow> bool" where
  "serves hs (GetHost nn (Inr h)) \<longleftrightarrow> h \<in> set hs \<and> key h = nn"
| "serves hs (GetHost nn (Inl e)) \<longleftrightarrow> \<not> IsConflict e"
| "serves hs (ListHosts ns sel (Inr vs)) \<longleftrightarrow> set vs \<subseteq> set hs"
| "serves hs (UpdateHostStatus new (Inr h)) \<longleftrightarrow> False"
| "serves hs (PatchHostStatus orig new (Inr h)) \<longleftrightarrow> False"
| "serves hs _ \<longleftrightarrow> True"

text \<open>The version an accepted write is based on and the status it leaves.\<close>

fun write_of :: "event \<Rightarrow> (SSHHost \<times> (SSHHost \<Rightarrow> SSHHostStatus) \<times> SSHHost) option" where
  "write_of (UpdateHostStatus new (Inr h)) = Some (new, \<lambda>b. Status new, h)"
| "write_of (PatchHostStatus orig new (Inr h)) = Some (orig, \<lambda>b. merge_status (Status orig) (Status new) (Status b), h)"
| "write_of _ = None"

text \<open>An accepted write: the version it names is the current one of its host.\<close>

definition accepts :: "history \<Rightarrow> event \<Rightarrow> SSHHost \<Rightarrow> SSHHost \<Rightarrow> bool" where
  "accepts hs e b h = (case write_of e of
       None \<Rightarrow> False
     | Some (arg, effect, res) \<Rightarrow> current hs (key arg) = Some b \<and> h_ResourceVersion arg = h_ResourceVersion b \<and>
         h = with_version (effect b) (h_ResourceVersion h) b \<and> res = h \<and> fresh hs (h_ResourceVersion h))"

type_synonym trace = "(nat \<times> event) list"

text \<open>What a user's edit may do to the status: clear the install marker or the host key, or leave it alone.\<close>

definition operator_edit :: "SSHHostStatus \<Rightarrow> SSHHostStatus \<Rightarrow> bool" where
  "operator_edit s t \<longleftrightarrow> InstalledProfile t \<in> {InstalledProfile s, ''''} \<and> HostKeyFingerprint t \<in> {HostKeyFingerprint s, ''''} \<and>
     t = s\<lparr>InstalledProfile := InstalledProfile t, HostKeyFingerprint := HostKeyFingerprint t\<rparr>"

lemma operator_edit_keeps:
  assumes "operator_edit s t"
  shows "ClaimRef t = ClaimRef s" "State' t = State' s" "ProviderID' t = ProviderID' s"
    "HostKeyFingerprint t = HostKeyFingerprint s \<or> HostKeyFingerprint t = ''''"
proof -
  from assms have t: "t = s\<lparr>InstalledProfile := InstalledProfile t, HostKeyFingerprint := HostKeyFingerprint t\<rparr>"
    by (simp add: operator_edit_def)
  show "ClaimRef t = ClaimRef s" "State' t = State' s" "ProviderID' t = ProviderID' s" by (subst t, simp)+
  from assms show "HostKeyFingerprint t = HostKeyFingerprint s \<or> HostKeyFingerprint t = ''''" by (simp add: operator_edit_def)
qed

lemma operator_edit_refl [simp]: "operator_edit s s"
  by (simp add: operator_edit_def)

inductive system :: "history \<Rightarrow> trace \<Rightarrow> bool" where
  start: "system [] []"
| create: "system hs tr \<Longrightarrow> Status h = new_status \<Longrightarrow> fresh hs (h_ResourceVersion h) \<Longrightarrow> system (h # hs) tr"
| edit: "system hs tr \<Longrightarrow> current hs (key h) = Some b \<Longrightarrow> operator_edit (Status b) (Status h) \<Longrightarrow>
    fresh hs (h_ResourceVersion h) \<Longrightarrow> system (h # hs) tr"
| call: "system hs tr \<Longrightarrow> serves hs e \<Longrightarrow> system hs ((a, e) # tr)"
| accept: "system hs tr \<Longrightarrow> accepts hs e b h \<Longrightarrow> system (h # hs) ((a, e) # tr)"

subsection \<open>The actors\<close>

text \<open>The log of one execution, and the executions the program consists of. An execution may be
  unfinished: its log is the beginning of a run, in a world that answers as the trace says.\<close>

definition log_of :: "nat \<Rightarrow> trace \<Rightarrow> event log" where
  "log_of a tr = map snd (filter (\<lambda>(b, e). b = a) tr)"

inductive operation :: "unit io \<Rightarrow> bool" where
  instance_Create: "operation (Instance.Create (DefaultHostProvider E) (DefaultBootstrapProvider E) E nodeClass nc its \<bind> (\<lambda>_. ret ()))"
| instance_Delete: "operation (Instance.Delete (DefaultHostProvider E) (DefaultBootstrapProvider E) E nc \<bind> (\<lambda>_. ret ()))"
| instance_Reboot: "operation (Instance.Reboot (DefaultHostProvider E) E nc \<bind> (\<lambda>_. ret ()))"
| cloud_Create: "operation (CloudProvider.Create (sshCloudProvider E legacy) E K nc \<bind> (\<lambda>_. ret ()))"
| cloud_Delete: "operation (CloudProvider.Delete (sshCloudProvider E legacy) nc \<bind> (\<lambda>_. ret ()))"
| cloud_Reboot: "operation (CloudProvider.Reboot (sshCloudProvider E legacy) nc oper \<bind> (\<lambda>_. ret ()))"
| cloud_Get: "operation (CloudProvider.Get (sshCloudProvider E legacy) K pid \<bind> (\<lambda>_. ret ()))"
| cloud_List: "operation (List_claims (sshCloudProvider E legacy) K \<bind> (\<lambda>_. ret ()))"
| cloud_Types: "operation (GetInstanceTypes (sshCloudProvider E legacy) E np \<bind> (\<lambda>_. ret ()))"
| cloud_Drift: "operation (IsDrifted (sshCloudProvider E legacy) E nc \<bind> (\<lambda>_. ret ()))"
| controller: "c \<in> set (NewControllers E (HostProvider (NewOperator E))) \<Longrightarrow> operation (c req \<bind> (\<lambda>_. ret ()))"
| scrape: "operation (Metrics.Collect E \<bind> (\<lambda>_. ret ()))"

definition by_operations :: "trace \<Rightarrow> bool" where
  "by_operations tr \<longleftrightarrow> (\<forall>a. \<exists>m r later. operation m \<and> run_state m [] = (r, later @ log_of a tr))"

lemmas operations_legal = lifecycle.Create_calls lifecycle.Delete_calls lifecycle.Reboot_calls assembled.Create_calls
  assembled.end_calls assembled.read_calls controllers_legal Collect_legal

lemma operation_legal: "operation m \<Longrightarrow> rg (good at) (legal_event at) m (\<lambda>_. True)"
  by (induction rule: operation.induct) (intro guar_bind_any guar_return TrueI operations_legal; assumption?)+

lemma by_operations_tl: "by_operations ((a, e) # tr) \<Longrightarrow> by_operations tr"
proof (unfold by_operations_def, intro allI)
  fix b
  assume "\<forall>a'. \<exists>m r later. operation m \<and> run_state m [] = (r, later @ log_of a' ((a, e) # tr))"
  then obtain m r later where m: "operation m" and run: "run_state m [] = (r, later @ log_of b ((a, e) # tr))" by blast
  have "\<exists>later'. later @ log_of b ((a, e) # tr) = later' @ log_of b tr"
    by (cases "a = b") (auto simp: log_of_def)
  with m run show "\<exists>m r later. operation m \<and> run_state m [] = (r, later @ log_of b tr)" by metis
qed

text \<open>A call that follows only good answers of its own execution is legal.\<close>

lemma by_operations_legal:
  assumes "by_operations ((a, e) # tr)" and "list_all (good at) (log_of a tr)"
  shows "legal_event at e"
proof -
  have "log_of a ((a, e) # tr) = e # log_of a tr" by (simp add: log_of_def)
  with assms(1) obtain m r later where "operation m" and "run_state m [] = (r, later @ e # log_of a tr)"
    unfolding by_operations_def by metis
  then show ?thesis using assms(2) by (blast intro: rg_call operation_legal)
qed

subsection \<open>Versions\<close>

lemma current_in: "current hs k = Some h \<Longrightarrow> h \<in> set hs \<and> key h = k"
  by (auto simp: current_def dest: find_SomeD)

lemma system_distinct: "system hs tr \<Longrightarrow> distinct (map h_ResourceVersion hs)"
  by (induction rule: system.induct) (auto simp: fresh_def accepts_def split: option.splits)

lemma lookup_in: "distinct (map h_ResourceVersion hs) \<Longrightarrow> h \<in> set hs \<Longrightarrow> lookup hs (h_ResourceVersion h) = h"
  by (induction hs) (auto simp: lookup_def image_iff)

lemma stored_lookup: "distinct (map h_ResourceVersion hs) \<Longrightarrow> h \<in> set hs \<Longrightarrow> stored (lookup hs) h"
  by (simp add: stored_def lookup_in)

text \<open>What the history has to say about a call that was answered. Longer histories say it too.\<close>

definition justified :: "history \<Rightarrow> event \<Rightarrow> bool" where
  "justified hs e \<longleftrightarrow> serves hs e \<or> (\<exists>arg effect h b. write_of e = Some (arg, effect, h) \<and> b \<in> set hs \<and> h \<in> set hs \<and>
     h_ResourceVersion arg = h_ResourceVersion b \<and> h = with_version (effect b) (h_ResourceVersion h) b)"

lemma serves_mono: "serves hs e \<Longrightarrow> set hs \<subseteq> set hs' \<Longrightarrow> serves hs' e"
  by (induction hs e rule: serves.induct) auto

lemma justified_mono: "justified hs e \<Longrightarrow> set hs \<subseteq> set hs' \<Longrightarrow> justified hs' e"
  unfolding justified_def using serves_mono by blast

lemma justified_Cons: "\<forall>(a, e) \<in> set tr. justified hs e \<Longrightarrow> (a, e) \<in> set tr \<Longrightarrow> justified (h # hs) e"
  by (rule justified_mono [of hs]) auto

lemma justified_good:
  assumes "justified hs e" and d: "distinct (map h_ResourceVersion hs)" and inv: "\<forall>h \<in> set hs. host_inv (Status h)"
  shows "good (lookup hs) e"
proof -
  have known: "known (lookup hs) h" if "h \<in> set hs" for h
    using that d inv by (simp add: known_def stored_lookup)
  have base: "base (lookup hs) arg = b" if "h_ResourceVersion arg = h_ResourceVersion b" "b \<in> set hs" for arg b
    using that d by (simp add: base_def lookup_in)
  from assms(1) show ?thesis
    unfolding justified_def
  proof
    assume "serves hs e"
    then show ?thesis using known by (induction hs e rule: serves.induct) (auto simp: key_def)
  next
    assume "\<exists>arg effect h b. write_of e = Some (arg, effect, h) \<and> b \<in> set hs \<and> h \<in> set hs \<and>
     h_ResourceVersion arg = h_ResourceVersion b \<and> h = with_version (effect b) (h_ResourceVersion h) b"
    then show ?thesis
      using stored_lookup [OF d]
      by (cases e rule: write_of.cases) (auto simp: written_def patched_def dest!: base)
  qed
qed

subsection \<open>Every version is a legal successor\<close>

text \<open>The versions that calls of the program have stored; the others come from users.\<close>

definition stored_by :: "trace \<Rightarrow> SSHHost set" where
  "stored_by tr = {h. \<exists>a e arg effect. (a, e) \<in> set tr \<and> write_of e = Some (arg, effect, h)}"

lemma stored_by_simps [simp]:
  "stored_by [] = {}"
  "stored_by ((a, e) # tr) = (case write_of e of None \<Rightarrow> {} | Some (arg, effect, h) \<Rightarrow> {h}) \<union> stored_by tr"
  by (auto simp: stored_by_def split: option.splits)

fun lawful :: "SSHHost set \<Rightarrow> history \<Rightarrow> bool" where
  "lawful W [] = True"
| "lawful W (h # hs) \<longleftrightarrow> lawful W hs \<and>
     (if h \<in> W then \<exists>b. current hs (key h) = Some b \<and> legal b (Status h)
      else Status h = new_status \<or> (\<exists>b. current hs (key h) = Some b \<and> operator_edit (Status b) (Status h)))"

lemma lawful_cong: "(\<And>h. h \<in> set hs \<Longrightarrow> h \<in> W \<longleftrightarrow> h \<in> W') \<Longrightarrow> lawful W hs \<longleftrightarrow> lawful W' hs"
  by (induction hs) auto

lemma lawful_drop: "lawful W (xs @ ys) \<Longrightarrow> lawful W ys"
  by (induction xs) auto

text \<open>A step of a lawful history, whoever made it.\<close>

lemma lawful_step:
  "lawful W (h # hs) \<Longrightarrow> Status h = new_status \<or>
     (\<exists>b. current hs (key h) = Some b \<and> (operator_edit (Status b) (Status h) \<or> legal b (Status h)))"
  by (auto split: if_splits)

lemma lawful_claimed:
  assumes "lawful W (h # hs)" and "ClaimRef (Status h) = Some c"
  obtains b where "current hs (key h) = Some b" and "operator_edit (Status b) (Status h) \<or> legal b (Status h)"
proof -
  have "Status h \<noteq> new_status" using assms(2) by (auto simp: new_status_def)
  with lawful_step [OF assms(1)] that show thesis by blast
qed

lemma host_inv_edit: "operator_edit s t \<Longrightarrow> host_inv s \<Longrightarrow> host_inv t"
  by (simp add: host_inv_def operator_edit_keeps)

lemma lawful_inv: "lawful W hs \<Longrightarrow> \<forall>h \<in> set hs. host_inv (Status h)"
proof (induction hs)
  case (Cons h hs)
  then have inv: "\<forall>h \<in> set hs. host_inv (Status h)" by simp
  have "host_inv (Status h)" if "current hs (key h) = Some b" "operator_edit (Status b) (Status h) \<or> legal b (Status h)" for b
    using that inv current_in host_inv_edit legal_inv by blast
  moreover have "host_inv new_status" by (simp add: new_status_def host_inv_def)
  ultimately have "host_inv (Status h)" using lawful_step [OF Cons.prems] by metis
  with inv show ?case by simp
qed simp

lemma accepts_legal:
  assumes "accepts hs e b h" and "legal_event (lookup hs) e" and "distinct (map h_ResourceVersion hs)"
  shows "current hs (key h) = Some b \<and> legal b (Status h) \<and> justified (h # hs) e"
proof -
  from assms(1) obtain arg effect where w: "write_of e = Some (arg, effect, h)" and cur: "current hs (key arg) = Some b"
    and rv: "h_ResourceVersion arg = h_ResourceVersion b" and h: "h = with_version (effect b) (h_ResourceVersion h) b"
    by (auto simp: accepts_def split: option.splits)
  have b: "b \<in> set hs" "key b = key arg" using current_in [OF cur] by auto
  have kh: "key h = key b" by (subst h) (simp add: key_def)
  have st: "Status h = effect b" by (subst h) simp
  have "base (lookup hs) arg = b" using rv b(1) assms(3) by (simp add: base_def lookup_in)
  then have "legal b (effect b)"
    using w assms(2) by (cases e rule: write_of.cases) (auto simp: patched_def)
  moreover have "justified (h # hs) e" unfolding justified_def using w b(1) rv h by auto
  ultimately show ?thesis using cur kh b(2) st by simp
qed

lemma write_not_served: "write_of e = Some x \<Longrightarrow> \<not> serves hs e"
  by (cases e rule: write_of.cases) auto

lemma stored_by_in: "\<forall>(a, e) \<in> set tr. justified hs e \<Longrightarrow> stored_by tr \<subseteq> set hs"
  unfolding stored_by_def justified_def using write_not_served by fastforce

lemma system_lawful:
  "system hs tr \<Longrightarrow> by_operations tr \<Longrightarrow> lawful (stored_by tr) hs \<and> (\<forall>(a, e) \<in> set tr. justified hs e)"
proof (induction rule: system.induct)
  case (create hs tr h)
  then have IH: "lawful (stored_by tr) hs" "\<forall>(a, e) \<in> set tr. justified hs e" by blast+
  have "h \<notin> stored_by tr" using stored_by_in [OF IH(2)] create.hyps(3) by (auto simp: fresh_def)
  with IH create.hyps(2) show ?case by (auto intro: justified_Cons)
next
  case (edit hs tr h b)
  then have IH: "lawful (stored_by tr) hs" "\<forall>(a, e) \<in> set tr. justified hs e" by blast+
  have "h \<notin> stored_by tr" using stored_by_in [OF IH(2)] edit.hyps(4) by (auto simp: fresh_def)
  with IH edit.hyps(2,3) show ?case by (auto intro: justified_Cons)
next
  case (call hs tr e a)
  then have "lawful (stored_by tr) hs \<and> (\<forall>(a, e) \<in> set tr. justified hs e)" using by_operations_tl by blast
  moreover have "write_of e = None" using call.hyps(2) write_not_served by (cases "write_of e") auto
  ultimately show ?case using call.hyps(2) by (auto simp: justified_def)
next
  case (accept hs tr e b h a)
  then have IH: "lawful (stored_by tr) hs" "\<forall>(a, e) \<in> set tr. justified hs e" using by_operations_tl by blast+
  have d: "distinct (map h_ResourceVersion hs)" by (rule system_distinct) fact
  have "good (lookup hs) e'" if "(a', e') \<in> set tr" for a' e'
    using that IH lawful_inv d by (blast intro: justified_good)
  then have "list_all (good (lookup hs)) (log_of a tr)" by (auto simp: log_of_def list_all_iff)
  then have "legal_event (lookup hs) e" by (rule by_operations_legal [OF accept.prems])
  note legal = accepts_legal [OF accept.hyps(2) this d]
  have adds: "stored_by ((a, e) # tr) = insert h (stored_by tr)"
    using accept.hyps(2) by (auto simp: accepts_def split: option.splits)
  have "h \<notin> set hs" using accept.hyps(2) by (auto simp: accepts_def fresh_def split: option.splits)
  then have "lawful (insert h (stored_by tr)) hs" using IH(1) lawful_cong [of hs "insert h (stored_by tr)" "stored_by tr"] by auto
  with legal IH(2) show ?case unfolding adds by (auto intro: justified_Cons)
qed simp

text \<open>Who held a host before: between versions with different claims there is a free one.\<close>

lemma current_Cons: "current (h # hs) k = (if key h = k then Some h else current hs k)"
  by (simp add: current_def)

lemma lawful_skip: "lawful W (h # y # hs) \<Longrightarrow> key y \<noteq> key h \<Longrightarrow> lawful W (h # hs)"
  by (auto simp: current_Cons split: if_splits)

lemma lawful_claims:
  assumes "lawful W (h2 # ys @ h1 # zs)" and "key h1 = key h2"
    and "ClaimRef (Status h1) = Some c1" and "ClaimRef (Status h2) = Some c2" and "c1 \<noteq> c2"
  shows "\<exists>u \<in> set ys. key u = key h1 \<and> ClaimRef (Status u) = None \<and> State' (Status u) = Available \<and>
    map_of (h_Annotations u) MaintenanceAnnotation = None"
  using assms
proof (induction ys arbitrary: h2)
  case Nil
  obtain b where b: "current (h1 # zs) (key h2) = Some b" "operator_edit (Status b) (Status h2) \<or> legal b (Status h2)"
    using lawful_claimed [OF Nil.prems(1) [unfolded append_Nil] Nil.prems(4)] .
  with Nil.prems(2) have "b = h1" by (simp add: current_Cons)
  with b(2) have "operator_edit (Status h1) (Status h2) \<or> legal h1 (Status h2)" by simp
  then have "ClaimRef (Status h2) = ClaimRef (Status h1)"
    using operator_edit_keeps(1) Nil.prems(3,4) unfolding legal_def by auto
  with Nil.prems(3-5) show ?case by simp
next
  case (Cons y ys)
  have step: "operator_edit (Status y) (Status h2) \<or> legal y (Status h2)" if "key y = key h2"
  proof -
    obtain b where "current (y # ys @ h1 # zs) (key h2) = Some b" "operator_edit (Status b) (Status h2) \<or> legal b (Status h2)"
      using lawful_claimed [OF Cons.prems(1) [unfolded append_Cons] Cons.prems(4)] .
    with that show ?thesis by (simp add: current_Cons)
  qed
  show ?case
  proof (cases "key y = key h2 \<and> ClaimRef (Status y) = None")
    case True
    with step Cons.prems(4) have "legal y (Status h2)" using operator_edit_keeps(1) by fastforce
    with True Cons.prems(2,4) have "State' (Status y) = Available" "map_of (h_Annotations y) MaintenanceAnnotation = None"
      unfolding legal_def by auto
    with True Cons.prems(2) show ?thesis by (intro bexI [of _ y]) auto
  next
    case False
    have tl: "lawful W (y # ys @ h1 # zs)" using lawful_drop [of W "[h2]" "y # ys @ h1 # zs"] Cons.prems(1) by simp
    show ?thesis
    proof (cases "key y = key h2")
      case True
      with False obtain c where "ClaimRef (Status y) = Some c" by auto
      with step [OF True] Cons.prems(4) have "ClaimRef (Status y) = Some c2"
        using operator_edit_keeps(1) unfolding legal_def by fastforce
      with Cons.IH [OF tl] True Cons.prems(2,3,5) show ?thesis by simp
    next
      case skip: False
      with Cons.prems(1) have "lawful W (h2 # ys @ h1 # zs)" unfolding append_Cons by (rule lawful_skip)
      from Cons.IH [OF this Cons.prems(2-5)] show ?thesis by simp
    qed
  qed
qed

text \<open>A version without a host key that follows one with a key comes from a user.\<close>

lemma lawful_pin:
  assumes "lawful W (h2 # ys @ h1 # zs)" and "key h1 = key h2" and "HostKeyFingerprint (Status h1) \<noteq> ''''"
    and "\<forall>u \<in> set (h2 # ys). key u = key h1 \<and> HostKeyFingerprint (Status u) = '''' \<longrightarrow> u \<in> W"
  shows "HostKeyFingerprint (Status h2) = HostKeyFingerprint (Status h1)"
proof -
  have step: "HostKeyFingerprint (Status h) = HostKeyFingerprint (Status b)"
    if "lawful W (h # hs)" "current hs (key h) = Some b" "HostKeyFingerprint (Status b) \<noteq> ''''"
      "HostKeyFingerprint (Status h) = '''' \<longrightarrow> h \<in> W" for h hs b
  proof (cases "h \<in> W")
    case True
    with that show ?thesis by (simp add: legal_def)
  next
    case False
    with that have "HostKeyFingerprint (Status h) \<noteq> ''''" by blast
    moreover from this have "Status h \<noteq> new_status" by (auto simp: new_status_def)
    moreover from this False that(1,2) have "operator_edit (Status b) (Status h)" by simp
    ultimately show ?thesis using operator_edit_keeps(4) by blast
  qed
  show ?thesis
    using assms
  proof (induction ys arbitrary: h2)
    case Nil
    have "current (h1 # zs) (key h2) = Some h1" using Nil.prems(2) by (simp add: current_Cons)
    from step [OF Nil.prems(1) [unfolded append_Nil] this Nil.prems(3)] Nil.prems(2,4) show ?case by simp
  next
    case (Cons y ys)
    have tl: "lawful W (y # ys @ h1 # zs)" using lawful_drop [of W "[h2]" "y # ys @ h1 # zs"] Cons.prems(1) by simp
    show ?case
    proof (cases "key y = key h2")
      case True
      with Cons.IH [OF tl] Cons.prems have "HostKeyFingerprint (Status y) = HostKeyFingerprint (Status h1)" by simp
      moreover have "current (y # ys @ h1 # zs) (key h2) = Some y" using True by (simp add: current_Cons)
      ultimately show ?thesis
        using step [OF Cons.prems(1) [unfolded append_Cons], of y] Cons.prems(2-4) by simp
    next
      case False
      with Cons.prems(1) have "lawful W (h2 # ys @ h1 # zs)" unfolding append_Cons by (rule lawful_skip)
      from Cons.IH [OF this Cons.prems(2,3)] Cons.prems(4) show ?thesis by simp
    qed
  qed
qed

subsection \<open>Replaying a run\<close>

text \<open>The history after a run of calls by one execution, if the API server could have answered them so.\<close>

definition replay_call :: "history \<Rightarrow> event \<Rightarrow> history option" where
  "replay_call hs e =
     (if serves hs e then Some hs
      else case write_of e of
          None \<Rightarrow> None
        | Some (arg, effect, h) \<Rightarrow>
            (case current hs (key arg) of
               None \<Rightarrow> None
             | Some b \<Rightarrow> if accepts hs e b h then Some (h # hs) else None))"

fun replay :: "history \<Rightarrow> event log \<Rightarrow> history option" where
  "replay hs [] = Some hs"
| "replay hs (e # w) = (case replay hs w of None \<Rightarrow> None | Some hs' \<Rightarrow> replay_call hs' e)"

lemma replay_system: "system hs tr \<Longrightarrow> replay hs w = Some hs' \<Longrightarrow> system hs' (map (Pair a) w @ tr)"
  by (induction w arbitrary: hs')
     (auto simp: replay_call_def intro: system.intros split: option.splits if_splits)

lemma log_of_append [simp]: "log_of a (t1 @ t2) = log_of a t1 @ log_of a t2"
  by (simp add: log_of_def)

lemma log_of_own [simp]: "log_of a (map (Pair b) w) = (if a = b then w else [])"
  by (induction w) (auto simp: log_of_def)

text \<open>A server that starts from the history \<open>hs\<close> and serves one execution at a time.\<close>

fun versions :: "event log \<Rightarrow> history" where
  "versions [] = []"
| "versions (e # w) = (case write_of e of None \<Rightarrow> versions w | Some (arg, effect, h) \<Rightarrow> h # versions w)"

definition commit :: "history \<Rightarrow> SSHHost \<Rightarrow> (SSHHost \<Rightarrow> SSHHostStatus) \<Rightarrow> err + SSHHost" where
  "commit hs arg effect =
     (case current hs (key arg) of
        None \<Rightarrow> Inl (NotFoundErr ''no host'')
      | Some b \<Rightarrow>
          if h_ResourceVersion arg = h_ResourceVersion b
          then Inr (with_version (effect b) (show_nat (Suc (length hs))) b) else Inl (ConflictErr ''stale''))"

definition server :: "history \<Rightarrow> world" where
  "server hs = (ready_world (hd hs) sample_profile)\<lparr>
     w_GetHost := \<lambda>w nn. (case current (versions w @ hs) nn of None \<Rightarrow> Inl (NotFoundErr ''no host'') | Some h \<Rightarrow> Inr h),
     w_ListHosts := \<lambda>w _ _. Inr [hd (versions w @ hs)],
     w_UpdateHostStatus := \<lambda>w new. commit (versions w @ hs) new (\<lambda>_. Status new),
     w_PatchHostStatus := \<lambda>w orig new. commit (versions w @ hs) orig (\<lambda>b. merge_status (Status orig) (Status new) (Status b)),
     w_Exec := \<lambda>_ _ _ _ _. Inr (empty_result\<lparr>HostKeyFingerprint' := ''SHA256:aw''\<rparr>)\<rparr>"

definition log_in :: "(world \<Rightarrow> 'a io) \<Rightarrow> history \<Rightarrow> event log" where
  "log_in m hs = snd (run_state (m (server hs)) [])"

text \<open>A host is created, probed, taken by a first NodeClaim, given back, and taken by a second one.\<close>

definition metal_type :: InstanceType where
  "metal_type = \<lparr>it_Name = ''default'', it_Requirements = [], it_Offerings = [], it_Capacity = [], it_KubeReserved = []\<rparr>"

definition next_claim :: NodeClaim where
  "next_claim = other_claim\<lparr>nc_Name := ''pool-def'', nc_UID := ''u3''\<rparr>"

definition ver :: "string \<Rightarrow> HostState \<Rightarrow> ClaimReference option \<Rightarrow> string \<Rightarrow> string \<Rightarrow> string \<Rightarrow> SSHHost" where
  "ver rv st claim profile token pid = sample_host\<lparr>h_ResourceVersion := rv, Status :=
     \<lparr>State' = st, Conditions = [\<lparr>c_Type = ''Ready'', c_Status = ConditionTrue, c_ObservedGeneration = 1,
        c_LastTransitionTime = 0, c_Reason = ''ProbeSucceeded'', c_Message = ''Available''\<rparr>],
      ClaimRef = claim, InstalledProfile = profile, BootstrapTokenID = token, ProviderID' = pid,
      HostKeyFingerprint = ''SHA256:aw'', ObservedCapacity = [(''cpu'', 0), (''memory'', 0)], ObservedArch = '''',
      ObservedGeneration = 1, LastProbeTime = Some 0, LastProbeError = ''''\<rparr>\<rparr>"

definition claim_versions :: "ClaimReference \<Rightarrow> string \<Rightarrow> string \<Rightarrow> string \<Rightarrow> string \<Rightarrow> history" where
  "claim_versions c v4 v3 v2 v1 = (let p = ''tls-bootstrap@2''; t = ''abcdef''; i = ''kpssh://kpssh-system/metal-1'' in
     [ver v4 InUse (Some c) p t i, ver v3 Claimed (Some c) p t i, ver v2 Claimed (Some c) p t '''', ver v1 Claimed (Some c) p '''' ''''])"

definition start_history :: history where
  "start_history = [sample_host\<lparr>Status := new_status\<rparr>]"

definition probed :: history where
  "probed = ver ''2'' Available None '''' '''' '''' # start_history"

definition taken :: history where
  "taken = claim_versions \<lparr>ref_Name = ''pool-abc'', ref_UID = ''u1''\<rparr> ''7'' ''6'' ''5'' ''4'' @
     ver ''3'' Claimed (Some \<lparr>ref_Name = ''pool-abc'', ref_UID = ''u1''\<rparr>) '''' '''' '''' # probed"

definition returned :: history where
  "returned = ver ''8'' Available None ''tls-bootstrap@2'' '''' '''' # taken"

definition retaken :: history where
  "retaken = claim_versions \<lparr>ref_Name = ''pool-def'', ref_UID = ''u3''\<rparr> ''12'' ''11'' ''10'' ''9'' @ returned"

definition probe_log :: "event log" where
  "probe_log = log_in (\<lambda>E. HostProbe.Reconcile (DefaultBootstrapProvider E) E (''kpssh-system'', ''metal-1'')) start_history"

definition first_log :: "event log" where
  "first_log = log_in (\<lambda>E. Instance.Create (DefaultHostProvider E) (DefaultBootstrapProvider E) E plain_class other_claim [metal_type]) probed"

definition back_log :: "event log" where
  "back_log = log_in (\<lambda>E. Instance.Delete (DefaultHostProvider E) (DefaultBootstrapProvider E) E other_claim) taken"

definition second_log :: "event log" where
  "second_log = log_in (\<lambda>E. Instance.Create (DefaultHostProvider E) (DefaultBootstrapProvider E) E plain_class next_claim [metal_type]) returned"

lemma probe_replay: "replay start_history probe_log = Some probed"
  by code_simp

lemma first_replay: "replay probed first_log = Some taken"
  by code_simp

lemma back_replay: "replay taken back_log = Some returned"
  by code_simp

lemma second_replay: "replay returned second_log = Some retaken"
  by code_simp

definition example_trace :: trace where
  "example_trace = map (Pair 3) second_log @ map (Pair 2) back_log @ map (Pair 1) first_log @ map (Pair 0) probe_log"

lemma example_system: "system retaken example_trace"
proof -
  have "system start_history []"
    unfolding start_history_def by (rule system.create [OF system.start]) (simp_all add: fresh_def)
  from replay_system [OF replay_system [OF replay_system [OF replay_system [OF this probe_replay] first_replay]
        back_replay] second_replay]
  show ?thesis unfolding example_trace_def append_Nil2 by fastforce
qed

lemma log_in_op:
  "operation (m (server hs) \<bind> (\<lambda>_. ret ())) \<Longrightarrow> \<exists>m' r. operation m' \<and> run_state m' [] = (r, log_in m hs)"
  by (intro exI conjI) (assumption, simp add: log_in_def case_prod_beta)

lemma probe_op: "operation (HostProbe.Reconcile (DefaultBootstrapProvider E) E req \<bind> (\<lambda>_. ret ()))"
  by (rule controller [of _ E]) (simp add: NewControllers_def)

lemma example_operations: "by_operations example_trace"
  unfolding by_operations_def
proof
  fix a
  have ops: "\<exists>m r. operation m \<and> run_state m [] = (r, probe_log)" "\<exists>m r. operation m \<and> run_state m [] = (r, first_log)"
    "\<exists>m r. operation m \<and> run_state m [] = (r, back_log)" "\<exists>m r. operation m \<and> run_state m [] = (r, second_log)"
    unfolding probe_log_def first_log_def back_log_def second_log_def
    by (rule log_in_op, rule probe_op operation.intros)+
  have "log_of a example_trace \<in> {probe_log, first_log, back_log, second_log, []}"
    by (simp add: example_trace_def)
  with ops show "\<exists>m r later. operation m \<and> run_state m [] = (r, later @ log_of a example_trace)"
    by (smt (verit) append_Nil append_Nil2 empty_iff insert_iff)
qed

subsection \<open>The theorems\<close>

text \<open>C3. \<^bold>\<open>Every version of every host obeys the invariant\<close>, in every interleaving of any number of
  cloud provider operations, reconciles and scrapes with users' edits: a host is Claimed or InUse if
  and only if it carries a claim, and a host without a claim backs no node.\<close>

theorem hosts_keep_invariant:
  assumes "system hs tr" and "by_operations tr"
  shows "\<forall>h \<in> set hs. (ClaimRef (Status h) \<noteq> None \<longleftrightarrow> State' (Status h) \<in> {Claimed, InUse}) \<and>
    (ClaimRef (Status h) = None \<longrightarrow> ProviderID' (Status h) = '''')"
  using lawful_inv [OF conjunct1 [OF system_lawful [OF assms]]] by (auto simp: host_inv_def)

theorem hosts_keep_invariant_witness:
  "list_all (\<lambda>h. (ClaimRef (Status h) \<noteq> None) = (State' (Status h) \<in> {Claimed, InUse})) retaken"
  using hosts_keep_invariant [OF example_system example_operations] by (simp add: list_all_iff)

text \<open>C1. \<^bold>\<open>No NodeClaim takes a host from another.\<close> In every interleaving, between two versions of a
  host that carry different claims there is a version of it that is unclaimed, Available and not
  under maintenance: a host changes hands only by being released and claimed anew.\<close>

theorem claims_never_stolen:
  assumes "system (newer @ h2 # between @ h1 # older) tr" and "by_operations tr" and "key h1 = key h2"
    and "ClaimRef (Status h1) = Some c1" and "ClaimRef (Status h2) = Some c2" and "c1 \<noteq> c2"
  shows "\<exists>u \<in> set between. key u = key h1 \<and> ClaimRef (Status u) = None \<and> State' (Status u) = Available \<and>
    map_of (h_Annotations u) MaintenanceAnnotation = None"
proof -
  have "lawful (stored_by tr) (newer @ h2 # between @ h1 # older)" using system_lawful [OF assms(1,2)] by simp
  then have "lawful (stored_by tr) (h2 # between @ h1 # older)" by (rule lawful_drop)
  then show ?thesis using assms(3-6) by (rule lawful_claims)
qed

theorem claims_never_stolen_witness:
  "\<exists>u \<in> set [ver ''8'' Available None ''tls-bootstrap@2'' '''' '''']. ClaimRef (Status u) = None \<and> State' (Status u) = Available"
proof -
  have "system (take 3 retaken @ (retaken ! 3) # [ver ''8'' Available None ''tls-bootstrap@2'' '''' ''''] @ (retaken ! 5) #
      drop 6 retaken) example_trace"
    using example_system by (simp add: retaken_def returned_def taken_def claim_versions_def Let_def)
  from claims_never_stolen [OF this example_operations]
  show ?thesis by (simp add: retaken_def returned_def taken_def claim_versions_def Let_def ver_def key_def)
qed

text \<open>C9. \<^bold>\<open>The program never replaces or forgets a pinned host key.\<close> In every interleaving, once a version of a host records
  an SSH host key, a later version records the same key, unless a user has removed the key in between, by
  clearing it or by creating the host anew: as long as every version of the host without a key, from there on, was stored by
  a call of the program, no version has lost or changed the key.\<close>

theorem pinned_key_sticky:
  assumes "system (newer @ h2 # between @ h1 # older) tr" and "by_operations tr" and "key h1 = key h2"
    and "HostKeyFingerprint (Status h1) \<noteq> ''''"
    and "\<forall>u \<in> set (h2 # between). key u = key h1 \<and> HostKeyFingerprint (Status u) = '''' \<longrightarrow> u \<in> stored_by tr"
  shows "HostKeyFingerprint (Status h2) = HostKeyFingerprint (Status h1)"
proof -
  have "lawful (stored_by tr) (newer @ h2 # between @ h1 # older)" using system_lawful [OF assms(1,2)] by simp
  then have "lawful (stored_by tr) (h2 # between @ h1 # older)" by (rule lawful_drop)
  then show ?thesis using assms(3-5) by (rule lawful_pin)
qed

text \<open>A user can: after a clearing edit the same host has no key, and the next probe pins whatever key it sees.\<close>

lemma user_clears_key:
  "\<exists>h. system (h # retaken) example_trace \<and> key h = key (hd retaken) \<and> HostKeyFingerprint (Status (hd retaken)) \<noteq> '''' \<and>
     HostKeyFingerprint (Status h) = '''' \<and> h \<notin> stored_by example_trace"
proof -
  define cur where "cur = hd retaken"
  define h where "h = cur\<lparr>h_ResourceVersion := ''edit'', Status := (Status cur)\<lparr>InstalledProfile := '''', HostKeyFingerprint := ''''\<rparr>\<rparr>"
  have h: "h_ResourceVersion h = ''edit''" "key h = key cur" "HostKeyFingerprint (Status h) = ''''"
    "operator_edit (Status cur) (Status h)"
    by (simp_all add: h_def key_def operator_edit_def)
  have fresh: "fresh retaken ''edit''"
    by (simp add: fresh_def retaken_def returned_def taken_def probed_def start_history_def claim_versions_def Let_def ver_def sample_host_def)
  have current: "current retaken (key cur) = Some cur" and pinned: "HostKeyFingerprint (Status cur) \<noteq> ''''"
    by (simp_all add: cur_def current_def retaken_def claim_versions_def Let_def ver_def)
  have sys: "system (h # retaken) example_trace"
    by (rule system.edit [OF example_system, of h cur]) (use current fresh h in simp_all)
  have "stored_by example_trace \<subseteq> set retaken"
    using stored_by_in system_lawful [OF example_system example_operations] by blast
  with fresh h(1) have "h \<notin> stored_by example_trace" unfolding fresh_def by (metis image_eqI subsetD)
  with sys h(2,3) pinned show ?thesis unfolding cur_def by blast
qed

theorem pinned_key_sticky_witness:
  "HostKeyFingerprint (Status (retaken ! 3)) = ''SHA256:aw''"
proof -
  have "system (take 3 retaken @ (retaken ! 3) # [ver ''8'' Available None ''tls-bootstrap@2'' '''' ''''] @ (retaken ! 5) #
      drop 6 retaken) example_trace"
    using example_system by (simp add: retaken_def returned_def taken_def claim_versions_def Let_def)
  from pinned_key_sticky [OF this example_operations]
  show ?thesis by (simp add: retaken_def returned_def taken_def claim_versions_def Let_def ver_def key_def new_status_def)
qed

end
