(* ===== verification/HostSpec.thy ===== *)
theory HostSpec
  imports HostMachine
begin

section \<open>An abstract specification of the host pool\<close>

text \<open>
  What the pool promises, without objects, versions, patches or probes: every host is a slot that is
  idle in some lifecycle state or held by one NodeClaim, and there are ten ways in which a slot
  changes. (The state diagram of docs/architecture.md has fewer edges: it lacks Pending to Unhealthy and
  Claimed to Available, which the code takes.) A pool is the sequence of the slot changes of all hosts, newest first.

  The refinement theorem says that the concrete system, with its stale caches, optimistic locks,
  concurrent operations and users' edits (HostMachine), only ever does what this specification
  allows: the history of stored versions, mapped to slots, is a trace of the abstract pool.
\<close>

datatype slot = Idle HostState | Held ClaimReference bool

inductive slot_step :: "slot \<Rightarrow> slot \<Rightarrow> bool" where
  stay: "slot_step s s"
| take: "slot_step (Idle Available) (Held c False)"
| joined: "slot_step (Held c False) (Held c True)"
| returned: "slot_step (Held c j) (Idle Available)"
| failed: "slot_step (Held c j) (Idle Unhealthy)"
| abandoned: "slot_step (Held c j) (Idle Pending)"
| probe_ok: "slot_step (Idle s) (Idle Available)"
| probe_failed: "slot_step (Idle s) (Idle Unhealthy)"
| fence: "s \<noteq> Maintenance \<Longrightarrow> slot_step (Idle s) (Idle Leaving)"
| park: "slot_step (Idle s) (Idle Maintenance)"
| reopen: "slot_step (Idle Maintenance) (Idle Pending)"

declare slot_step.intros [intro]

inductive_simps slot_step_take [simp]: "slot_step (Idle s) (Held c j)"
inductive_simps slot_step_held [simp]: "slot_step (Held c i) (Held d j)"

inductive pool :: "(nsname \<times> slot) list \<Rightarrow> bool" where
  empty: "pool []"
| register: "pool es \<Longrightarrow> pool ((k, Idle StateUnset) # es)"
| change: "pool es \<Longrightarrow> map_of es k = Some s \<Longrightarrow> slot_step s t \<Longrightarrow> pool ((k, t) # es)"

inductive_cases pool_ConsE: "pool (e # es)"

subsection \<open>What the specification promises\<close>

text \<open>Between two holders of a slot it was idle and Available.\<close>

lemma pool_exclusive:
  assumes "pool ((k, Held d j) # es @ (k, Held c i) # fs)" and "c \<noteq> d"
  shows "(k, Idle Available) \<in> set es"
  using assms
proof (induction es arbitrary: j)
  case Nil
  then show ?case by (auto elim!: pool_ConsE)
next
  case (Cons e es)
  obtain k' s where e: "e = (k', s)" by (cases e)
  from Cons.prems(1) e obtain t where t: "map_of (e # es @ (k, Held c i) # fs) k = Some t" "slot_step t (Held d j)"
    and pool: "pool (e # es @ (k, Held c i) # fs)" by (auto elim: pool_ConsE)
  show ?case
  proof (cases "k' = k")
    case True
    with t e show ?thesis
      using Cons.IH Cons.prems(2) pool by (cases s) auto
  next
    case False
    then have skip: "map_of (es @ (k, Held c i) # fs) k = Some t" using t(1) e by simp
    from pool have "pool (es @ (k, Held c i) # fs)" by (auto elim: pool_ConsE)
    with skip t(2) have "pool ((k, Held d j) # es @ (k, Held c i) # fs)" by (blast intro: pool.change)
    then show ?thesis using Cons.IH Cons.prems(2) by simp
  qed
qed

subsection \<open>The abstraction\<close>

definition slot_of :: "SSHHostStatus \<Rightarrow> slot" where
  "slot_of s = (case ClaimRef s of None \<Rightarrow> Idle (State' s) | Some c \<Rightarrow> Held c (State' s = InUse))"

definition slots :: "history \<Rightarrow> (nsname \<times> slot) list" where
  "slots hs = map (\<lambda>h. (key h, slot_of (Status h))) hs"

lemma slots_current: "map_of (slots hs) k = map_option (\<lambda>h. slot_of (Status h)) (current hs k)"
  by (induction hs) (auto simp: slots_def current_def)

text \<open>A legal step of a version is a step of its slot.\<close>

lemma legal_slot_step:
  assumes "legal b s" and "host_inv (Status b)"
  shows "slot_step (slot_of (Status b)) (slot_of s)"
proof (cases "ClaimRef (Status b)")
  case None
  with assms have st: "State' (Status b) \<notin> {Claimed, InUse}" by (simp add: host_inv_def)
  show ?thesis
  proof (cases "ClaimRef s")
    case None
    with assms have "State' s \<notin> {Claimed, InUse}" "moves (State' (Status b)) (State' s)" by (auto simp: legal_def host_inv_def)
    with None \<open>ClaimRef (Status b) = None\<close> st show ?thesis
      by (cases "State' s"; cases "State' (Status b)") (auto simp: slot_of_def moves_def)
  next
    case (Some c)
    with None assms show ?thesis by (auto simp: legal_def slot_of_def)
  qed
next
  case (Some c)
  with assms have st: "State' (Status b) \<in> {Claimed, InUse}" by (simp add: host_inv_def)
  show ?thesis
  proof (cases "ClaimRef s")
    case None
    with assms have "State' s \<notin> {Claimed, InUse}" "moves (State' (Status b)) (State' s)" by (auto simp: legal_def host_inv_def)
    with None Some st show ?thesis by (cases "State' s") (auto simp: slot_of_def moves_def)
  next
    case (Some d)
    with \<open>ClaimRef (Status b) = Some c\<close> assms have "d = c" "State' s \<in> {Claimed, InUse}" "moves (State' (Status b)) (State' s)"
      by (auto simp: legal_def host_inv_def)
    with Some \<open>ClaimRef (Status b) = Some c\<close> st show ?thesis by (auto simp: slot_of_def)
  qed
qed

lemma lawful_pool: "lawful W hs \<Longrightarrow> pool (slots hs)"
proof (induction hs)
  case Nil
  then show ?case by (simp add: slots_def pool.empty)
next
  case (Cons h hs)
  then have law: "lawful W hs" by simp
  then have IH: "pool (slots hs)" and inv: "\<forall>b \<in> set hs. host_inv (Status b)" using Cons.IH lawful_inv by auto
  have eq: "slots (h # hs) = (key h, slot_of (Status h)) # slots hs" by (simp add: slots_def)
  show ?case
  proof (cases "Status h = new_status")
    case True
    then have "slot_of (Status h) = Idle StateUnset" by (simp add: slot_of_def new_status_def)
    with IH eq show ?thesis by (simp add: pool.register)
  next
    case False
    with lawful_step [OF Cons.prems] obtain b where b: "current hs (key h) = Some b"
      "operator_edit (Status b) (Status h) \<or> legal b (Status h)" by auto
    then have "host_inv (Status b)" using inv current_in by blast
    moreover have "slot_of (Status h) = slot_of (Status b)" if "operator_edit (Status b) (Status h)"
      unfolding slot_of_def operator_edit_keeps(1,2) [OF that] ..
    ultimately have "slot_step (slot_of (Status b)) (slot_of (Status h))" using b(2) legal_slot_step by auto
    moreover have "map_of (slots hs) (key h) = Some (slot_of (Status b))" using b(1) by (simp add: slots_current)
    ultimately show ?thesis using IH eq by (simp add: pool.change)
  qed
qed

text \<open>C2. \<^bold>\<open>The system implements the abstract pool.\<close> In every interleaving of cloud provider operations,
  reconciles, scrapes and users' edits, the versions that get stored, mapped to slots, form a trace of
  the specification: a host is taken only when it is Available and by one NodeClaim at a time, it
  becomes InUse only under the same claim, leaves a claim to Available, Unhealthy or Pending, is fenced as Leaving
  or parked as Maintenance only while nobody holds it, and returns from there only by a probe.\<close>

theorem system_refines_pool:
  assumes "system hs tr" and "by_operations tr"
  shows "pool (slots hs)"
  using system_lawful [OF assms] by (blast intro: lawful_pool)

theorem system_refines_pool_witness:
  "pool (slots retaken) \<and> map snd (slots retaken) =
     (let c = \<lparr>ref_Name = ''pool-abc'', ref_UID = ''u1''\<rparr>; d = \<lparr>ref_Name = ''pool-def'', ref_UID = ''u3''\<rparr> in
      [Held d True, Held d False, Held d False, Held d False, Idle Available,
       Held c True, Held c False, Held c False, Held c False, Held c False, Idle Available, Idle StateUnset])"
  using system_refines_pool [OF example_system example_operations]
  by (simp add: slots_def slot_of_def retaken_def returned_def taken_def probed_def start_history_def
      claim_versions_def ver_def new_status_def Let_def)

end
