(* ===== verification/Launch.thy ===== *)
theory Launch
  imports HostMachine
begin

section \<open>What a launch leaves behind\<close>

text \<open>
  The claim, the scripts and the providerID of a successful \<^verbatim>\<open>Create\<close>, seen in the history of the API
  server: the instance that is reported to karpenter is the host that the NodeClaim holds, under the
  providerID that is recorded for it. This needs that no status write of the launch lost a race: the
  second theorem is a run in which one did, the copy was re-read from a stale cache, and the launch
  reports a providerID that is not the recorded one.
\<close>

subsection \<open>Writes that lose no race\<close>

fun unconflicted :: "event \<Rightarrow> bool" where
  "unconflicted (PatchHostStatus orig new (Inl e)) \<longleftrightarrow> \<not> IsConflict e"
| "unconflicted _ \<longleftrightarrow> True"

definition raceless :: "(string \<Rightarrow> SSHHost) \<Rightarrow> event \<Rightarrow> bool" where
  "raceless at e \<longleftrightarrow> good at e \<and> unconflicted e"

lemma rg_raceless: "rg (good at) \<phi> m Q \<Longrightarrow> rg (raceless at) (\<lambda>_. True) m Q"
  by (erule rg_weaken) (simp_all add: raceless_def)

text \<open>A version that an accepted write left: the status as patched, under the same name.\<close>

definition rewritten :: "(string \<Rightarrow> SSHHost) \<Rightarrow> SSHHost \<Rightarrow> SSHHost \<Rightarrow> SSHHost \<Rightarrow> bool" where
  "rewritten at orig new h \<longleftrightarrow> known at h \<and> Status h = patched at orig new \<and> key h = key (base at orig)"

lemma written_rewritten:
  assumes "written at (patched at orig new) (base at orig) h" and "legal (base at orig) (patched at orig new)"
  shows "rewritten at orig new h"
proof -
  from assms(1) have "h = with_version (patched at orig new) (h_ResourceVersion h) (base at orig)" by (simp add: written_def)
  then have "h_Namespace h = h_Namespace (base at orig)" "h_Name h = h_Name (base at orig)" by (metis with_version_simps(4,5))+
  with written_known [OF assms(1) legal_inv [OF assms(2)]] show ?thesis by (simp add: rewritten_def key_def)
qed

lemma casPatch_raceless:
  assumes "legal (base at orig) (patched at orig new)"
  shows "rg (raceless at) (\<lambda>_. True) (casPatch E new orig) (on_result (rewritten at orig new) (\<lambda>x h. h = new \<and> \<not> IsConflict x))"
proof -
  have "rg (raceless at) (\<lambda>_. True) (patchHostStatus E orig new)
      (\<lambda>r. case r of Inl x \<Rightarrow> \<not> IsConflict x | Inr h \<Rightarrow> rewritten at orig new h)"
    unfolding call_defs raceless_def
    by (rule guar_issue) (auto split: sum.splits intro: written_rewritten [OF _ assms])
  then show ?thesis
    unfolding casPatch_def by (rule rg_bind) (auto intro!: guar_rules split: sum.splits)
qed

lemma setStatus_raceless:
  assumes "legal (base at h) (patched at h (with_status f h))"
  shows "rg (raceless at) (\<lambda>_. True) (setStatus E h f) (on_result (rewritten at h (with_status f h)) (\<lambda>x h'. h' = with_status f h))"
proof -
  have once: "rg (raceless at) (\<lambda>_. True) (set_status_once E c f h)
      (on_result (rewritten at h (with_status f h)) (\<lambda>x h'. h' = with_status f h \<and> \<not> IsConflict x))" for c
    unfolding set_status_once_def
    by (rule rg_bind_result [OF casPatch_raceless [OF assms]]) (auto intro!: guar_rules pool_reads_grow)
  show ?thesis
    unfolding setStatus_def
    by (subst RetryOnConflict.simps, rule rg_bind_result [OF once])
       (auto intro!: guar_rules RetryOnConflict_calls pool_writes_grow split: nat.splits)
qed

lemma tracks_key: "tracks at h \<Longrightarrow> key (base at h) = key h"
  by (simp add: tracks_def key_def Let_def)

subsection \<open>The host behind an instance\<close>

text \<open>A version of the instance's host that the NodeClaim holds, under the instance's providerID; with \<open>own\<close>, the id
  is the one rendered from the host's name.\<close>

definition recorded :: "(string \<Rightarrow> SSHHost) \<Rightarrow> NodeClaim \<Rightarrow> bool \<Rightarrow> Instance \<Rightarrow> bool" where
  "recorded at nc own i \<longleftrightarrow> (\<exists>h. known at h \<and> ClaimHeldBy h nc \<and> ProviderID' (Status h) = i_ProviderID i \<and>
     i_HostName i = h_Name h \<and> (own \<longrightarrow> i_ProviderID i = ProviderID h)) \<and> i_ProviderID i \<noteq> '''' \<and> i_NodeName i = nc_Name nc"

lemma ClaimHeldBy_cong: "ClaimRef (Status h) = ClaimRef (Status h') \<Longrightarrow> ClaimHeldBy h nc = ClaimHeldBy h' nc"
  by (simp add: ClaimHeldBy_def)

lemma ProviderID_key: "key h = key h' \<Longrightarrow> ProviderID h = ProviderID h'"
  by (simp add: ProviderID_def key_def)

lemma MarkInUse_recorded:
  assumes h: "known at h" "ClaimHeldBy h nc" "ProviderID' (Status h) \<noteq> ''''" "own \<Longrightarrow> ProviderID' (Status h) = ProviderID h"
  shows "rg (raceless at) (\<lambda>_. True) (MarkInUse E h) (\<lambda>r. recorded at nc own (toInstance (snd r) (nc_Name nc)))"
proof -
  let ?use = "\<lambda>s. s\<lparr>State' := InUse\<rparr>"
  have patched: "patched at h (with_status ?use h) = ?use (Status h)" "key (base at h) = key h"
    using h(1) by (simp_all add: known_patched tracks_key known_tracks)
  have legal: "legal (base at h) (patched at h (with_status ?use h))"
    using known_tracks [OF h(1)] ClaimHeldBy_claimed [OF h(2)] by (rule legal_under_claim) (simp add: under_claim_def)
  have "recorded at nc own (toInstance h2 (nc_Name nc))" if "rewritten at h (with_status ?use h) h2" for h2
  proof -
    from that patched have same: "known at h2" "Status h2 = ?use (Status h)" "key h2 = key h" by (simp_all add: rewritten_def)
    then have "ClaimHeldBy h2 nc" using h(2) by (simp add: ClaimHeldBy_def)
    with same h(3,4) ProviderID_key [OF same(3)] show ?thesis by (auto simp: recorded_def toInstance_def)
  qed
  moreover have "recorded at nc own (toInstance (with_status ?use h) (nc_Name nc))"
    using h by (auto simp: recorded_def toInstance_def)
  ultimately show ?thesis
    unfolding MarkInUse_def
    by (intro guar_post [OF setStatus_raceless [OF legal]]) (auto simp: on_result_def split: option.splits)
qed

lemma finish_create_recorded:
  assumes h: "tracks at h" "ClaimHeldBy h nc" and pid: "pid \<noteq> ''''" "own \<Longrightarrow> pid = ProviderID h"
  shows "rg (raceless at) (\<lambda>_. True) (finish_create (DefaultHostProvider E) nc h pid)
    (\<lambda>r. \<forall>i. r = Inr i \<longrightarrow> recorded at nc own i)"
proof -
  let ?set = "\<lambda>s. s\<lparr>ProviderID' := pid\<rparr>"
  have legal: "legal (base at h) (patched at h (with_status ?set h))"
    using h(1) ClaimHeldBy_claimed [OF h(2)] by (rule legal_under_claim) (simp add: under_claim_def)
  have "known at h1 \<and> ClaimHeldBy h1 nc \<and> ProviderID' (Status h1) = pid \<and> ProviderID h1 = ProviderID h"
    if "rewritten at h (with_status ?set h) h1" for h1
    using that h ProviderID_key [of h1 h] tracks_key [OF h(1)]
    by (auto simp: rewritten_def patched_tracks intro: ClaimHeldBy_cong [THEN iffD2])
  then have set: "rg (raceless at) (\<lambda>_. True) (SetProviderID E h pid)
      (on_result (\<lambda>h1. known at h1 \<and> ClaimHeldBy h1 nc \<and> ProviderID' (Status h1) = pid \<and> ProviderID h1 = ProviderID h) (\<lambda>x _. True))"
    unfolding SetProviderID_def by (intro guar_post [OF setStatus_raceless [OF legal]]) (auto elim!: on_result_mono)
  show ?thesis
    unfolding finish_create_def default_sel
    by (rule rg_bind_result [OF set])
       (use pid in \<open>auto intro!: guar_steps rg_bind [OF MarkInUse_recorded [where own = own]] grows_bind pool_writes_grow\<close>)
qed

lemma adopted_nonempty: "guar (\<lambda>_. True) (adoptProviderID E h) (\<lambda>r. \<forall>pid. r = Inr pid \<longrightarrow> pid \<noteq> '''')"
proof -
  have "guar (\<lambda>_. True) (adopt_wait E h n) (\<lambda>r. \<forall>pid. r = Some pid \<longrightarrow> pid \<noteq> '''')" for n
  proof (rule rgI)
    fix w r w'
    assume "run_state (adopt_wait E h n) w = (r, w')"
    from adopt_wait_run [OF this] show "\<exists>evs. w' = evs @ w \<and> upto (\<lambda>_. True) (\<lambda>_. True) evs \<and>
        (list_all (\<lambda>_. True) evs \<longrightarrow> (\<forall>pid. r = Some pid \<longrightarrow> pid \<noteq> ''''))"
      by (auto simp: shows_id_def split: option.splits)
  qed
  then show ?thesis
    unfolding adoptProviderID_def by (rule guar_bind) (auto intro!: guar_return split: option.splits)
qed

lemma ProviderID_nonempty: "ProviderID h \<noteq> ''''"
  by (simp add: ProviderID_def ProviderPrefix_def)

lemma Create_recorded:
  "rg (raceless at) (\<lambda>_. True) (Instance.Create (DefaultHostProvider E) (DefaultBootstrapProvider E) E nodeClass nc its)
    (\<lambda>r. \<forall>i. r = Inr i \<longrightarrow> recorded at nc (ProviderIDSource' (ncl_Spec nodeClass) \<noteq> Adopt) i)"
proof -
  let ?P = "DefaultHostProvider E" and ?B = "DefaultBootstrapProvider E" and ?own = "ProviderIDSource' (ncl_Spec nodeClass) \<noteq> Adopt"
  have acquire: "rg (raceless at) (\<lambda>_. True) (acquire ?P nodeClass nc its)
      (\<lambda>r. \<forall>h. r = Inr (Some h) \<longrightarrow> tracks at h \<and> ClaimHeldBy h nc)"
    by (rule guar_post [OF rg_raceless [OF lifecycle.acquire_held]]) (auto simp: lifecycle.held_def)
  have join: "rg (raceless at) (\<lambda>_. True) (Instance.join ?P ?B E nodeClass nc h) (\<lambda>r. tracks at (snd r) \<and> ClaimHeldBy (snd r) nc)"
    if h: "tracks at h" "ClaimHeldBy h nc" for h
  proof -
    have "lifecycle.held at (ClaimRef (Status h)) h" using h by (auto simp: lifecycle.held_def dest: ClaimHeldBy_claimed)
    from rg_raceless [OF lifecycle.join_held [OF this]] show ?thesis
      by (rule guar_post) (use h in \<open>auto simp: lifecycle.held_def intro: ClaimHeldBy_cong [THEN iffD2]\<close>)
  qed
  have adopt: "rg (raceless at) (\<lambda>_. True) (adoptProviderID E h) (\<lambda>r. \<forall>pid. r = Inr pid \<longrightarrow> pid \<noteq> '''')" for h
    by (rule guar_weaken [OF adopted_nonempty]) simp_all
  have rel: "rg (raceless at) (\<lambda>_. True) (release ?P ?B h ok reason \<bind> (\<lambda>_. ret (Inl e)))
      (\<lambda>r. \<forall>i. r = Inr i \<longrightarrow> recorded at nc ?own i)" for h ok reason and e :: cloud_err
    by (rule guar_bind_any [OF guar_weaken [OF lifecycle.finish_grows(2)]]) (auto intro!: guar_return)
  note grow = lifecycle.finish_grows grows_bind
  show ?thesis
    unfolding Instance.Create_def
    by (rule rg_bind [OF acquire])
       (auto intro!: guar_steps rg_bind [OF join] rg_bind [OF adopt] rel finish_create_recorded ProviderID_nonempty grow)
qed

subsection \<open>The join script ran\<close>

lemma grows_keeps_ran: "grows m \<Longrightarrow> valid (\<lambda>w. b \<longrightarrow> list_ex ran_ok w) m (\<lambda>_ w. b \<longrightarrow> list_ex ran_ok w)"
  by (rule valid_weaken [OF guar_valid [where P = "\<lambda>w. b \<longrightarrow> list_ex ran_ok w"]]) auto

lemma join_ran:
  "valid (\<lambda>_. True) (Instance.join (DefaultHostProvider E) (DefaultBootstrapProvider E) E nodeClass nc h)
    (\<lambda>r w. fst r = None \<longrightarrow> list_ex ran_ok w)"
proof -
  have ran: "valid (\<lambda>_. True) (runPhase E d t h prof phase pctx env) (\<lambda>r w. r = None \<longrightarrow> list_ex ran_ok w)" for d t h prof phase pctx env
    by (rule validI) (auto dest: runPhase_ran)
  have observe: "valid (\<lambda>w. b \<longrightarrow> list_ex ran_ok w) (ObservePhase phase e) (\<lambda>_ w. b \<longrightarrow> list_ex ran_ok w)" for b phase e
    by (rule grows_keeps_ran) (auto simp: call_defs intro!: guar_rules)
  have failed: "valid P (m \<bind> (\<lambda>h. ret (Some x, h))) (\<lambda>r w. fst r = None \<longrightarrow> list_ex ran_ok w)" for P x and m :: "SSHHost io"
    by (rule valid_bind_any) (auto intro!: valid_return)
  have token: "valid (\<lambda>_. True) (join_token (DefaultHostProvider E) (DefaultBootstrapProvider E) E nc h prof target pctx)
      (\<lambda>r w. fst r = None \<longrightarrow> list_ex ran_ok w)" for h prof target pctx
    unfolding join_token_def Let_def
    by (intro valid_bind_any valid_case_sum valid_case_prod valid_case_option valid_bind [OF ran] valid_bind [OF observe]
          valid_return failed) simp_all
  show ?thesis
    unfolding join_def by (intro valid_bind_any valid_case_sum valid_case_prod valid_case_option valid_return token) simp_all
qed

lemma Create_ran:
  "valid (\<lambda>_. True) (Instance.Create (DefaultHostProvider E) (DefaultBootstrapProvider E) E nodeClass nc its)
    (\<lambda>r w. (\<exists>i. r = Inr i) \<longrightarrow> list_ex ran_ok w)"
proof -
  let ?P = "DefaultHostProvider E" and ?B = "DefaultBootstrapProvider E"
  have keep: "grows m \<Longrightarrow> valid (\<lambda>w. list_ex ran_ok w) m (\<lambda>_ w. list_ex ran_ok w)" for m :: "'x io"
    using grows_keeps_ran [of m True] by simp
  have rel: "valid Q (release ?P ?B h ok reason \<bind> (\<lambda>_. ret (Inl e))) (\<lambda>r w. (\<exists>i. r = Inr i) \<longrightarrow> list_ex ran_ok w)"
    for Q h ok reason and e :: cloud_err
    by (rule valid_bind_any) (auto intro!: valid_return)
  have fin: "valid (list_ex ran_ok) (finish_create ?P nc h pid) (\<lambda>r w. (\<exists>i. r = Inr i) \<longrightarrow> list_ex ran_ok w)" for h pid
    by (rule valid_weaken [OF keep [OF lifecycle.finish_grows(3)]]) auto
  have joined: "valid (\<lambda>w. fst r = None \<longrightarrow> list_ex ran_ok w) m Q"
    if "fst r = None \<Longrightarrow> valid (list_ex ran_ok) m Q" "fst r \<noteq> None \<Longrightarrow> valid (\<lambda>_. True) m Q"
    for r :: "err option \<times> SSHHost" and m :: "(cloud_err + Instance) io" and Q
    using that by (cases "fst r") (auto simp: valid_def)
  show ?thesis
    unfolding Instance.Create_def
    by (rule valid_bind_any, intro valid_case_sum valid_case_option valid_return valid_bind [OF join_ran], simp_all)
       (rule joined, auto intro!: valid_if valid_bind [OF keep [OF lifecycle.finish_grows(1)]] valid_case_sum fin rel split: prod.splits option.splits)
qed

subsection \<open>The theorem\<close>

lemma known_in: "known (lookup hs) h \<Longrightarrow> ClaimRef (Status h) \<noteq> None \<Longrightarrow> h \<in> set hs"
proof (cases "List.find (\<lambda>v. h_ResourceVersion v = h_ResourceVersion h) hs")
  case None
  then have "Status (lookup hs (h_ResourceVersion h)) = new_status" by (simp add: lookup_def)
  moreover assume "known (lookup hs) h" "ClaimRef (Status h) \<noteq> None"
  ultimately show ?thesis by (simp add: known_def stored_def new_status_def)
next
  case (Some v)
  moreover assume "known (lookup hs) h"
  ultimately have "v = h" by (simp add: known_def stored_def lookup_def)
  with Some show ?thesis by (auto dest: find_SomeD)
qed

lemma system_good:
  assumes "system hs tr" and "by_operations tr"
  shows "list_all (good (lookup hs)) (log_of a tr)"
proof -
  note law = system_lawful [OF assms]
  have "good (lookup hs) e" if "(b, e) \<in> set tr" for b e
    using that law system_distinct [OF assms(1)] lawful_inv by (blast intro: justified_good)
  then show ?thesis by (auto simp: log_of_def list_all_iff)
qed

lemma launched_recorded:
  assumes "system hs tr" and "by_operations tr"
    and run: "run_state (Instance.Create (DefaultHostProvider E) (DefaultBootstrapProvider E) E nodeClass nc its) [] = (Inr i, log_of a tr)"
    and "list_all unconflicted (log_of a tr)"
  shows "\<exists>h \<in> set hs. ClaimHeldBy h nc \<and> ProviderID' (Status h) = i_ProviderID i \<and> h_Name h = i_HostName i \<and>
      (ProviderIDSource' (ncl_Spec nodeClass) \<noteq> Adopt \<longrightarrow> i_ProviderID i = ProviderID h)"
    and "i_ProviderID i \<noteq> ''''" and "i_NodeName i = nc_Name nc"
proof -
  have "list_all (raceless (lookup hs)) (log_of a tr)"
    using system_good [OF assms(1,2)] assms(4) by (auto simp: list_all_iff raceless_def)
  with Create_recorded [of "lookup hs" E nodeClass nc its] run
  have rec: "recorded (lookup hs) nc (ProviderIDSource' (ncl_Spec nodeClass) \<noteq> Adopt) i"
    by (auto elim!: rgD)
  then show "i_ProviderID i \<noteq> ''''" "i_NodeName i = nc_Name nc" by (simp_all add: recorded_def)
  from rec obtain h where h: "known (lookup hs) h" "ClaimHeldBy h nc" "ProviderID' (Status h) = i_ProviderID i" "h_Name h = i_HostName i"
    "ProviderIDSource' (ncl_Spec nodeClass) \<noteq> Adopt \<longrightarrow> i_ProviderID i = ProviderID h"
    unfolding recorded_def by metis
  have "h \<in> set hs" using h(1) ClaimHeldBy_claimed [OF h(2)] by (rule known_in)
  with h show "\<exists>h \<in> set hs. ClaimHeldBy h nc \<and> ProviderID' (Status h) = i_ProviderID i \<and> h_Name h = i_HostName i \<and>
      (ProviderIDSource' (ncl_Spec nodeClass) \<noteq> Adopt \<longrightarrow> i_ProviderID i = ProviderID h)" by blast
qed

text \<open>C5. \<^bold>\<open>A launch reports the host it holds.\<close> In every interleaving, let an execution of \<^verbatim>\<open>Create\<close> have ended
  with an instance, without losing a race for one of its status patches. Then a script ran on the machine, and the API
  server has stored a version of the instance's host that the NodeClaim holds and that records the
  instance's providerID, which is not empty.\<close>

theorem launched_host_recorded:
  assumes "system hs tr" and "by_operations tr"
    and run: "run_state (Instance.Create (DefaultHostProvider E) (DefaultBootstrapProvider E) E nodeClass nc its) [] = (Inr i, log_of a tr)"
    and "list_all unconflicted (log_of a tr)"
  shows "(\<exists>h \<in> set hs. h_Name h = i_HostName i \<and> ClaimHeldBy h nc \<and> ProviderID' (Status h) = i_ProviderID i) \<and>
    i_ProviderID i \<noteq> '''' \<and> i_NodeName i = nc_Name nc \<and> list_ex ran_ok (log_of a tr)"
  using launched_recorded [OF assms] validD [OF Create_ran TrueI run] by auto

lemma first_run:
  "\<exists>i. run_state (Instance.Create (DefaultHostProvider (server probed)) (DefaultBootstrapProvider (server probed)) (server probed)
     plain_class other_claim [metal_type]) [] = (Inr i, first_log) \<and> i_ProviderID i = ''kpssh://kpssh-system/metal-1'' \<and>
     list_all unconflicted first_log"
proof -
  let ?run = "run_state (Instance.Create (DefaultHostProvider (server probed)) (DefaultBootstrapProvider (server probed)) (server probed)
     plain_class other_claim [metal_type]) []"
  have "case ?run of (r, w) \<Rightarrow> map_sum (\<lambda>_. ()) i_ProviderID r = Inr ''kpssh://kpssh-system/metal-1'' \<and> list_all unconflicted w"
    by code_simp
  moreover have "first_log = snd ?run" by (simp add: first_log_def log_in_def)
  ultimately show ?thesis by (cases ?run; cases "fst ?run") auto
qed

lemma first_actor: "log_of 1 example_trace = first_log"
  by (simp add: example_trace_def)

theorem launched_host_recorded_witness:
  "\<exists>h \<in> set retaken. ClaimHeldBy h other_claim \<and> ProviderID' (Status h) \<noteq> '''' \<and> list_ex ran_ok first_log"
proof -
  from first_run obtain i where run: "run_state (Instance.Create (DefaultHostProvider (server probed))
      (DefaultBootstrapProvider (server probed)) (server probed) plain_class other_claim [metal_type]) [] = (Inr i, first_log)"
    and ok: "list_all unconflicted first_log" by blast
  from launched_host_recorded [OF example_system example_operations, of "server probed" plain_class other_claim "[metal_type]" i 1]
  show ?thesis using run ok first_actor by fastforce
qed

subsection \<open>A race that is lost\<close>

text \<open>A launch with an adopted identity. After the providerID is recorded, a user edits the host's labels, so that the
  write that marks the host InUse conflicts; the retries re-read the host from a cache that still has
  the version from before the launch recorded anything.\<close>

definition adopt_class :: SSHNodeClass where
  "adopt_class = plain_class\<lparr>ncl_Spec := (ncl_Spec plain_class)\<lparr>ProviderIDSource' := Adopt\<rparr>\<rparr>"

definition relabelled :: "history \<Rightarrow> history" where
  "relabelled hs = (hd hs)\<lparr>h_ResourceVersion := ''edit'', h_Labels := [(''rack'', ''7'')]\<rparr> # hs"

definition lagging :: "history \<Rightarrow> world" where
  "lagging hs = (server hs)\<lparr>
     w_ListNodes := \<lambda>_ _. Inr [hybrid_node],
     w_GetHost := \<lambda>w _. Inr (last (versions w)),
     w_PatchHostStatus := \<lambda>w orig new.
       commit (if State' (Status new) = InUse then relabelled (versions w @ hs) else versions w @ hs) orig
         (\<lambda>b. merge_status (Status orig) (Status new) (Status b))\<rparr>"

definition lagging_run :: "(cloud_err + Instance) \<times> event log" where
  "lagging_run = run_state (Instance.Create (DefaultHostProvider (lagging probed)) (DefaultBootstrapProvider (lagging probed))
     (lagging probed) adopt_class other_claim [metal_type]) []"

definition before_edit :: "event log" where
  "before_edit = dropWhile (\<lambda>e. write_of e = None) (snd lagging_run)"

definition after_edit :: "event log" where
  "after_edit = takeWhile (\<lambda>e. write_of e = None) (snd lagging_run)"

definition recorded_history :: history where
  "recorded_history = versions (snd lagging_run) @ probed"

lemma lagging_facts:
  "case lagging_run of (r, w) \<Rightarrow>
     map_sum (\<lambda>_. ()) i_ProviderID r = Inr ''kpssh://kpssh-system/metal-1'' \<and>
     map_sum (\<lambda>_. ()) i_HostName r = Inr ''metal-1'' \<and>
     (case versions w @ probed of
        [] \<Rightarrow> False
      | h # hs \<Rightarrow>
          replay probed (dropWhile (\<lambda>e. write_of e = None) w) = Some (h # hs) \<and>
          list_all (serves (relabelled (h # hs))) (takeWhile (\<lambda>e. write_of e = None) w) \<and>
          ProviderID' (Status h) = ''eks-hybrid:///mi-1'' \<and> ClaimHeldBy h other_claim \<and>
          key h = (''kpssh-system'', ''metal-1'') \<and> fresh (h # hs) ''edit'')"
  by code_simp

lemma lagging_replay: "replay probed before_edit = Some recorded_history"
  and lagging_rest: "list_all (serves (relabelled recorded_history)) after_edit"
  and lagging_result: "map_sum (\<lambda>_. ()) i_ProviderID (fst lagging_run) = Inr ''kpssh://kpssh-system/metal-1''"
    "map_sum (\<lambda>_. ()) i_HostName (fst lagging_run) = Inr ''metal-1''"
  and lagging_current: "recorded_history \<noteq> []" "fresh recorded_history ''edit''"
    "\<exists>h. current (relabelled recorded_history) (''kpssh-system'', ''metal-1'') = Some h \<and>
       ClaimHeldBy h other_claim \<and> ProviderID' (Status h) = ''eks-hybrid:///mi-1''"
  using lagging_facts
  by (auto simp: before_edit_def after_edit_def recorded_history_def relabelled_def current_def key_def case_prod_beta
      split: list.splits intro: ClaimHeldBy_cong [THEN iffD2])

lemma served_system: "system hs tr \<Longrightarrow> list_all (serves hs) w \<Longrightarrow> system hs (map (Pair a) w @ tr)"
  by (induction w) (auto intro: system.call)

lemma relabelled_system:
  assumes "system hs tr" and "hs \<noteq> []" and "fresh hs ''edit''"
  shows "system (relabelled hs) tr"
  unfolding relabelled_def
proof (rule system.edit [OF assms(1)])
  show "current hs (key ((hd hs)\<lparr>h_ResourceVersion := ''edit'', h_Labels := [(''rack'', ''7'')]\<rparr>)) = Some (hd hs)"
    using assms(2) by (cases hs) (simp_all add: current_def key_def)
qed (use assms(3) in simp_all)

definition lagging_trace :: trace where
  "lagging_trace = map (Pair 1) after_edit @ map (Pair 1) before_edit @ map (Pair 0) probe_log"

lemma lagging_log: "log_of a lagging_trace = (if a = 1 then snd lagging_run else if a = 0 then probe_log else [])"
  by (simp add: lagging_trace_def before_edit_def after_edit_def)

lemma lagging_system: "system (relabelled recorded_history) lagging_trace"
proof -
  have "system start_history []"
    unfolding start_history_def by (rule system.create [OF system.start]) (simp_all add: fresh_def)
  from replay_system [OF replay_system [OF this probe_replay] lagging_replay]
  have "system recorded_history (map (Pair 1) before_edit @ map (Pair 0) probe_log)" by fastforce
  then have "system (relabelled recorded_history) (map (Pair 1) before_edit @ map (Pair 0) probe_log)"
    using lagging_current(1,2) by (rule relabelled_system)
  from served_system [OF this lagging_rest] show ?thesis unfolding lagging_trace_def .
qed

lemma lagging_operations: "by_operations lagging_trace"
  unfolding by_operations_def
proof
  fix a
  let ?E = "lagging probed"
  let ?m = "Instance.Create (DefaultHostProvider ?E) (DefaultBootstrapProvider ?E) ?E adopt_class other_claim [metal_type]"
  have launch: "operation (?m \<bind> (\<lambda>_. ret ()))" by (rule operation.instance_Create)
  have run: "run_state (?m \<bind> (\<lambda>_. ret ())) [] = ((), snd lagging_run)"
    by (simp add: lagging_run_def case_prod_beta)
  have probe: "\<exists>m r. operation m \<and> run_state m [] = (r, probe_log)"
    unfolding probe_log_def by (rule log_in_op, rule probe_op)
  show "\<exists>m r later. operation m \<and> run_state m [] = (r, later @ log_of a lagging_trace)"
  proof (cases "a = 0")
    case True
    with probe show ?thesis unfolding lagging_log by (metis append_Nil zero_neq_one)
  next
    case False
    then have "\<exists>later. snd lagging_run = later @ log_of a lagging_trace" unfolding lagging_log by auto
    with launch run show ?thesis by metis
  qed
qed

text \<open>C19. \<^bold>\<open>A lost race can misreport an adopted providerID.\<close> There is a run of the system in which a \<^verbatim>\<open>Create\<close>
  with an adopted identity succeeds and reports a \<^verbatim>\<open>kpssh://\<close> providerID, while the API server holds the
  adopted one for the same host: the write that marks the host InUse lost a race, its retries re-read the
  host from a stale cache, and the instance is built from that copy.\<close>

theorem lost_race_misreports_providerID:
  "\<exists>hs tr E i h. system hs tr \<and> by_operations tr \<and>
     run_state (Instance.Create (DefaultHostProvider E) (DefaultBootstrapProvider E) E adopt_class other_claim [metal_type]) [] =
       (Inr i, log_of 1 tr) \<and>
     current hs (''kpssh-system'', i_HostName i) = Some h \<and> ClaimHeldBy h other_claim \<and>
     ProviderID' (Status h) = ''eks-hybrid:///mi-1'' \<and> i_ProviderID i = ''kpssh://kpssh-system/metal-1''"
proof -
  from lagging_result(1) obtain i where i: "fst lagging_run = Inr i" "i_ProviderID i = ''kpssh://kpssh-system/metal-1''"
    by (cases "fst lagging_run") auto
  have run: "run_state (Instance.Create (DefaultHostProvider (lagging probed)) (DefaultBootstrapProvider (lagging probed))
     (lagging probed) adopt_class other_claim [metal_type]) [] = (Inr i, log_of 1 lagging_trace)"
    using i(1) by (simp add: lagging_log prod_eq_iff lagging_run_def)
  have "i_HostName i = ''metal-1''" using lagging_result(2) i(1) by simp
  with lagging_current(3) obtain h where "current (relabelled recorded_history) (''kpssh-system'', i_HostName i) = Some h"
    "ClaimHeldBy h other_claim" "ProviderID' (Status h) = ''eks-hybrid:///mi-1''" by auto
  with lagging_system lagging_operations run i(2) show ?thesis by blast
qed

end
