(* ===== verification/Teardown.thy ===== *)
theory Teardown
  imports Launch
begin

section \<open>Launches that are retried and launches that are undone\<close>

text \<open>
  How operations of one NodeClaim meet: a \<^verbatim>\<open>Create\<close> that is repeated takes up the host its predecessor claimed,
  and a \<^verbatim>\<open>Delete\<close> with the providerID that a launch reported frees the host of that launch.
\<close>

subsection \<open>A repeated launch\<close>

fun no_claim :: "event \<Rightarrow> bool" where
  "no_claim (UpdateHostStatus new r) = False"
| "no_claim _ = True"

lemma no_claim_setStatus: "guar no_claim (setStatus E h f) (\<lambda>_. True)"
proof -
  have "guar no_claim (set_status_once E c f h) (\<lambda>_. True)" for c h
    unfolding set_status_once_def casPatch_def by (auto simp: call_defs intro!: guar_rules)
  then show ?thesis unfolding setStatus_def by (rule RetryOnConflict_calls)
qed

lemma no_claim_calls:
  "guar no_claim (hp_SetInstalled (DefaultHostProvider E) h m) (\<lambda>_. True)"
  "guar no_claim (hp_SetBootstrapTokenID (DefaultHostProvider E) h tid) (\<lambda>_. True)"
  "guar no_claim (hp_SetProviderID (DefaultHostProvider E) h pid) (\<lambda>_. True)"
  "guar no_claim (hp_MarkInUse (DefaultHostProvider E) h) (\<lambda>_. True)"
  "guar no_claim (hp_Release (DefaultHostProvider E) h ok reason) (\<lambda>_. True)"
  by (auto simp: SetInstalled_def SetBootstrapTokenID_def SetProviderID_def MarkInUse_def Release_def casPatch_def call_defs
      intro!: no_claim_setStatus guar_rules)

lemma phase_no_claim: "guar phase_event m (\<lambda>_. True) \<Longrightarrow> guar no_claim m (\<lambda>_. True)"
  by (erule guar_weaken) (auto elim: phase_event.elims)

lemma token_no_claim:
  "guar no_claim (bp_CreateToken (DefaultBootstrapProvider E) ttl d) (\<lambda>_. True)"
  "guar no_claim (bp_DeleteToken (DefaultBootstrapProvider E) t) (\<lambda>_. True)"
  "guar no_claim (bp_DeleteTokenByID (DefaultBootstrapProvider E) tid) (\<lambda>_. True)"
  "guar no_claim (bp_ClusterInfo (DefaultBootstrapProvider E) nodeClass) (\<lambda>_. True)"
  by (rule guar_weaken [OF tokens.CreateToken_law] guar_weaken [OF tokens.DeleteToken_law]
        guar_weaken [OF tokens.DeleteTokenByID_law] guar_weaken [OF tokens.ClusterInfo_law];
      auto elim: token_event.elims)+

lemmas no_claim_rules = no_claim_calls [simplified] phase_no_claim [OF runPhase_calls]
  phase_no_claim [OF ReadSSHCredentials_calls] token_no_claim [simplified]

lemma join_no_claim: "guar no_claim (Instance.join (DefaultHostProvider E) (DefaultBootstrapProvider E) E nodeClass nc h) (\<lambda>_. True)"
proof -
  let ?P = "DefaultHostProvider E" and ?B = "DefaultBootstrapProvider E"
  have observe: "guar no_claim (ObservePhase phase e) (\<lambda>_. True)" for phase e by (auto simp: call_defs intro!: guar_rules)
  have config: "guar no_claim (join_config ?B E nodeClass nc h) (\<lambda>_. True)"
    unfolding join_config_def sshTarget_def join_secrets_def
    by (auto simp: call_defs intro!: guar_rules no_claim_rules [unfolded call_defs])
  have install: "guar no_claim (join_install ?P E h prof target pctx env) (\<lambda>_. True)" for h prof target pctx env
    unfolding join_install_def default_sel by (auto intro!: guar_rules no_claim_rules observe)
  have delete: "guar no_claim (deleteToken ?P ?B h t) (\<lambda>_. True)" for h t
    unfolding deleteToken_def default_sel by (auto intro!: guar_rules no_claim_rules)
  have token: "guar no_claim (join_token ?P ?B E nc h prof target pctx) (\<lambda>_. True)" for h prof target pctx
    unfolding join_token_def Let_def default_sel by (auto intro!: guar_rules no_claim_rules observe delete)
  show ?thesis unfolding join_def by (auto intro!: guar_rules config install token)
qed

lemma finish_no_claim:
  "guar no_claim (finish_create (DefaultHostProvider E) nc h pid) (\<lambda>_. True)"
  "guar no_claim (release (DefaultHostProvider E) (DefaultBootstrapProvider E) h ok reason) (\<lambda>_. True)"
  "guar no_claim (adoptProviderID E h) (\<lambda>_. True)"
proof -
  show "guar no_claim (finish_create (DefaultHostProvider E) nc h pid) (\<lambda>_. True)"
    unfolding finish_create_def default_sel by (auto intro!: guar_rules no_claim_rules)
  show "guar no_claim (release (DefaultHostProvider E) (DefaultBootstrapProvider E) h ok reason) (\<lambda>_. True)"
    unfolding release_def deleteBootstrapToken_def default_sel by (auto intro!: guar_rules no_claim_rules)
  have "guar no_claim (adopt_wait E h n) (\<lambda>_. True)" for n
    by (induction n) (auto simp: adopt_poll_def call_defs intro!: guar_rules)
  then show "guar no_claim (adoptProviderID E h) (\<lambda>_. True)"
    unfolding adoptProviderID_def by (auto intro!: guar_rules)
qed

text \<open>C7. \<^bold>\<open>A repeated launch takes up its host.\<close> When the pool that a \<^verbatim>\<open>Create\<close> lists shows a host that the NodeClaim
  holds, from an earlier attempt that failed or was cut short, the \<^verbatim>\<open>Create\<close> goes on with such a host:
  whatever happens after that, it claims no other one.\<close>

theorem repeated_Create_resumes:
  assumes "w_ListHosts E [] (w_PoolNamespace E) None = Inr hosts" and "h \<in> set hosts" and "ClaimHeldBy h nc"
    and "run_state (Instance.Create (DefaultHostProvider E) (DefaultBootstrapProvider E) E nodeClass nc its) [] = (r, w)"
  shows "\<exists>h' \<in> set hosts. ClaimHeldBy h' nc \<and>
    run_state (acquire (DefaultHostProvider E) nodeClass nc its) [] =
      (Inr (Some h'), [ListHosts (w_PoolNamespace E) None (Inr hosts)]) \<and>
    (\<forall>new a. UpdateHostStatus new a \<notin> set w)"
proof -
  let ?P = "DefaultHostProvider E" and ?B = "DefaultBootstrapProvider E"
  from assms(2,3) obtain h' where h': "List.find (\<lambda>h. ClaimHeldBy h nc) hosts = Some h'"
    by (cases "List.find (\<lambda>h. ClaimHeldBy h nc) hosts") (auto simp: find_None_iff)
  have acquire: "run_state (acquire ?P nodeClass nc its) [] = (Inr (Some h'), [ListHosts (w_PoolNamespace E) None (Inr hosts)])"
    using assms(1) h' by (simp add: acquire_def ByClaim_def list_pool_def call_defs)
  have "guar no_claim (do { (je, h1) \<leftarrow> Instance.join ?P ?B E nodeClass nc h';
      case je of
        Some e \<Rightarrow> do { release ?P ?B h1 (isConfigError e) (''join failed: '' @ Error e);
          ret (Inl (CreateError (Wrapf (''joining host '' @ h_Name h1 @ '': '') e) ''JoinFailed'' ''joining host over SSH failed'')) }
      | None \<Rightarrow> if ProviderIDSource' (ncl_Spec nodeClass) = Adopt then do {
            p \<leftarrow> adoptProviderID E h1;
            case p of
              Inl e \<Rightarrow> do { release ?P ?B h1 False (''providerID adoption failed: '' @ Error e);
                ret (Inl (CreateError e ''AdoptFailed'' ''node did not appear for providerID adoption'')) }
            | Inr adopted \<Rightarrow> finish_create ?P nc h1 adopted }
          else finish_create ?P nc h1 (ProviderID h1) }) (\<lambda>_. True)" (is "guar _ ?rest _")
    by (auto intro!: guar_rules join_no_claim finish_no_claim)
  moreover have "run_state ?rest [ListHosts (w_PoolNamespace E) None (Inr hosts)] = (r, w)"
    using assms(4) acquire by (simp add: Instance.Create_def)
  ultimately have "\<forall>e \<in> set w. no_claim e" by (auto elim!: guarD)
  then have "UpdateHostStatus new a \<notin> set w" for new a by force
  moreover have "h' \<in> set hosts" "ClaimHeldBy h' nc" using find_SomeD [OF h'] by auto
  ultimately show ?thesis using acquire by blast
qed

definition resumed_claim :: NodeClaim where
  "resumed_claim = other_claim\<lparr>nc_UID := ''u2''\<rparr>"

theorem repeated_Create_resumes_witness:
  "\<forall>new a. UpdateHostStatus new a \<notin> set (snd (run_state (Instance.Create (DefaultHostProvider (one_host_world claimed_host))
     (DefaultBootstrapProvider (one_host_world claimed_host)) (one_host_world claimed_host) plain_class resumed_claim [metal_type]) []))"
proof -
  let ?E = "one_host_world claimed_host"
  let ?m = "Instance.Create (DefaultHostProvider ?E) (DefaultBootstrapProvider ?E) ?E plain_class resumed_claim [metal_type]"
  have held: "ClaimHeldBy claimed_host resumed_claim" by code_simp
  have list: "w_ListHosts ?E [] (w_PoolNamespace ?E) None = Inr [claimed_host]" by (simp add: one_host_world_def)
  from repeated_Create_resumes [OF list _ held, of plain_class "[metal_type]" "fst (run_state ?m [])" "snd (run_state ?m [])"]
  show ?thesis by simp
qed

subsection \<open>A launch that is undone\<close>

text \<open>The only status writes are patches of stored versions of certain hosts.\<close>

fun only_hosts :: "(string \<Rightarrow> SSHHost) \<Rightarrow> (SSHHost \<Rightarrow> bool) \<Rightarrow> event \<Rightarrow> bool" where
  "only_hosts at P (PatchHostStatus orig new r) \<longleftrightarrow> known at orig \<and> P orig"
| "only_hosts at P (UpdateHostStatus new r) \<longleftrightarrow> False"
| "only_hosts at P _ \<longleftrightarrow> True"

lemma only_hosts_weaken:
  "guar phase_event m Q \<Longrightarrow> rg \<rho> (only_hosts at P) m (\<lambda>_. True)" "guar token_event m Q \<Longrightarrow> rg \<rho> (only_hosts at P) m (\<lambda>_. True)"
  by (erule guar_weaken; auto elim: phase_event.elims token_event.elims)+

text \<open>What a providerID resolves to: a rendered one to the host it names, any other one to a host that records it.\<close>

lemma resolves_named:
  "rg (good at) (only_hosts at P) (getHost E k) (\<lambda>r. \<forall>h. r = Inr h \<longrightarrow> known at h \<and> key h = k)"
  by (auto simp: call_defs key_def intro!: guar_rules)

lemma resolves_recorded:
  assumes "CutPrefix pid ProviderPrefix = None"
  shows "rg (good at) (only_hosts at P) (ByProviderID E pid) (\<lambda>r. \<forall>h. r = Inr h \<longrightarrow> known at h \<and> ProviderID' (Status h) = pid)"
proof -
  have list: "rg (good at) (only_hosts at P) (list_pool E None) (\<lambda>r. \<forall>hosts. r = Inr hosts \<longrightarrow> (\<forall>h \<in> set hosts. known at h))"
    by (auto simp: list_pool_def call_defs intro!: guar_rules)
  have find: "rg \<rho> (only_hosts at P) (case r of
        Inl e \<Rightarrow> ret (Inl e)
      | Inr hosts \<Rightarrow> ret (case List.find (\<lambda>h. ProviderID' (Status h) = pid) hosts of
          Some h \<Rightarrow> Inr h | None \<Rightarrow> Inl (host_not_found pid)))
      (\<lambda>r. \<forall>h. r = Inr h \<longrightarrow> known at h \<and> ProviderID' (Status h) = pid)"
    if "\<forall>hosts. r = Inr hosts \<longrightarrow> (\<forall>h \<in> set hosts. known at h)" for \<rho> r
    using that by (auto intro!: guar_rules dest!: find_SomeD split: option.splits)
  show ?thesis
    unfolding ByProviderID_def assms by (auto intro!: guar_rules rg_bind [OF list] find)
qed

lemma Delete_only_hosts:
  assumes "rg (good at) (only_hosts at P) (ByProviderID E (nc_ProviderID nc)) (\<lambda>r. \<forall>h. r = Inr h \<longrightarrow> known at h \<and> P h)"
  shows "rg (good at) (only_hosts at P) (Instance.Delete (DefaultHostProvider E) (DefaultBootstrapProvider E) E nc) (\<lambda>_. True)"
proof -
  let ?B = "DefaultBootstrapProvider E"
  have leave: "rg \<rho> (only_hosts at P) (LeaveHost E h) (\<lambda>_. True)" for \<rho> h
    unfolding LeaveHost_def by (rule only_hosts_weaken(1) [OF runInstalledPhase_calls])
  have token: "rg \<rho> (only_hosts at P) (deleteBootstrapToken ?B h) (\<lambda>_. True)" for \<rho> h
    unfolding deleteBootstrapToken_def by (auto intro!: guar_rules only_hosts_weaken(2) [OF DeleteTokenByID_calls])
  have release: "rg \<rho> (only_hosts at P) (Release E h ok reason) (\<lambda>_. True)" if "known at h" "P h" for \<rho> h ok reason
    unfolding Release_def casPatch_def using that by (auto simp: call_defs intro!: guar_rules)
  have grow: "grows (LeaveHost E h)" "grows (deleteBootstrapToken ?B h)" for h
    using leave token by (blast intro: rg_grows)+
  show ?thesis
    unfolding Instance.Delete_def default_sel
    by (rule rg_bind [OF assms]) (auto intro!: guar_rules leave token release grow pool_writes_grow)
qed

lemma log_of_in: "e \<in> set (log_of a tr) \<longleftrightarrow> (a, e) \<in> set tr"
  by (auto simp: log_of_def image_iff split: prod.splits)

text \<open>An accepted release, in the history: the version it was based on and the one it left.\<close>

lemma released_versions:
  assumes sys: "system hs tr" "by_operations tr"
    and only: "rg (good (lookup hs)) (only_hosts (lookup hs) P) (Instance.Delete (DefaultHostProvider E) (DefaultBootstrapProvider E) E nc) (\<lambda>_. True)"
    and delete: "run_state (Instance.Delete (DefaultHostProvider E) (DefaultBootstrapProvider E) E nc) [] = (None, log_of c tr)"
  shows "\<exists>v new freed before. log_of c tr = PatchHostStatus v new (Inr freed) # before \<and> ClaimHeldBy v nc \<and> P v \<and>
    v \<in> set hs \<and> freed \<in> set hs \<and> key freed = key v \<and> ClaimRef (Status freed) = None \<and> ProviderID' (Status freed) = ''''"
proof -
  obtain v new freed before where w: "log_of c tr = PatchHostStatus v new (Inr freed) # before" "ClaimHeldBy v nc"
    "ClaimRef (Status new) = None"
    using validD [OF Delete_valid TrueI delete] by (auto simp: released_def)
  have good: "list_all (good (lookup hs)) (PatchHostStatus v new (Inr freed) # before)" using system_good [OF sys] w(1) by metis
  have "run_state (Instance.Delete (DefaultHostProvider E) (DefaultBootstrapProvider E) E nc) [] =
      (None, [] @ PatchHostStatus v new (Inr freed) # before)" using delete w(1) by simp
  from rg_call [OF only this] good have v: "known (lookup hs) v" "P v" by auto
  from good have "written (lookup hs) (patched (lookup hs) v new) v freed" using v(1) by (simp add: known_base)
  then have st: "Status freed = Status new" "key freed = key v"
    using v(1) by (auto simp: written_def known_patched key_def) (metis with_version_simps(1,4,5))+
  have "(c, PatchHostStatus v new (Inr freed)) \<in> set tr" using w(1) by (simp flip: log_of_in)
  with system_lawful [OF sys] have "justified hs (PatchHostStatus v new (Inr freed))" and law: "lawful (stored_by tr) hs" by auto
  then have freed: "freed \<in> set hs" by (auto simp: justified_def)
  have "ClaimRef (Status freed) = None" "ProviderID' (Status freed) = ''''"
    using st(1) w(3) lawful_inv [OF law] freed by (auto simp: host_inv_def)
  with w(1,2) v st(2) freed known_in [OF v(1) ClaimHeldBy_claimed [OF w(2)]] show ?thesis by blast
qed

text \<open>C6. \<^bold>\<open>Deleting a NodeClaim frees the host of its launch.\<close> In every interleaving, let a \<^verbatim>\<open>Create\<close> have ended with an
  instance, without losing a race for its patches, and let a \<^verbatim>\<open>Delete\<close> of a NodeClaim
  with the instance's providerID have succeeded. Then the last call of the \<^verbatim>\<open>Delete\<close> is an accepted write to the
  very host of the launch; it was based on a version that the deleted NodeClaim held, and the version it left is in no
  NodeClaim's hands and backs no node. This holds for rendered providerIDs without further ado (namespaces contain no
  slash: the API server admits no others); for an adopted one, which the Delete looks up among the recorded ones, if it
  is not of the form \<^verbatim>\<open>kpssh://\<close> and never was recorded on two hosts.\<close>

theorem launched_host_freed:
  assumes sys: "system hs tr" "by_operations tr" and names: "\<forall>h \<in> set hs. CHR ''/'' \<notin> set (h_Namespace h)"
    and create: "run_state (Instance.Create (DefaultHostProvider E) (DefaultBootstrapProvider E) E nodeClass nc its) [] = (Inr i, log_of a tr)"
      "list_all unconflicted (log_of a tr)"
    and delete: "run_state (Instance.Delete (DefaultHostProvider E') (DefaultBootstrapProvider E') E' nc') [] = (None, log_of c tr)"
      "nc_ProviderID nc' = i_ProviderID i"
    and adopted: "ProviderIDSource' (ncl_Spec nodeClass) = Adopt \<longrightarrow> CutPrefix (i_ProviderID i) ProviderPrefix = None \<and>
      (\<forall>h \<in> set hs. \<forall>h' \<in> set hs. ProviderID' (Status h) = i_ProviderID i \<and> ProviderID' (Status h') = i_ProviderID i \<longrightarrow> key h = key h')"
  shows "\<exists>launched v new freed before. {launched, v, freed} \<subseteq> set hs \<and> key v = key launched \<and> key freed = key launched \<and>
    h_Name launched = i_HostName i \<and> ClaimHeldBy launched nc \<and> ProviderID' (Status launched) = i_ProviderID i \<and>
    log_of c tr = PatchHostStatus v new (Inr freed) # before \<and> ClaimHeldBy v nc' \<and>
    ClaimRef (Status freed) = None \<and> ProviderID' (Status freed) = ''''"
proof -
  obtain launched where l: "launched \<in> set hs" "ClaimHeldBy launched nc" "ProviderID' (Status launched) = i_ProviderID i"
    "h_Name launched = i_HostName i" "ProviderIDSource' (ncl_Spec nodeClass) \<noteq> Adopt \<longrightarrow> i_ProviderID i = ProviderID launched"
    using launched_recorded(1) [OF sys create] by blast
  have "\<exists>v new freed before. log_of c tr = PatchHostStatus v new (Inr freed) # before \<and> ClaimHeldBy v nc' \<and> key v = key launched \<and>
    v \<in> set hs \<and> freed \<in> set hs \<and> key freed = key v \<and> ClaimRef (Status freed) = None \<and> ProviderID' (Status freed) = ''''"
  proof (cases "ProviderIDSource' (ncl_Spec nodeClass) = Adopt")
    case True
    with adopted delete(2) have "CutPrefix (nc_ProviderID nc') ProviderPrefix = None" by simp
    from released_versions [OF sys Delete_only_hosts [OF resolves_recorded [OF this]] delete(1)] obtain v new freed before
      where "log_of c tr = PatchHostStatus v new (Inr freed) # before" "ClaimHeldBy v nc'" "ProviderID' (Status v) = i_ProviderID i"
        "v \<in> set hs" "freed \<in> set hs" "key freed = key v" "ClaimRef (Status freed) = None" "ProviderID' (Status freed) = ''''"
      using delete(2) by auto
    with True adopted l(1,3) show ?thesis by blast
  next
    case False
    then have "ByProviderID E' (nc_ProviderID nc') = getHost E' (key launched)"
      using names l(1,5) ByProviderID_own [of launched E'] delete(2) by (simp add: key_def)
    then have "rg (good (lookup hs)) (only_hosts (lookup hs) (\<lambda>h. key h = key launched)) (ByProviderID E' (nc_ProviderID nc'))
        (\<lambda>r. \<forall>h. r = Inr h \<longrightarrow> known (lookup hs) h \<and> key h = key launched)"
      using resolves_named by simp
    from released_versions [OF sys Delete_only_hosts [OF this] delete(1)] show ?thesis .
  qed
  with l(1-4) show ?thesis by fastforce
qed

subsection \<open>An adopted identity, from launch to deletion\<close>

text \<open>The node of the host registers under an identity of its own, the launch adopts it, and the Delete finds the host by it.\<close>

definition adopting :: "history \<Rightarrow> world" where
  "adopting hs = (server hs)\<lparr>w_ListNodes := \<lambda>_ _. Inr [hybrid_node]\<rparr>"

definition hybrid_claim :: NodeClaim where
  "hybrid_claim = other_claim\<lparr>nc_ProviderID := ''eks-hybrid:///mi-1''\<rparr>"

definition adopt_run :: "(cloud_err + Instance) \<times> event log" where
  "adopt_run = run_state (Instance.Create (DefaultHostProvider (adopting probed)) (DefaultBootstrapProvider (adopting probed))
     (adopting probed) adopt_class other_claim [metal_type]) []"

definition adopted_history :: history where
  "adopted_history = (let c = \<lparr>ref_Name = ''pool-abc'', ref_UID = ''u1''\<rparr>; p = ''tls-bootstrap@2''; i = ''eks-hybrid:///mi-1'' in
     [ver ''7'' InUse (Some c) p ''abcdef'' i, ver ''6'' Claimed (Some c) p ''abcdef'' i, ver ''5'' Claimed (Some c) p ''abcdef'' '''',
      ver ''4'' Claimed (Some c) p '''' '''', ver ''3'' Claimed (Some c) '''' '''' ''''] @ probed)"

definition drop_run :: "cloud_err option \<times> event log" where
  "drop_run = run_state (Instance.Delete (DefaultHostProvider (adopting adopted_history)) (DefaultBootstrapProvider (adopting adopted_history))
     (adopting adopted_history) hybrid_claim) []"

definition dropped_history :: history where
  "dropped_history = ver ''8'' Available None ''tls-bootstrap@2'' '''' '''' # adopted_history"

lemma adopt_facts:
  "map_sum (\<lambda>_. ()) i_ProviderID (fst adopt_run) = Inr ''eks-hybrid:///mi-1'' \<and> list_all unconflicted (snd adopt_run) \<and>
   replay probed (snd adopt_run) = Some adopted_history"
  by code_simp

lemma drop_facts:
  "fst drop_run = None \<and> replay adopted_history (snd drop_run) = Some dropped_history"
  by code_simp

lemma dropped_keys: "h \<in> set dropped_history \<Longrightarrow> key h = (''kpssh-system'', ''metal-1'')"
  by (auto simp: dropped_history_def adopted_history_def probed_def start_history_def Let_def ver_def sample_host_def key_def)

definition adopt_trace :: trace where
  "adopt_trace = map (Pair 2) (snd drop_run) @ map (Pair 1) (snd adopt_run) @ map (Pair 0) probe_log"

lemma adopt_system: "system dropped_history adopt_trace"
proof -
  have "system start_history []"
    unfolding start_history_def by (rule system.create [OF system.start]) (simp_all add: fresh_def)
  note probe = replay_system [OF this probe_replay, where a = 0]
  note launch = replay_system [OF probe, where a = 1, OF conjunct2 [OF conjunct2 [OF adopt_facts]]]
  from replay_system [OF launch, where a = 2, OF conjunct2 [OF drop_facts]]
  show ?thesis unfolding adopt_trace_def by simp
qed

lemma adopt_operations: "by_operations adopt_trace"
  unfolding by_operations_def
proof
  fix a
  have create: "run_state (Instance.Create (DefaultHostProvider (adopting probed)) (DefaultBootstrapProvider (adopting probed))
      (adopting probed) adopt_class other_claim [metal_type] \<bind> (\<lambda>_. ret ())) [] = ((), snd adopt_run)"
    and drop: "run_state (Instance.Delete (DefaultHostProvider (adopting adopted_history)) (DefaultBootstrapProvider (adopting adopted_history))
      (adopting adopted_history) hybrid_claim \<bind> (\<lambda>_. ret ())) [] = ((), snd drop_run)"
    by (simp_all add: adopt_run_def drop_run_def case_prod_beta)
  have ops: "\<exists>m r. operation m \<and> run_state m [] = (r, snd adopt_run)" "\<exists>m r. operation m \<and> run_state m [] = (r, snd drop_run)"
    using create operation.instance_Create drop operation.instance_Delete by blast+
  have probe: "\<exists>m r. operation m \<and> run_state m [] = (r, probe_log)"
    unfolding probe_log_def by (rule log_in_op, rule probe_op)
  have "log_of a adopt_trace \<in> {probe_log, snd adopt_run, snd drop_run, []}" by (simp add: adopt_trace_def)
  with ops probe show "\<exists>m r later. operation m \<and> run_state m [] = (r, later @ log_of a adopt_trace)"
    by (smt (verit) append_Nil append_Nil2 empty_iff insert_iff)
qed

theorem launched_host_freed_witness:
  "\<exists>freed \<in> set dropped_history. h_Name freed = ''metal-1'' \<and> ClaimRef (Status freed) = None \<and>
     (\<exists>v new before. snd drop_run = PatchHostStatus v new (Inr freed) # before \<and> ClaimHeldBy v hybrid_claim)"
proof -
  have logs: "log_of 1 adopt_trace = snd adopt_run" "log_of 2 adopt_trace = snd drop_run" by (simp_all add: adopt_trace_def)
  obtain i where i: "fst adopt_run = Inr i" "i_ProviderID i = ''eks-hybrid:///mi-1''"
    using adopt_facts by (cases "fst adopt_run") auto
  have create: "run_state (Instance.Create (DefaultHostProvider (adopting probed)) (DefaultBootstrapProvider (adopting probed))
      (adopting probed) adopt_class other_claim [metal_type]) [] = (Inr i, log_of 1 adopt_trace)"
    unfolding logs using i(1) by (simp add: adopt_run_def prod_eq_iff)
  have delete: "run_state (Instance.Delete (DefaultHostProvider (adopting adopted_history)) (DefaultBootstrapProvider (adopting adopted_history))
      (adopting adopted_history) hybrid_claim) [] = (None, log_of 2 adopt_trace)"
    unfolding logs using drop_facts by (simp add: drop_run_def prod_eq_iff)
  have quiet: "list_all unconflicted (log_of 1 adopt_trace)" unfolding logs using adopt_facts by blast
  note keys = dropped_keys
  have names: "\<forall>h \<in> set dropped_history. CHR ''/'' \<notin> set (h_Namespace h)" using keys by (auto simp: key_def)
  have pid: "nc_ProviderID hybrid_claim = i_ProviderID i" using i(2) by (simp add: hybrid_claim_def)
  have "CutPrefix (i_ProviderID i) ProviderPrefix = None" using i(2) by (simp add: ProviderPrefix_def CutPrefix_def)
  with keys have unique: "ProviderIDSource' (ncl_Spec adopt_class) = Adopt \<longrightarrow> CutPrefix (i_ProviderID i) ProviderPrefix = None \<and>
      (\<forall>h \<in> set dropped_history. \<forall>h' \<in> set dropped_history.
        ProviderID' (Status h) = i_ProviderID i \<and> ProviderID' (Status h') = i_ProviderID i \<longrightarrow> key h = key h')" by simp
  from launched_host_freed [OF adopt_system adopt_operations names create quiet delete pid unique] obtain freed v new before
    where "freed \<in> set dropped_history" "ClaimRef (Status freed) = None" "ClaimHeldBy v hybrid_claim"
      "log_of 2 adopt_trace = PatchHostStatus v new (Inr freed) # before" by auto
  moreover from this(1) have "h_Name freed = ''metal-1''" using keys by (auto simp: key_def)
  ultimately show ?thesis unfolding logs by blast
qed

end
