(* ===== verification/ProbeFacts.thy ===== *)
theory ProbeFacts
  imports HostProbe
begin

section \<open>What the probe controller does and does not do\<close>

text \<open>
  Behavioural properties of the reconciler: which hosts it contacts, in which order the zombie guard
  acts, what the parser of the probe output reads, and how the Ready condition follows the state.
\<close>

subsection \<open>Claimed hosts are left alone\<close>

text \<open>Events that touch a machine or delete a Node.\<close>

fun touches :: "event \<Rightarrow> bool" where
  "touches (Exec _ _ _ _ _) = True"
| "touches (ExecShim _ _ _ _) = True"
| "touches (DeleteNode _ _) = True"
| "touches _ = False"

lemma patchStatus_quiet: "guar (\<lambda>e. \<not> touches e) (patchStatus E orig h q) (\<lambda>_. True)"
  by (auto simp: patchStatus_def call_defs intro!: guar_rules)

lemma claimed_branch_quiet: "guar (\<lambda>e. \<not> touches e) (claimed_branch (DefaultBootstrapProvider E) E orig h) (\<lambda>_. True)"
proof -
  have "guar (\<lambda>e. \<not> touches e) (collect_token (DefaultBootstrapProvider E) E orig h) (\<lambda>_. True)"
    by (auto simp: collect_token_def nodeByInternalIP_def DeleteTokenByID_def call_defs
        intro!: guar_rules patchStatus_quiet [unfolded call_defs])
  then show ?thesis
    by (auto simp: claimed_branch_def deleteStaleToken_def DeleteTokenByID_def Let_def call_defs
        intro!: guar_rules patchStatus_quiet [unfolded call_defs])
qed

text \<open>C27. \<^bold>\<open>The probe controller never touches a claimed host.\<close> Reconciling a host that carries a
  claim (and obeys the invariant) runs no script on it, neither a probe nor a leave, and deletes no
  Node, whatever annotations the host has and whatever the API answers.\<close>

theorem claimed_host_not_touched:
  assumes "w_GetHost E w req = Inr orig" and "host_inv (Status orig)" and "ClaimRef (Status orig) \<noteq> None"
    and "run_state (Reconcile (DefaultBootstrapProvider E) E req) w = (r, evs @ w)"
  shows "\<forall>e \<in> set evs. \<not> touches e"
proof -
  have "maintenance_state orig = orig" and "State' (Status orig) \<in> {Claimed, InUse}"
    using assms(2,3) by (auto simp: maintenance_state_def host_inv_def Let_def)
  then have "run_state (Reconcile (DefaultBootstrapProvider E) E req) w =
      run_state (claimed_branch (DefaultBootstrapProvider E) E orig orig) (GetHost req (Inr orig) # w)"
    using assms(1) by (auto simp: Reconcile_def dispatch_def call_defs Let_def)
  with assms(4) have "run_state (claimed_branch (DefaultBootstrapProvider E) E orig orig) (GetHost req (Inr orig) # w) = (r, evs @ w)"
    by simp
  with claimed_branch_quiet obtain evs' where "evs @ w = evs' @ GetHost req (Inr orig) # w"
    and "\<forall>e \<in> set evs'. \<not> touches e" by (rule guarD)
  then show ?thesis by (auto simp: append_eq_append_conv2 append_eq_Cons_conv)
qed

definition busy_host :: SSHHost where
  "busy_host = sample_host\<lparr>h_Annotations := [(MaintenanceAnnotation, ''true'')],
     Status := sample_status\<lparr>State' := InUse, ClaimRef := Some \<lparr>ref_Name = ''pool-abc'', ref_UID = ''u2''\<rparr>\<rparr>\<rparr>"

theorem claimed_host_not_touched_witness:
  "list_all (\<lambda>e. \<not> touches e) (snd (run_state (Reconcile (DefaultBootstrapProvider (one_host_world busy_host))
     (one_host_world busy_host) (''kpssh-system'', ''metal-1'')) []))"
  unfolding list_all_iff
  by (rule claimed_host_not_touched [where w = "[]" and orig = busy_host and E = "one_host_world busy_host"
        and req = "(''kpssh-system'', ''metal-1'')"])
     (simp_all add: busy_host_def one_host_world_def sample_host_def sample_status_def host_inv_def prod_eq_iff)

subsection \<open>The staleness guard\<close>

text \<open>\<^bold>\<open>A recently probed host is not probed again.\<close> When the current generation was probed less
  than the probe interval ago and no maintenance transition is due, a reconcile of an unclaimed host
  reads the host and the clock, does nothing else, and asks to be called again exactly when the
  interval has passed.\<close>

theorem fresh_host_not_probed:
  assumes "w_GetHost E w req = Inr orig" and "State' (Status orig) \<notin> {Claimed, InUse, Maintenance}"
    and "map_of (h_Annotations orig) MaintenanceAnnotation = None"
    and "SSHHostStatus.ObservedGeneration (Status orig) = h_Generation orig"
    and "LastProbeTime (Status orig) = Some t0"
    and "t = w_Now E (GetHost req (Inr orig) # w)" and "t - t0 < ProbeInterval"
  shows "run_state (Reconcile B E req) w =
    ((ProbeInterval - (t - t0), None), [Clock t, GetHost req (Inr orig)] @ w)"
proof -
  have "maintenance_state orig = orig" using assms(2,3) by (auto simp: maintenance_state_def Let_def)
  moreover have "run_state (stale_guard E orig orig) (GetHost req (Inr orig) # w) =
      ((ProbeInterval - (t - t0), None), [Clock t, GetHost req (Inr orig)] @ w)"
    using assms(4-7) by (simp add: stale_guard_def call_defs)
  ultimately show ?thesis
    using assms(1,2) by (auto simp: Reconcile_def dispatch_def call_defs Let_def split: HostState.split)
qed

definition fresh_host :: SSHHost where
  "fresh_host = sample_host\<lparr>Status := sample_status\<lparr>LastProbeTime := Some 0\<rparr>\<rparr>"

theorem fresh_host_not_probed_witness:
  "fst (run_state (Reconcile (DefaultBootstrapProvider (one_host_world fresh_host)) (one_host_world fresh_host)
     (''kpssh-system'', ''metal-1'')) []) = (ProbeInterval, None)"
  by (subst fresh_host_not_probed [where orig = fresh_host and t = 0 and t0 = 0])
     (simp_all add: fresh_host_def one_host_world_def dead_world_def sample_host_def sample_status_def
       ProbeInterval_def second_def)

subsection \<open>The order of the zombie guard\<close>

fun runs_script :: "event \<Rightarrow> bool" where
  "runs_script (Exec _ _ _ _ _) = True"
| "runs_script (ExecShim _ _ _ _) = True"
| "runs_script _ = False"

fun script_target :: "event \<Rightarrow> string option" where
  "script_target (Exec _ t _ _ _) = Some (t_Address t)"
| "script_target (ExecShim _ t _ _) = Some (t_Address t)"
| "script_target _ = None"

text \<open>A write to state Leaving on an unclaimed host that the API server accepted, and the version it left.\<close>

fun won_leaving :: "event \<Rightarrow> SSHHost option" where
  "won_leaving (PatchHostStatus orig new (Inr h)) =
     (if State' (Status new) = Leaving \<and> ClaimRef (Status orig) = None then Some h else None)"
| "won_leaving _ = None"

definition fenced_host :: "SSHHost \<Rightarrow> event log \<Rightarrow> bool" where
  "fenced_host h w \<longleftrightarrow> list_ex (\<lambda>e. won_leaving e = Some h) w"

fun deletes_node :: "event \<Rightarrow> bool" where
  "deletes_node (DeleteNode _ _) = True"
| "deletes_node _ = False"

text \<open>Every script that runs, runs on a host that was fenced before; every Node that is deleted, is deleted after a host was
  fenced and the leave script of the profile recorded on that host has succeeded on it.\<close>

fun guard_order :: "world \<Rightarrow> event log \<Rightarrow> bool" where
  "guard_order E [] = True"
| "guard_order E (e # w) \<longleftrightarrow>
     (runs_script e \<longrightarrow> (\<exists>h. fenced_host h w \<and> script_target e = Some (Address (Spec h)))) \<and>
     (deletes_node e \<longrightarrow> (\<exists>h. fenced_host h w \<and> ran_installed E h ''leave'' w)) \<and> guard_order E w"

abbreviation fenced :: "world \<Rightarrow> SSHHost \<Rightarrow> event log \<Rightarrow> bool" where
  "fenced E h w \<equiv> guard_order E w \<and> fenced_host h w"

lemma guard_order_keep:
  "guar (\<lambda>e. \<not> runs_script e \<and> \<not> deletes_node e) m (\<lambda>_. True) \<Longrightarrow> valid (guard_order E) m (\<lambda>_. guard_order E)"
  by (rule valid_weaken [OF guar_valid [where P = "guard_order E" and \<phi> = "\<lambda>e. \<not> runs_script e \<and> \<not> deletes_node e"]]) auto

lemma fenced_keep:
  "guar (\<lambda>e. \<not> runs_script e \<and> \<not> deletes_node e) m (\<lambda>_. True) \<Longrightarrow> valid (fenced E h) m (\<lambda>_. fenced E h)"
  by (rule valid_weaken [OF guar_valid [where P = "fenced E h" and \<phi> = "\<lambda>e. \<not> runs_script e \<and> \<not> deletes_node e"]])
     (auto simp: fenced_host_def)

text \<open>The phases of a host run on its own machine only.\<close>

fun on_machine :: "SSHHost \<Rightarrow> event \<Rightarrow> bool" where
  "on_machine h e \<longleftrightarrow> \<not> deletes_node e \<and> (runs_script e \<longrightarrow> script_target e = Some (Address (Spec h)))"

lemma runInstalledPhase_machine: "guar (on_machine h) (runInstalledPhase E h phase def) (\<lambda>_. True)"
  by (auto simp: runInstalledPhase_def runPhase_def runVerifiedPhase_def ReadSSHCredentials_def SSHTarget_def call_defs Let_def
      intro!: guar_rules)

lemma LeaveHost_fenced:
  "valid (fenced E h) (LeaveHost E h) (\<lambda>r w. fenced E h w \<and> (r = None \<longrightarrow> ran_installed E h ''leave'' w))"
proof (rule validI)
  fix w r w'
  assume "fenced E h w" and run: "run_state (LeaveHost E h) w = (r, w')"
  have "valid (fenced E h) (LeaveHost E h) (\<lambda>_. fenced E h)"
    unfolding LeaveHost_def
    by (rule valid_weaken [OF guar_valid [OF runInstalledPhase_machine, where P = "fenced E h"]]) (auto simp: fenced_host_def)
  from validD [OF this \<open>fenced E h w\<close> run] have "fenced E h w'" .
  then show "fenced E h w' \<and> (r = None \<longrightarrow> ran_installed E h ''leave'' w')"
    using validD [OF LeaveHost_runs TrueI run] by blast
qed

lemma quiet_order:
  "guar (\<lambda>e. \<not> runs_script e \<and> \<not> deletes_node e) (patchStatus E o1 h q) (\<lambda>_. True)"
  "guar (\<lambda>e. \<not> runs_script e \<and> \<not> deletes_node e) (record_event h a b c d) (\<lambda>_. True)"
  "guar (\<lambda>e. \<not> runs_script e \<and> \<not> deletes_node e) (RecordZombieAction x) (\<lambda>_. True)"
  "guar (\<lambda>e. \<not> runs_script e \<and> \<not> deletes_node e) (nodeByInternalIP E ip) (\<lambda>_. True)"
  by (auto simp: patchStatus_def record_event_def nodeByInternalIP_def call_defs intro!: guar_rules)

lemma zombie_done_order: "guar (\<lambda>e. \<not> runs_script e \<and> \<not> deletes_node e) (zombie_done E h) (\<lambda>_. True)"
  unfolding zombie_done_def by (intro guar_rules quiet_order)

lemma zombie_leave_order: "valid (fenced E h) (zombie_leave E h n) (\<lambda>_. guard_order E)"
proof -
  let ?left = "\<lambda>w. fenced E h w \<and> ran_installed E h ''leave'' w"
  have del: "valid ?left (case n of None \<Rightarrow> ret None | Some nd \<Rightarrow> deleteNode E nd) (\<lambda>_. guard_order E)"
    by (auto simp: valid_def call_defs split: option.splits)
  have rest: "valid (fenced E h) m (\<lambda>_. guard_order E)"
    if "guar (\<lambda>e. \<not> runs_script e \<and> \<not> deletes_node e) m (\<lambda>_. True)" for m :: "reconcile io"
    by (rule valid_weaken [OF guard_order_keep [OF that]]) auto
  note tail = guard_order_keep [OF zombie_done_order] valid_return
  have failed: "valid (\<lambda>w. fenced E h w \<and> (Some e = None \<longrightarrow> ran_installed E h ''leave'' w)) (do {
         RecordZombieAction ZombieActionLeaveFailed;
         record_event h ''Warning'' ''ZombieLeaveFailed'' ''Leave''
           (''leave failed on an unclaimed host with an active kubelet: '' @ Error e);
         patchStatus E h (with_status (\<lambda>s. s\<lparr>State' := Unhealthy,
           LastProbeError := ''zombie leave failed: '' @ Error e\<rparr>) h) ProbeInterval }) (\<lambda>_. guard_order E)" for e
    by (rule valid_weaken [OF rest]) (intro guar_rules quiet_order | simp)+
  have left: "valid (\<lambda>w. fenced E h w \<and> (None = None \<longrightarrow> ran_installed E h ''leave'' w)) (do {
         d \<leftarrow> (case n of None \<Rightarrow> ret None | Some nd \<Rightarrow> deleteNode E nd);
         case d of
           Some e \<Rightarrow>
             if \<not> IsNotFound e then ret (0, Some e) else zombie_done E h
         | None \<Rightarrow> zombie_done E h }) (\<lambda>_. guard_order E)"
    by (rule valid_bind, rule valid_weaken [OF del], simp, assumption) (auto split: option.split intro!: tail)
  show ?thesis
    unfolding zombie_leave_def
    by (rule valid_bind [OF fenced_keep [OF quiet_order(2)]], rule valid_bind [OF LeaveHost_fenced], rule valid_case_option)
       (simp_all only: failed left)
qed

lemma handleZombie_order: "valid (guard_order E) (handleZombie E h) (\<lambda>_. guard_order E)"
proof (cases "ClaimRef (Status h)")
  case None
  have claim: "valid (guard_order E) (patchHostStatus E h (with_status (\<lambda>s. s\<lparr>State' := Leaving\<rparr>) h))
      (\<lambda>r w. guard_order E w \<and> (\<forall>h'. r = Inr h' \<longrightarrow> fenced_host h' w))"
    using None by (auto simp: valid_def call_defs fenced_host_def)
  have won: "valid (\<lambda>w. guard_order E w \<and> (\<forall>h'. r = Inr h' \<longrightarrow> fenced_host h' w))
      (case r of Inl e \<Rightarrow> ret (patch_failure e) | Inr h' \<Rightarrow> zombie_leave E h' n) (\<lambda>_. guard_order E)" for r n
    by (rule valid_case_sum; rule valid_weaken [OF zombie_leave_order] valid_return) auto
  have park: "guar (\<lambda>e. \<not> runs_script e \<and> \<not> deletes_node e) (do {
      record_event h ''Warning'' ''ForeignKubelet'' ''Park'' foreign_message;
      RecordZombieAction ZombieActionParkedForeign;
      patchStatus E h (with_status (\<lambda>s. s\<lparr>State' := Unhealthy, LastProbeError := foreign_message\<rparr>) h)
        ProbeInterval }) (\<lambda>_. True)"
    by (intro guar_rules quiet_order)
  show ?thesis
    unfolding handleZombie_def using None
    by (auto intro!: valid_bind [OF guard_order_keep [OF quiet_order(4)]] valid_case_sum valid_return valid_if
        guard_order_keep [OF park] valid_bind [OF claim won])
qed (simp add: handleZombie_def valid_return)

text \<open>C26. \<^bold>\<open>The zombie guard fences before it acts.\<close> In every run of the zombie guard, a script runs only on the machine
  of a host for which the guard has won the compare-and-swap to state Leaving before, on an unclaimed version; and
  the Node object is deleted only when in addition the leave script of the profile recorded on that host has been
  run on it and succeeded.\<close>

theorem zombie_guard_fenced:
  assumes "run_state (handleZombie E host) [] = (r, w)"
  shows "guard_order E w"
  using validD [OF handleZombie_order _ assms] by simp

definition zombie_host :: SSHHost where
  "zombie_host = sample_host\<lparr>Status := sample_status\<lparr>InstalledProfile := ''tls-bootstrap@2''\<rparr>\<rparr>"

definition zombie_node :: Node where
  "zombie_node = \<lparr>n_Name = ''metal-1'', n_ProviderID = '''', n_Taints = [], n_Addresses = [(''InternalIP'', ''10.0.0.1'')],
     n_Conditions = [], n_OwnerReferences = [], n_Deleted = False, n_CreationTimestamp = 0\<rparr>"

text \<open>A world in which the zombie guard gets all the way to the deletion of the Node.\<close>

definition zombie_world :: world where
  "zombie_world = (ready_world zombie_host sample_profile)\<lparr>w_PatchHostStatus := \<lambda>_ orig h. Inr h,
     w_ListNodes := \<lambda>_ _. Inr [zombie_node], w_DeleteNode := \<lambda>_ _. None\<rparr>"

theorem zombie_guard_fenced_witness:
  "\<exists>r w. run_state (handleZombie zombie_world zombie_host) [] = (r, w) \<and> list_ex deletes_node w \<and> guard_order zombie_world w"
proof -
  obtain r w where run: "run_state (handleZombie zombie_world zombie_host) [] = (r, w)" by fastforce
  have "list_ex deletes_node (snd (run_state (handleZombie zombie_world zombie_host) []))" by code_simp
  with run zombie_guard_fenced [OF run] show ?thesis by auto
qed

subsection \<open>Reading the probe output\<close>

definition word :: "string \<Rightarrow> bool" where
  "word u \<longleftrightarrow> u \<noteq> [] \<and> (\<forall>c \<in> set u. graphic c)"

lemma word_show_nat: "word (show_nat n)"
  by (simp add: word_def show_nat_graphic)

lemma Fields_words:
  "word a \<Longrightarrow> word b \<Longrightarrow> word c \<Longrightarrow> Fields (TrimSpace (line a @ line b @ line c)) = [a, b, c]"
  "word a \<Longrightarrow> word b \<Longrightarrow> word c \<Longrightarrow> word d \<Longrightarrow> Fields (TrimSpace (line a @ line b @ line c @ line d)) = [a, b, c, d]"
proof -
  assume w: "word a" "word b" "word c"
  have "TrimSpace (line a @ line b @ line c) = line a @ line b @ c"
    using TrimSpace_line [of "line a @ line b @ c"] w by (simp add: line_def word_def)
  then show "Fields (TrimSpace (line a @ line b @ line c)) = [a, b, c]"
    using w by (simp add: line_def word_def Fields_line Fields_word)
next
  assume w: "word a" "word b" "word c" "word d"
  have "TrimSpace (line a @ line b @ line c @ line d) = line a @ line b @ line c @ d"
    using TrimSpace_line [of "line a @ line b @ line c @ d"] w by (simp add: line_def word_def)
  then show "Fields (TrimSpace (line a @ line b @ line c @ line d)) = [a, b, c, d]"
    using w by (simp add: line_def word_def Fields_line Fields_word)
qed

text \<open>C28. \<^bold>\<open>The parser reads what the probe script prints.\<close> For every CPU count and memory size that
  fits an int64, every machine name and every kubelet unit state, parsing the four lines of the
  probe script recovers exactly these facts, and without the fourth line (no systemd) the kubelet
  counts as inactive.\<close>

theorem probe_output_roundtrip:
  assumes "n < 2 ^ 63" and "m < 2 ^ 63" and "word machine" and "word kubelet"
  shows "parseProbeOutput (line (show_nat n) @ line (show_nat m) @ line machine @ line kubelet) fp =
      \<lparr>pr_cpus = int n, pr_memKB = int m, pr_arch = normalizeArch machine, pr_fingerprint = fp,
       pr_kubeletActive = (kubelet = ''active'')\<rparr> \<and>
    parseProbeOutput (line (show_nat n) @ line (show_nat m) @ line machine) fp =
      \<lparr>pr_cpus = int n, pr_memKB = int m, pr_arch = normalizeArch machine, pr_fingerprint = fp,
       pr_kubeletActive = False\<rparr>"
  using assms by (simp add: parseProbeOutput_def Fields_words word_show_nat ParseInt64_show_nat)

theorem probe_output_roundtrip_witness:
  "pr_kubeletActive (parseProbeOutput (line (show_nat 8) @ line (show_nat 16384) @ line ''x86_64'' @ line ''active'') ''fp'') \<and>
   pr_arch (parseProbeOutput (line (show_nat 8) @ line (show_nat 16384) @ line ''x86_64'' @ line ''active'') ''fp'') = ''amd64''"
  using probe_output_roundtrip [of 8 16384 "''x86_64''" "''active''" "''fp''"]
  by (simp add: word_def graphic_def normalizeArch_def)

subsection \<open>The Ready condition\<close>

text \<open>What the program relies on of \<^verbatim>\<open>meta.SetStatusCondition\<close>: afterwards the condition of that type
  carries the status, reason, message and observed generation it was given.\<close>

definition condition_of :: "Condition list \<Rightarrow> string \<Rightarrow> Condition option" where
  "condition_of cs ty = List.find (\<lambda>c. c_Type c = ty) cs"

definition sets_conditions :: "world \<Rightarrow> bool" where
  "sets_conditions E \<longleftrightarrow> (\<forall>t cs c. \<exists>d. condition_of (w_SetStatusCondition E t cs c) (c_Type c) = Some d \<and>
     c_Status d = c_Status c \<and> c_Reason d = c_Reason c \<and> c_Message d = c_Message c \<and>
     c_ObservedGeneration d = c_ObservedGeneration c)"

text \<open>The Ready condition of a status agrees with its state.\<close>

definition ready_agrees :: "SSHHostStatus \<Rightarrow> bool" where
  "ready_agrees s = (case condition_of (Conditions s) ''Ready'' of
       None \<Rightarrow> False
     | Some c \<Rightarrow>
         c_Status c = (if State' s \<in> {Available, Claimed, InUse, Leaving} then ConditionTrue
           else if State' s \<in> {Unhealthy, Maintenance} then ConditionFalse else ConditionUnknown) \<and>
         (State' s = Unhealthy \<and> LastProbeError s \<noteq> '''' \<longrightarrow> c_Message c = LastProbeError s))"

lemma setReady_agrees: "sets_conditions E \<Longrightarrow> ready_agrees (Status (setReadyCondition E t host))"
proof -
  assume "sets_conditions E"
  then obtain d where "condition_of (w_SetStatusCondition E t (Conditions (Status host)) (ready_condition host))
      (c_Type (ready_condition host)) = Some d" "c_Status d = c_Status (ready_condition host)"
      "c_Message d = c_Message (ready_condition host)"
    unfolding sets_conditions_def by blast
  then show ?thesis
    by (cases "State' (Status host)")
       (simp_all add: ready_agrees_def setReadyCondition_def ready_condition_def ready_of_def HostConditionReady_def)
qed

lemma same_status_ready: "same_status a b \<Longrightarrow> ready_agrees a = ready_agrees b"
proof -
  assume "same_status a b"
  then have "a\<lparr>ObservedCapacity := []\<rparr> = b\<lparr>ObservedCapacity := []\<rparr>" by (simp add: same_status_def)
  moreover have "ready_agrees s = ready_agrees (s\<lparr>ObservedCapacity := []\<rparr>)" for s
    by (simp add: ready_agrees_def split: option.split)
  ultimately show ?thesis by metis
qed

text \<open>\<^bold>\<open>A probe write keeps the Ready condition in agreement with the state.\<close> \<^verbatim>\<open>patchStatus\<close> either
  sends a status whose Ready condition agrees with its state, or it finds that the object it read
  already carries this status, Ready included, and sends nothing.\<close>

theorem patchStatus_ready:
  assumes "sets_conditions E"
  shows "case run_state (patchStatus E orig host requeue) w of (r, w') \<Rightarrow>
    (\<exists>t. w' = Clock t # w \<and> r = (requeue, None) \<and> ready_agrees (Status orig)) \<or>
    (\<exists>t new a. w' = PatchHostStatus orig new a # Clock t # w \<and> ready_agrees (Status new) \<and>
       State' (Status new) = State' (Status host) \<and> ClaimRef (Status new) = ClaimRef (Status host))"
proof -
  let ?h = "setReadyCondition E (w_Now E w) host"
  have a: "ready_agrees (Status ?h)" by (rule setReady_agrees [OF assms])
  have "State' (Status ?h) = State' (Status host)" "ClaimRef (Status ?h) = ClaimRef (Status host)"
    by (simp_all add: setReadyCondition_def)
  with a show ?thesis
    by (auto simp: patchStatus_def call_defs Let_def same_status_ready split: sum.split)
qed

theorem patchStatus_ready_witness:
  "sets_conditions dead_world \<and>
   (case run_state (patchStatus dead_world sample_host sample_host 0) [] of (r, w') \<Rightarrow>
     \<exists>t new a. w' = PatchHostStatus sample_host new a # Clock t # [] \<and> ready_agrees (Status new))"
proof -
  have E: "sets_conditions dead_world" by (simp add: sets_conditions_def dead_world_def condition_of_def)
  have "\<not> ready_agrees (Status sample_host)"
    by (simp add: ready_agrees_def condition_of_def sample_host_def sample_status_def)
  with patchStatus_ready [OF E, where orig = sample_host and host = sample_host and requeue = 0 and w = "[]"] E show ?thesis by auto
qed

end
