(* ===== verification/VerifiedExec.thy ===== *)
theory VerifiedExec
  imports Phases
begin

section \<open>Verified execution from end to end\<close>

text \<open>
  The chain from a profile to the shell that runs its script on a Verified host: the environment
  (Profile), the checks and the envelope (Phases, Envelope), the session (SshExec) and the shim on the
  machine (shim/kpssh-shim). \<open>shim_main\<close> completes the model of the shim: the trust root and its
  defaults, the escalation to root, the choice of a decoder, the interpreter variables it unsets and the
  exit status it ends with; \<^verbatim>\<open>mktemp\<close> is assumed to succeed. The machine is a parameter: its
  environment, \<^verbatim>\<open>sudo\<close>, \<^verbatim>\<open>base64\<close>, \<^verbatim>\<open>ssh-keygen -Y verify\<close>, the exit statuses of the tools of the probe, and
  what \<^verbatim>\<open>bash\<close> does with a script.

  The theorems: the environment that profiles build always has names that both sides accept; on the
  machine exactly the profile's script runs, with that environment on top of the inherited one; the exit status of a signed
  phase tells who failed, that of a probe need not; and a value with a newline, which cannot be sent, is
  blamed on the host.
\<close>

subsection \<open>The shim on its machine\<close>

type_synonym env = "(string \<times> string) list"

record shim_machine =
  m_Env :: env
  m_Uid :: nat
  m_Sudo :: "env \<Rightarrow> env option"
  m_SudoStatus :: nat
  m_Base64 :: "(string \<Rightarrow> string option) option"
  m_Keygen :: "string \<Rightarrow> string \<Rightarrow> string \<Rightarrow> string \<Rightarrow> string \<Rightarrow> bool"
  m_Readonly :: "string \<Rightarrow> bool"
  m_Bash :: "string \<Rightarrow> env \<Rightarrow> nat"
  m_Nproc :: nat
  m_Awk :: nat
  m_Uname :: nat

text \<open>\<^verbatim>\<open>${name:-default}\<close>\<close>

definition shell_default :: "env \<Rightarrow> string \<Rightarrow> string \<Rightarrow> string" where
  "shell_default env name def = (case map_of env name of None \<Rightarrow> def | Some v \<Rightarrow> if v = '''' then def else v)"

text \<open>The environment after the escalation, or \<open>None\<close> when \<^verbatim>\<open>exec sudo -n\<close> does not get to the shim; then its own status is
  that of the process.\<close>

definition escalated :: "shim_machine \<Rightarrow> env option" where
  "escalated M = (if shell_default (m_Env M) ''KPSSH_SHIM_SUDO'' ''1'' = ''1'' \<and> m_Uid M \<noteq> 0
     then m_Sudo M (m_Env M) else Some (m_Env M))"

definition interpreter_vars :: "string list" where
  "interpreter_vars = [''BASH_ENV'', ''ENV'', ''BASHOPTS'', ''SHELLOPTS'', ''PS4'', ''LD_PRELOAD'',
     ''LD_LIBRARY_PATH'', ''IFS'', ''GLOBIGNORE'']"

text \<open>The environment of the script: the exported parameters over the inherited variables, less what
  \<^verbatim>\<open>unset\<close> removes. A variable that is read-only in this shell stays. (The variables that a shell sets for
  itself, \<^verbatim>\<open>PWD\<close>, \<^verbatim>\<open>SHLVL\<close> and \<^verbatim>\<open>_\<close>, are not part of the model.)\<close>

definition script_env :: "shim_machine \<Rightarrow> env \<Rightarrow> env \<Rightarrow> env" where
  "script_env M env exports = filter (\<lambda>(k, v). k \<in> set interpreter_vars \<longrightarrow> m_Readonly M k)
     (fold (\<lambda>(k, v). AList.update k v) exports env)"

text \<open>Commands in sequence under \<^verbatim>\<open>set -e\<close>: the first one that fails ends the shell with its status.\<close>

fun set_e :: "nat list \<Rightarrow> nat" where
  "set_e [] = 0"
| "set_e (status # rest) = (if status \<noteq> 0 then status else set_e rest)"

record shim_result =
  r_Exit :: nat
  r_Ran :: "(string \<times> env) option"

definition keygen_verify :: "shim_machine \<Rightarrow> env \<Rightarrow> string \<Rightarrow> string \<Rightarrow> bool" where
  "keygen_verify M env sig script =
     m_Keygen M (shell_default env ''KPSSH_ALLOWED_SIGNERS'' ''/etc/kpssh/allowed_signers'')
       (shell_default env ''KPSSH_PRINCIPAL'' ''kpssh'') (shell_default env ''KPSSH_NAMESPACE'' ''kpssh'') sig script"

definition shim_main :: "shim_machine \<Rightarrow> string \<Rightarrow> shim_result" where
  "shim_main M stdin =
     (case escalated M of
        None \<Rightarrow> \<lparr>r_Exit = m_SudoStatus M, r_Ran = None\<rparr>
      | Some env \<Rightarrow>
          (case m_Base64 M of
             None \<Rightarrow> \<lparr>r_Exit = 1, r_Ran = None\<rparr>
           | Some b64d \<Rightarrow>
               (case shim b64d (keygen_verify M env) stdin of
                  ShimExit n \<Rightarrow> \<lparr>r_Exit = n, r_Ran = None\<rparr>
                | ShimProbe \<Rightarrow> \<lparr>r_Exit = set_e [m_Nproc M, m_Awk M, m_Uname M], r_Ran = None\<rparr>
                | ShimRun script exports \<Rightarrow>
                    (let e = script_env M env exports in
                     \<lparr>r_Exit = (if m_Bash M script e = 0 then 0 else 10), r_Ran = Some (script, e)\<rparr>))))"







text \<open>\<^bold>\<open>A failed probe can pass for a rejected signature.\<close> The header of the shim gives status 2 the meaning that a signature
  was rejected. The probe runs under \<^verbatim>\<open>set -e\<close>, so when \<^verbatim>\<open>awk\<close> cannot read its input, which it reports by status 2,
  the shim ends with 2 as well, although the probe involves no signature.\<close>

theorem probe_passes_for_rejection:
  assumes "escalated M = Some inherited" and "m_Base64 M = Some b64d" and "m_Nproc M = 0" and "m_Awk M = 2"
    and "shim b64d (keygen_verify M inherited) stdin = ShimProbe"
  shows "shim_main M stdin = \<lparr>r_Exit = 2, r_Ran = None\<rparr>"
  using assms by (simp add: shim_main_def)

subsection \<open>The names of a profile's environment\<close>

text \<open>What the API server admits: variable keys are shell identifiers (a rule of the SSHNodeClass CRD),
  Secret keys are made of \<^verbatim>\<open>[-._a-zA-Z0-9]\<close>.\<close>

definition secret_key :: "string \<Rightarrow> bool" where
  "secret_key k = (k \<noteq> '''' \<and> list_all (\<lambda>c. name_char c \<or> c = CHR ''-'' \<or> c = CHR ''.'') k)"

definition admitted :: "Context \<Rightarrow> bool" where
  "admitted c = (list_all (\<lambda>(k, v). envNameRE k) (Vars c) \<and> list_all (\<lambda>(k, v). secret_key k) (Secrets c))"

lemma name_char_upper: "name_char c \<Longrightarrow> name_char (upper_char c)"
  by (cases "of_char c \<in> {97..(122::nat)}") (auto simp: name_char_def upper_char_def Let_def)

lemma paramNameRE_prefix:
  "list_all name_char p \<Longrightarrow> list_all name_char rest \<Longrightarrow> p \<noteq> [] \<or> rest \<noteq> [] \<Longrightarrow> paramNameRE (''KPSSH_'' @ p @ rest)"
  by (simp add: paramNameRE_def CutPrefix_def)

lemma varEnvName_ok: "envNameRE k \<Longrightarrow> paramNameRE (varEnvName k)"
proof -
  assume "envNameRE k"
  then have "list_all name_char k" by (simp add: envNameRE_def split: list.splits)
  moreover have "list_all name_char ''VAR_''" by (simp add: name_char_def)
  ultimately show ?thesis using paramNameRE_prefix [of "''VAR_''" k] by (simp add: varEnvName_def)
qed

lemma secretEnvName_ok: "secret_key k \<Longrightarrow> paramNameRE (secretEnvName k)"
proof -
  have underscore: "name_char CHR ''_''" by (simp add: name_char_def)
  assume "secret_key k"
  then have "list_all name_char (ToUpper (map (\<lambda>c. if c = CHR ''-'' \<or> c = CHR ''.'' then CHR ''_'' else c) k))"
    by (auto simp: secret_key_def ToUpper_def list_all_iff underscore intro!: name_char_upper)
  then show ?thesis
    using paramNameRE_prefix [of "''SECRET_''"] by (simp add: secretEnvName_def name_char_def)
qed

lemma base_env_ok: "list_all paramNameRE (map fst (base_env c))"
  by (simp add: base_env_def paramNameRE_def CutPrefix_def name_char_def)

lemma set_vars_names:
  "list_all (\<lambda>(k, v). envNameRE k) vs \<Longrightarrow> list_all paramNameRE (map fst env) \<Longrightarrow> distinct (map fst env) \<Longrightarrow>
   list_all paramNameRE (map fst (set_vars vs env)) \<and> distinct (map fst (set_vars vs env))"
  by (induction vs env rule: set_vars.induct)
     (auto simp: list_all_iff update_keys distinct_update varEnvName_ok)

lemma set_secrets_names:
  "set_secrets S ks seen env = Inr env' \<Longrightarrow> list_all secret_key ks \<Longrightarrow> list_all paramNameRE (map fst env) \<Longrightarrow>
   distinct (map fst env) \<Longrightarrow> list_all paramNameRE (map fst env') \<and> distinct (map fst env')"
proof (induction S ks seen env rule: set_secrets.induct)
  case (2 secrets k ks seen env)
  let ?env = "AList.update (secretEnvName k) (secret_value secrets k) env"
  have "list_all paramNameRE (map fst ?env)" "distinct (map fst ?env)"
    using 2(3-5) by (auto simp: list_all_iff update_keys distinct_update secretEnvName_ok)
  with 2 show ?case by (auto simp: Let_def split: option.splits)
qed simp

lemma paramNameRE_envNameRE: "paramNameRE k \<Longrightarrow> envNameRE k"
proof -
  assume "paramNameRE k"
  then have "HasPrefix k ''KPSSH_''" "list_all name_char k" by (auto simp: paramNameRE_shim shim_name_ok_def list_all_iff list_ex_iff)
  then show ?thesis by (cases k) (auto simp: envNameRE_def)
qed

text \<open>C37. \<^bold>\<open>Every environment a profile gets is well formed.\<close> For variables and secrets that the API server
  admits, \<^verbatim>\<open>Env\<close> returns each name once, and every name is accepted by all three gates on its way: the
  export preamble of raw execution, the envelope of verified execution, and the shim.\<close>

theorem Env_well_formed:
  assumes "Env c = Inr env" and "admitted c"
  shows "distinct (map fst env) \<and> (\<forall>k \<in> fst ` set env. envNameRE k \<and> paramNameRE k \<and> shim_name_ok k)"
proof -
  let ?vars = "set_vars (Vars c) (base_env c)"
  have vars: "list_all paramNameRE (map fst ?vars)" "distinct (map fst ?vars)"
    using set_vars_names [of "Vars c" "base_env c"] assms(2) base_env_ok base_env_distinct by (auto simp: admitted_def)
  have "list_all secret_key (sort (map fst (Secrets c)))"
    using assms(2) by (auto simp: admitted_def list_all_iff)
  with assms(1) vars have "list_all paramNameRE (map fst env) \<and> distinct (map fst env)"
    unfolding Env_def by (rule_tac set_secrets_names) auto
  then show ?thesis using paramNameRE_envNameRE by (auto simp: list_all_iff paramNameRE_shim)
qed

theorem Env_well_formed_witness:
  "case Env sample_context of Inl e \<Rightarrow> False | Inr env \<Rightarrow> distinct (map fst env) \<and>
     ''KPSSH_SECRET_CODE_B'' \<in> fst ` set env \<and> paramNameRE ''KPSSH_SECRET_CODE_B''"
proof -
  have keys: "(case Env sample_context of Inl e \<Rightarrow> False | Inr env \<Rightarrow> ''KPSSH_SECRET_CODE_B'' \<in> set (map fst env))" by code_simp
  then obtain env where env: "Env sample_context = Inr env" by (auto split: sum.splits)
  have "admitted sample_context" by code_simp
  from Env_well_formed [OF env this] keys env show ?thesis by auto
qed

subsection \<open>What can be sent\<close>

definition sendable :: "env \<Rightarrow> bool" where
  "sendable env = list_all (\<lambda>(k, v). paramNameRE k \<and> CHR 0x0A \<notin> set v) env"

lemma param_block_iff:
  "(\<exists>pb. param_block ps ks = Inr pb) \<longleftrightarrow> (\<forall>k \<in> set ks. paramNameRE k \<and> CHR 0x0A \<notin> set (param_value ps k))"
  by (induction ps ks rule: param_block.induct) (auto split: sum.splits)

lemma param_value_in: "distinct (map fst ps) \<Longrightarrow> (k, v) \<in> set ps \<Longrightarrow> param_value ps k = v"
  by (simp add: param_value_def)

lemma Marshal_iff:
  assumes "Phase e \<in> set signedPhases" and "e_Script e \<noteq> ''''" and "Sig e \<noteq> ''''" and "distinct (map fst (Params e))"
  shows "(\<exists>wire. Marshal e = Inr wire) \<longleftrightarrow> sendable (Params e)"
proof -
  have "(\<exists>wire. Marshal e = Inr wire) \<longleftrightarrow> Params e = [] \<or> (\<exists>pb. param_block (Params e) (sort (map fst (Params e))) = Inr pb)"
    using assms(1-3) by (auto simp: Marshal_def validPhase_def Let_def split: sum.splits)
  also have "\<dots> \<longleftrightarrow> sendable (Params e)"
    unfolding param_block_iff sendable_def using param_value_in [OF assms(4)] by (auto simp: list_all_iff)
  finally show ?thesis .
qed

text \<open>The checks pass only for the phases that may be signed.\<close>

lemma verified_check_phase:
  assumes "verified_check E h prof phase = None"
  shows "phase \<in> set signedPhases" and "Script prof phase \<noteq> ''''" and "Signature prof phase \<noteq> ''''"
  using assms by (auto simp: verified_check_def Let_def Script_def signedPhases_def phase_defs split: if_splits)

definition phase_envelope :: "SSHJoinProfile \<Rightarrow> string \<Rightarrow> env \<Rightarrow> Envelope" where
  "phase_envelope prof phase env = \<lparr>Phase = phase, e_Script = Script prof phase, Sig = Signature prof phase, Params = env\<rparr>"

lemma runPhase_sends:
  assumes "spec_ExecMode (Spec h) = Verified"
  shows "run_state (runPhase E d t h prof phase pctx env) w =
    (case verified_check E h prof phase of
       Some e \<Rightarrow> (Some e, w)
     | None \<Rightarrow>
         (let t' = t\<lparr>ShimCommand := spec_ShimCommand (Spec h)\<rparr>; e = phase_envelope prof phase env; r = w_ExecShim E w d t' e in
          (error_of r, ExecShim d t' e r # w)))"
  using assms by (simp add: runPhase_def runVerifiedPhase_def phase_envelope_def call_defs Let_def split: option.splits)

lemma find_eq: "List.find (\<lambda>k. k = n) ks = (if n \<in> set ks then Some n else None)"
  by (induction ks) auto

lemma map_of_exported:
  assumes "distinct (map fst env)"
  shows "map_of (fold (\<lambda>(k, v). AList.update k v) (exported env) inherited) n =
    (case map_of env n of Some v \<Rightarrow> Some v | None \<Rightarrow> map_of inherited n)"
proof -
  let ?ks = "sort (map fst env)"
  have "fold (\<lambda>(k, v). AList.update k v) (exported env) = fold (\<lambda>k. AList.update k (param_value env k)) ?ks"
    by (simp add: exported_def fold_map comp_def)
  moreover have "distinct (map (\<lambda>k. k) ?ks)" using assms by simp
  moreover have "List.find (\<lambda>k. k = n) ?ks = (if map_of env n \<noteq> None then Some n else None)"
    using find_eq [of n ?ks] by (simp add: map_of_eq_None_iff)
  ultimately show ?thesis
    using map_of_fold_update [of "\<lambda>k. k" ?ks "param_value env" inherited n]
    by (cases "map_of env n") (simp_all add: param_value_def)
qed

subsection \<open>From the profile to the shell\<close>

lemma script_env_lookup:
  assumes "distinct (map fst env)" and "\<forall>k \<in> fst ` set env. paramNameRE k"
  shows "map_of (script_env M inherited (exported env)) n =
    (case map_of env n of
       Some v \<Rightarrow> Some v
     | None \<Rightarrow> if n \<in> set interpreter_vars \<and> \<not> m_Readonly M n then None else map_of inherited n)"
proof -
  have "n \<notin> set interpreter_vars" if "map_of env n = Some v" for v
  proof
    assume "n \<in> set interpreter_vars"
    moreover have "paramNameRE n" using assms(2) map_of_SomeD [OF that] by force
    ultimately show False by (auto simp: interpreter_vars_def paramNameRE_def CutPrefix_def)
  qed
  moreover have "map_of (filter (\<lambda>(k, v). P k) xs) n = (if P n then map_of xs n else None)" for P and xs :: env
    by (induction xs) auto
  ultimately show ?thesis
    by (auto simp: script_env_def map_of_exported [OF assms(1)] split: option.splits)
qed

text \<open>C4. \<^bold>\<open>What runs on a Verified host is the signed script with the phase's environment.\<close> Take a phase
  that passes the controller's checks, with an environment that can be sent, and a machine whose shim
  can start and whose decoder inverts base64. The controller makes one call, with the profile's own
  script and signature; the envelope is built; and on the machine the shim runs exactly the bytes of the
  profile's script if \<^verbatim>\<open>ssh-keygen\<close> accepts the signature over them, and nothing otherwise (exit
  status 2). The script sees every variable of the phase with its value; every other variable is inherited,
  except those that steer the interpreter.\<close>

theorem verified_phase_end_to_end:
  assumes mode: "spec_ExecMode (Spec h) = Verified" and checked: "verified_check E h prof phase = None"
    and env: "distinct (map fst env)" "sendable env" "no_nul env"
    and machine: "escalated M = Some inherited" "m_Base64 M = Some b64d" and decoder: "\<And>s. b64d (b64_encode s) = Some s"
  shows "\<exists>t' r wire. snd (run_state (runPhase E d t h prof phase pctx env) w) = [ExecShim d t' (phase_envelope prof phase env) r] @ w \<and>
    Marshal (phase_envelope prof phase env) = Inr wire \<and>
    (if keygen_verify M inherited (Signature prof phase) (Script prof phase)
     then \<exists>e. r_Ran (shim_main M wire) = Some (Script prof phase, e) \<and>
       r_Exit (shim_main M wire) = (if m_Bash M (Script prof phase) e = 0 then 0 else 10) \<and>
       (\<forall>n. map_of e n = (case map_of env n of
          Some v \<Rightarrow> Some v
        | None \<Rightarrow> if n \<in> set interpreter_vars \<and> \<not> m_Readonly M n then None else map_of inherited n))
     else shim_main M wire = \<lparr>r_Exit = 2, r_Ran = None\<rparr>)"
proof -
  let ?e = "phase_envelope prof phase env"
  have fields: "Phase ?e = phase" "e_Script ?e = Script prof phase" "Sig ?e = Signature prof phase" "Params ?e = env"
    by (simp_all add: phase_envelope_def)
  note ph = verified_check_phase [OF checked]
  have "\<exists>wire. Marshal ?e = Inr wire" using Marshal_iff [of ?e] ph env(1,2) by (simp add: fields)
  then obtain wire where wire: "Marshal ?e = Inr wire" by blast
  have "phase \<noteq> PhaseProbe" using ph(1) by (auto simp: signedPhases_def PhaseProbe_def)
  with shim_reads_envelope [OF wire _ decoder, of "keygen_verify M inherited"] env(3)
  have shim: "shim b64d (keygen_verify M inherited) wire =
      (if keygen_verify M inherited (Signature prof phase) (Script prof phase)
       then ShimRun (Script prof phase) (exported env) else ShimExit 2)"
    by (simp add: fields)
  have names: "\<forall>k \<in> fst ` set env. paramNameRE k" using env(2) by (auto simp: sendable_def list_all_iff)
  have sent: "\<exists>t' r. snd (run_state (runPhase E d t h prof phase pctx env) w) = [ExecShim d t' ?e r] @ w"
    by (simp add: runPhase_sends [OF mode] checked Let_def)
  show ?thesis
    using sent wire machine shim script_env_lookup [OF env(1) names]
    by (auto simp: shim_main_def Let_def)
qed

text \<open>A machine with a hostile variable in its environment, on which every script fails.\<close>

definition sample_machine :: shim_machine where
  "sample_machine = \<lparr>m_Env = [(''PATH'', ''/bin''), (''BASH_ENV'', ''/tmp/x'')], m_Uid = 0, m_Sudo = \<lambda>_. None, m_SudoStatus = 1,
     m_Base64 = Some b64_decode,
     m_Keygen = \<lambda>signers principal ns sig script. signers = ''/etc/kpssh/allowed_signers'' \<and> ns = ''kpssh'' \<and> sig \<noteq> '''',
     m_Readonly = \<lambda>_. False, m_Bash = \<lambda>_ _. 5, m_Nproc = 0, m_Awk = 2, m_Uname = 0\<rparr>"

lemma sample_escalated:
  "escalated sample_machine = Some [(''PATH'', ''/bin''), (''BASH_ENV'', ''/tmp/x'')]" "m_Base64 sample_machine = Some b64_decode"
  by (simp_all add: escalated_def sample_machine_def)


theorem probe_passes_for_rejection_witness:
  "shim_main sample_machine (header_line ''kpssh-envelope'' ''1'' @ header_line ''phase'' ''probe'') = \<lparr>r_Exit = 2, r_Ran = None\<rparr>"
proof -
  have "shim b64_decode (keygen_verify sample_machine [(''PATH'', ''/bin''), (''BASH_ENV'', ''/tmp/x'')])
      (header_line ''kpssh-envelope'' ''1'' @ header_line ''phase'' ''probe'') = ShimProbe" by code_simp
  from probe_passes_for_rejection [OF sample_escalated _ _ this] show ?thesis by (simp add: sample_machine_def)
qed

theorem verified_phase_end_to_end_witness:
  "\<exists>wire e. Marshal (phase_envelope signed_profile PhaseLeave [(''KPSSH_NODE_NAME'', ''n1'')]) = Inr wire \<and>
     r_Ran (shim_main sample_machine wire) = Some (''systemctl stop kubelet'', e) \<and>
     r_Exit (shim_main sample_machine wire) = 10 \<and>
     map_of e ''KPSSH_NODE_NAME'' = Some ''n1'' \<and> map_of e ''PATH'' = Some ''/bin'' \<and> map_of e ''BASH_ENV'' = None"
proof -
  let ?E = "ready_world verified_host signed_profile" and ?env = "[(''KPSSH_NODE_NAME'', ''n1'')]"
  have mode: "spec_ExecMode (Spec verified_host) = Verified" by (simp add: verified_host_def)
  have checked: "verified_check ?E verified_host signed_profile PhaseLeave = None" by code_simp
  have env: "distinct (map fst ?env)" "sendable ?env" "no_nul ?env" by (simp, code_simp, code_simp)
  note machine = sample_escalated
  have script: "Script signed_profile PhaseLeave = ''systemctl stop kubelet''" by code_simp
  have "keygen_verify sample_machine [(''PATH'', ''/bin''), (''BASH_ENV'', ''/tmp/x'')]
      (Signature signed_profile PhaseLeave) ''systemctl stop kubelet''" by code_simp
  with verified_phase_end_to_end [OF mode checked env machine b64_roundtrip, where d = 0 and w = "[]"
      and t = "SSHTarget verified_host \<lparr>cr_PrivateKey = ''pem'', cr_PinnedHostKey = ''''\<rparr>" and pctx = empty_context]
  obtain wire e where "Marshal (phase_envelope signed_profile PhaseLeave ?env) = Inr wire"
    and "r_Ran (shim_main sample_machine wire) = Some (''systemctl stop kubelet'', e)"
    and "r_Exit (shim_main sample_machine wire) = (if m_Bash sample_machine ''systemctl stop kubelet'' e = 0 then 0 else 10)"
    and look: "\<forall>n. map_of e n = (case map_of ?env n of Some v \<Rightarrow> Some v
        | None \<Rightarrow> if n \<in> set interpreter_vars \<and> \<not> m_Readonly sample_machine n then None
            else map_of [(''PATH'', ''/bin''), (''BASH_ENV'', ''/tmp/x'')] n)"
    unfolding script by (auto simp only: if_True)
  then show ?thesis by (intro exI [of _ wire] exI [of _ e]) (simp add: sample_machine_def interpreter_vars_def)
qed

subsection \<open>What cannot be sent\<close>

text \<open>The runner the providers are given: \<^verbatim>\<open>RunShim\<close> over a network.\<close>

definition shim_runner :: "pubkey ssh_lib \<Rightarrow> pubkey net \<Rightarrow> Target \<Rightarrow> Envelope \<Rightarrow> err + Result" where
  "shim_runner L N t e = (case fst (run_state (RunShim L N t e) []) of
       (res, Some x) \<Rightarrow> Inl x
     | (res, None) \<Rightarrow> Inr (case res of None \<Rightarrow> empty_result | Some r \<Rightarrow> r))"

text \<open>C38. \<^bold>\<open>A value with a newline is blamed on the host.\<close> When a variable or secret of a phase contains a
  newline, a Verified host is never contacted: the envelope cannot be built. The error that the phase
  returns is not a configuration error, the class of errors after which \<^verbatim>\<open>Create\<close> spares the host, although
  the fault is in the node class or its Secret.\<close>

theorem newline_blamed_on_host:
  assumes mode: "spec_ExecMode (Spec h) = Verified" and checked: "verified_check E h prof phase = None"
    and env: "distinct (map fst env)" "(k, v) \<in> set env" "CHR 0x0A \<in> set v"
    and runner: "\<And>w d t e. w_ExecShim E w d t e = shim_runner (w_Ssh E) N t e"
  shows "\<exists>e. run_state (RunShim (w_Ssh E) N t' (phase_envelope prof phase env)) [] = ((None, Some e), []) \<and>
    fst (run_state (runPhase E d t h prof phase pctx env) w) = Some e \<and> \<not> isConfigError e"
proof -
  let ?e = "phase_envelope prof phase env"
  have "\<not> sendable env" using env(2,3) by (auto simp: sendable_def list_all_iff)
  then have "\<not> (\<exists>wire. Marshal ?e = Inr wire)"
    using Marshal_iff [of ?e] verified_check_phase [OF checked] env(1) by (simp add: phase_envelope_def)
  then obtain x where x: "Marshal ?e = Inl x" by (cases "Marshal ?e") auto
  have plain: "\<not> isConfigError x"
  proof -
    have "param_block ps ks = Inl y \<Longrightarrow> \<not> isConfigError y" for ps ks y
      by (induction ps ks arbitrary: y rule: param_block.induct) (auto split: if_splits sum.splits)
    with x show ?thesis by (auto simp: Marshal_def Let_def split: if_splits sum.splits)
  qed
  have run: "run_state (RunShim (w_Ssh E) N t ?e) [] = ((None, Some (Wrapf ''building envelope: '' x)), [])" for t
    by (simp add: RunShim_def x)
  have "fst (run_state (runPhase E d t h prof phase pctx env) w) = Some (Wrapf ''building envelope: '' x)"
    by (simp add: runPhase_sends [OF mode] checked Let_def runner shim_runner_def run error_of_def)
  with run plain show ?thesis by simp
qed

theorem newline_blamed_on_host_witness:
  "let E = (ready_world verified_host signed_profile)\<lparr>w_ExecShim := \<lambda>w d t e. shim_runner plain_lib open_net t e\<rparr> in
   case fst (run_state (runPhase E 1 (SSHTarget verified_host \<lparr>cr_PrivateKey = ''pem'', cr_PinnedHostKey = ''''\<rparr>)
       verified_host signed_profile PhaseJoin empty_context [(''KPSSH_SECRET_CERT'', [CHR 0x0A])]) []) of
     None \<Rightarrow> False | Some e \<Rightarrow> \<not> isConfigError e"
proof -
  let ?E = "(ready_world verified_host signed_profile)\<lparr>w_ExecShim := \<lambda>w d t e. shim_runner plain_lib open_net t e\<rparr>"
  have ssh: "w_Ssh ?E = plain_lib" by (simp add: ready_world_def one_host_world_def dead_world_def)
  have mode: "spec_ExecMode (Spec verified_host) = Verified" by (simp add: verified_host_def)
  have checked: "verified_check ?E verified_host signed_profile PhaseJoin = None" by code_simp
  have runner: "w_ExecShim ?E w d t e = shim_runner (w_Ssh ?E) open_net t e" for w d t e by (simp add: ssh)
  obtain e where "fst (run_state (runPhase ?E 1 (SSHTarget verified_host \<lparr>cr_PrivateKey = ''pem'', cr_PinnedHostKey = ''''\<rparr>)
       verified_host signed_profile PhaseJoin empty_context [(''KPSSH_SECRET_CERT'', [CHR 0x0A])]) []) = Some e \<and> \<not> isConfigError e"
    using newline_blamed_on_host [OF mode checked _ _ _ runner, of "[(''KPSSH_SECRET_CERT'', [CHR 0x0A])]"
        "''KPSSH_SECRET_CERT''" "[CHR 0x0A]" pinned_target 1
        "SSHTarget verified_host \<lparr>cr_PrivateKey = ''pem'', cr_PinnedHostKey = ''''\<rparr>" empty_context "[]"] by auto
  then show ?thesis by (simp add: Let_def)
qed

end
