(* ===== verification/Session.thy ===== *)
theory Session
  imports SshExec
begin

section \<open>A session with its goroutines: runSession and lockedBuffer of internal/sshexec/sshexec.go\<close>

text \<open>
  \<^verbatim>\<open>runSession\<close> waits for two events at once: the end of the context, and the error that a second
  goroutine, which runs the remote command, sends over a channel with room for one value. Meanwhile the
  SSH library copies the remote output into two \<^verbatim>\<open>lockedBuffer\<close>s, which the caller reads in either case.
  SshExec treats all that as one call whose answer is the output and the way the session ended.
  This theory gives the program as written, a small-step relation over its threads, and shows that SshExec's
  \<open>runSession\<close> computes what every interleaving returns.

  \<open>lib\<close> is the SSH library: it says in which states \<^verbatim>\<open>session.Run\<close> of the SSH library may return, and with what; all that is used of it
  is \<open>waits_for_output\<close>, that it returns after both streams have been copied (a command that could not be started has
  none to copy). It also says in which states the deferred \<^verbatim>\<open>session.Close\<close>, whose error is dropped, returns.
\<close>

subsection \<open>State\<close>

datatype thread = Caller | Copier

record lockedBuffer =
  mu :: "thread option"
  b :: string

datatype stream = Out | Err

text \<open>The copying goroutine of a stream: waiting for data, in the three steps of a \<^verbatim>\<open>Write\<close>, or finished.\<close>

datatype copier_pc = Idle | WLock string | WAppend string | WUnlock | Eof

text \<open>The goroutine that runs the command.\<close>

datatype runner_pc = Running | Sending "err option" | Exited

text \<open>The caller: at the \<^verbatim>\<open>select\<close>, closing the client, in the three steps of a \<^verbatim>\<open>String\<close> on a stream, about to
  return, in the deferred \<^verbatim>\<open>session.Close\<close>, returned.\<close>

datatype caller_pc = Selecting | Closing err | RLock stream session_end | RString stream session_end
  | RUnlock stream session_end | Returning session_end | Deferred "Result \<times> err option" | Returned "Result \<times> err option"

record session =
  buf :: "stream \<Rightarrow> lockedBuffer"
  copier :: "stream \<Rightarrow> copier_pc"
  delivered :: "stream \<Rightarrow> string"
  runner :: runner_pc
  done_ch :: "err option option"
  ctx :: "err option"
  closed :: bool
  pc :: caller_pc
  res :: Result

definition start :: "Result \<Rightarrow> session" where
  "start r = \<lparr>buf = (\<lambda>_. \<lparr>mu = None, b = ''''\<rparr>), copier = (\<lambda>_. Idle), delivered = (\<lambda>_. ''''),
     runner = Running, done_ch = None, ctx = None, closed = False, pc = Selecting, res = r\<rparr>"

subsection \<open>Steps\<close>

definition set_buf :: "stream \<Rightarrow> (lockedBuffer \<Rightarrow> lockedBuffer) \<Rightarrow> session \<Rightarrow> session" where
  "set_buf st f s = s\<lparr>buf := (buf s)(st := f (buf s st))\<rparr>"

definition set_copier :: "stream \<Rightarrow> copier_pc \<Rightarrow> session \<Rightarrow> session" where
  "set_copier st c s = s\<lparr>copier := (copier s)(st := c)\<rparr>"

definition store :: "stream \<Rightarrow> string \<Rightarrow> Result \<Rightarrow> Result" where
  "store st text r = (case st of Out \<Rightarrow> r\<lparr>Stdout := text\<rparr> | Err \<Rightarrow> r\<lparr>Stderr := text\<rparr>)"

fun session_result :: "session_end \<Rightarrow> Result \<Rightarrow> Result \<times> err option" where
  "session_result (TimedOut e) r = (r, Some (Wrapf ''script timed out: '' e))"
| "session_result (Finished (Some e)) r = (r, Some (Wrapf (''script failed (stderr tail: '' @ tail (Stderr r) 800 @ ''): '') e))"
| "session_result (Finished None) r = (r, None)"

text \<open>The steps that wait for nothing outside the process: the caller's own, and those of a copier inside \<^verbatim>\<open>Write\<close>.\<close>

inductive local_step :: "session \<Rightarrow> session \<Rightarrow> bool" where
  write_lock: "copier s st = WLock p \<Longrightarrow> mu (buf s st) = None \<Longrightarrow>
    local_step s (set_copier st (WAppend p) (set_buf st (mu_update (\<lambda>_. Some Copier)) s))"
| write_append: "copier s st = WAppend p \<Longrightarrow> local_step s (set_copier st WUnlock (set_buf st (b_update (\<lambda>t. t @ p)) s))"
| write_unlock: "copier s st = WUnlock \<Longrightarrow> local_step s (set_copier st Idle (set_buf st (mu_update (\<lambda>_. None)) s))"
| select_ctx: "pc s = Selecting \<Longrightarrow> ctx s = Some e \<Longrightarrow> local_step s (s\<lparr>pc := Closing e\<rparr>)"
| select_done: "pc s = Selecting \<Longrightarrow> done_ch s = Some e \<Longrightarrow> local_step s (s\<lparr>done_ch := None, pc := RLock Out (Finished e)\<rparr>)"
| close_client: "pc s = Closing e \<Longrightarrow> local_step s (s\<lparr>closed := True, pc := RLock Out (TimedOut e)\<rparr>)"
| read_lock: "pc s = RLock st r \<Longrightarrow> mu (buf s st) = None \<Longrightarrow>
    local_step s ((set_buf st (mu_update (\<lambda>_. Some Caller)) s)\<lparr>pc := RString st r\<rparr>)"
| read_string: "pc s = RString st r \<Longrightarrow> local_step s (s\<lparr>res := store st (b (buf s st)) (res s), pc := RUnlock st r\<rparr>)"
| read_unlock: "pc s = RUnlock st r \<Longrightarrow>
    local_step s ((set_buf st (mu_update (\<lambda>_. None)) s)\<lparr>pc := (if st = Out then RLock Err r else Returning r)\<rparr>)"
| return_result: "pc s = Returning r \<Longrightarrow> local_step s (s\<lparr>pc := Deferred (session_result r (res s))\<rparr>)"

text \<open>The steps of the remote machine, of the library, of the other goroutine and of the context.\<close>

record session_lib =
  run_may_return :: "session \<Rightarrow> err option \<Rightarrow> bool"
  close_may_return :: "session \<Rightarrow> bool"

inductive outer_step :: "session_lib \<Rightarrow> session \<Rightarrow> session \<Rightarrow> bool" for lib where
  data: "copier s st = Idle \<Longrightarrow>
    outer_step lib s ((set_copier st (WLock p) s)\<lparr>delivered := (delivered s)(st := delivered s st @ p)\<rparr>)"
| eof: "copier s st = Idle \<Longrightarrow> outer_step lib s (set_copier st Eof s)"
| run_returns: "runner s = Running \<Longrightarrow> run_may_return lib s e \<Longrightarrow> outer_step lib s (s\<lparr>runner := Sending e\<rparr>)"
| send: "runner s = Sending e \<Longrightarrow> done_ch s = None \<Longrightarrow> outer_step lib s (s\<lparr>runner := Exited, done_ch := Some e\<rparr>)"
| expire: "ctx s = None \<Longrightarrow> outer_step lib s (s\<lparr>ctx := Some e\<rparr>)"
| close_session: "pc s = Deferred out \<Longrightarrow> close_may_return lib s \<Longrightarrow> outer_step lib s (s\<lparr>pc := Returned out\<rparr>)"

inductive reachable :: "session_lib \<Rightarrow> Result \<Rightarrow> session \<Rightarrow> bool" for lib r where
  init: "reachable lib r (start r)"
| local: "reachable lib r s \<Longrightarrow> local_step s t \<Longrightarrow> reachable lib r t"
| outer: "reachable lib r s \<Longrightarrow> outer_step lib s t \<Longrightarrow> reachable lib r t"

definition waits_for_output :: "session_lib \<Rightarrow> bool" where
  "waits_for_output lib \<longleftrightarrow> (\<forall>s e. run_may_return lib s e \<longrightarrow> (\<forall>st. copier s st = Eof))"


lemma set_simps [simp]:
  "buf (set_buf st f s) = (buf s)(st := f (buf s st))" "copier (set_buf st f s) = copier s"
  "delivered (set_buf st f s) = delivered s" "runner (set_buf st f s) = runner s" "done_ch (set_buf st f s) = done_ch s"
  "ctx (set_buf st f s) = ctx s" "closed (set_buf st f s) = closed s" "pc (set_buf st f s) = pc s" "res (set_buf st f s) = res s"
  "buf (set_copier st c s) = buf s" "copier (set_copier st c s) = (copier s)(st := c)"
  "delivered (set_copier st c s) = delivered s" "runner (set_copier st c s) = runner s" "done_ch (set_copier st c s) = done_ch s"
  "ctx (set_copier st c s) = ctx s" "closed (set_copier st c s) = closed s" "pc (set_copier st c s) = pc s" "res (set_copier st c s) = res s"
  by (simp_all add: set_buf_def set_copier_def)

subsection \<open>The locks\<close>

fun writing :: "copier_pc \<Rightarrow> bool" where
  "writing (WAppend p) = True"
| "writing WUnlock = True"
| "writing _ = False"

fun reading :: "stream \<Rightarrow> caller_pc \<Rightarrow> bool" where
  "reading st (RString st' r) = (st' = st)"
| "reading st (RUnlock st' r) = (st' = st)"
| "reading st _ = False"

text \<open>Who is inside a critical section holds the lock, and the lock has one owner.\<close>

definition locks_ok :: "session \<Rightarrow> bool" where
  "locks_ok s \<longleftrightarrow> (\<forall>st. \<not> (writing (copier s st) \<and> reading st (pc s)) \<and>
     mu (buf s st) = (if writing (copier s st) then Some Copier else if reading st (pc s) then Some Caller else None))"

lemma locks_okD:
  "locks_ok s \<Longrightarrow> mu (buf s st) = (if writing (copier s st) then Some Copier else if reading st (pc s) then Some Caller else None)"
  "locks_ok s \<Longrightarrow> writing (copier s st) \<Longrightarrow> \<not> reading st (pc s)"
  by (auto simp: locks_ok_def)

lemma locks_local: "local_step s t \<Longrightarrow> locks_ok s \<Longrightarrow> locks_ok t"
proof (induction rule: local_step.induct)
  case (write_lock s st p)
  then have "\<not> reading st (pc s)" using locks_okD(1) [of s st] by (auto split: if_splits)
  with write_lock show ?case by (auto simp: locks_ok_def)
next
  case (read_lock s st r)
  then have "\<not> writing (copier s st)" using locks_okD(1) [of s st] by (auto split: if_splits)
  with read_lock show ?case by (auto simp: locks_ok_def)
next
  case (read_unlock s st r)
  then have "\<not> writing (copier s st)" using locks_okD(2) [of s st] by auto
  with read_unlock show ?case by (auto simp: locks_ok_def)
next
  case (write_append s st p)
  then have "\<not> reading st (pc s)" using locks_okD(2) [of s st] by auto
  with write_append show ?case by (auto simp: locks_ok_def)
next
  case (write_unlock s st)
  then have "\<not> reading st (pc s)" using locks_okD(2) [of s st] by auto
  with write_unlock show ?case by (auto simp: locks_ok_def)
qed (auto simp: locks_ok_def)

lemma locks_outer: "outer_step lib s t \<Longrightarrow> locks_ok s \<Longrightarrow> locks_ok t"
  by (induction rule: outer_step.induct) (auto simp: locks_ok_def)

lemma reachable_locks: "reachable lib r s \<Longrightarrow> locks_ok s"
proof (induction rule: reachable.induct)
  case init
  then show ?case by (simp add: start_def locks_ok_def)
qed (blast intro: locks_local locks_outer)+

subsection \<open>What the caller reads\<close>

fun pending :: "copier_pc \<Rightarrow> string" where
  "pending (WLock p) = p"
| "pending (WAppend p) = p"
| "pending _ = ''''"

text \<open>What was read so far of a stream, for a caller on its way out.\<close>

fun ending :: "caller_pc \<Rightarrow> session_end option" where
  "ending (RLock st r) = Some r"
| "ending (RString st r) = Some r"
| "ending (RUnlock st r) = Some r"
| "ending (Returning r) = Some r"
| "ending _ = None"

fun has_read :: "stream \<Rightarrow> caller_pc \<Rightarrow> bool" where
  "has_read st (RLock st' r) \<longleftrightarrow> st = Out \<and> st' = Err"
| "has_read st (RString st' r) \<longleftrightarrow> st = Out \<and> st' = Err"
| "has_read st (RUnlock st' r) \<longleftrightarrow> st = Out \<or> st' = Err"
| "has_read st (Returning r) \<longleftrightarrow> True"
| "has_read st _ \<longleftrightarrow> False"

definition text_of :: "stream \<Rightarrow> Result \<Rightarrow> string" where
  "text_of st r = (case st of Out \<Rightarrow> Stdout r | Err \<Rightarrow> Stderr r)"

text \<open>The text that was read is what was delivered up to then; all of it if the command had ended.\<close>

definition faithful :: "session \<Rightarrow> session_end \<Rightarrow> stream \<Rightarrow> Result \<Rightarrow> bool" where
  "faithful s r st out \<longleftrightarrow> prefix (text_of st out) (delivered s st) \<and>
     (\<forall>e. r = Finished e \<longrightarrow> text_of st out = delivered s st)"

definition data_ok :: "session \<Rightarrow> bool" where
  "data_ok s \<longleftrightarrow> (\<forall>st. delivered s st = b (buf s st) @ pending (copier s st))"

definition run_ok :: "session \<Rightarrow> bool" where
  "run_ok s \<longleftrightarrow> (runner s \<noteq> Exited \<longrightarrow> done_ch s = None) \<and> (runner s \<noteq> Running \<longrightarrow> (\<forall>st. copier s st = Eof))"

definition ended :: "session \<Rightarrow> session_end \<Rightarrow> bool" where
  "ended s r \<longleftrightarrow> (case r of Finished e \<Rightarrow> runner s = Exited | TimedOut e \<Rightarrow> closed s \<and> ctx s = Some e)"

definition caller_ok :: "Result \<Rightarrow> session \<Rightarrow> bool" where
  "caller_ok r0 s \<longleftrightarrow> HostKeyFingerprint' (res s) = HostKeyFingerprint' r0 \<and>
     (\<forall>e. pc s = Closing e \<longrightarrow> ctx s = Some e) \<and>
     (\<forall>r. ending (pc s) = Some r \<longrightarrow> ended s r \<and> (\<forall>st. has_read st (pc s) \<longrightarrow> faithful s r st (res s))) \<and>
     (\<forall>out. pc s = Deferred out \<or> pc s = Returned out \<longrightarrow> (\<exists>r. out = session_result r (res s) \<and> ended s r \<and> (\<forall>st. faithful s r st (res s))))"

lemma caller_ended:
  "caller_ok r0 s \<Longrightarrow> pc s = Deferred out \<or> pc s = Returned out \<Longrightarrow>
   \<exists>r. out = session_result r (res s) \<and> ended s r \<and> (\<forall>st. faithful s r st (res s))"
  unfolding caller_ok_def by blast

lemma view_simps [simp]:
  "ended (s\<lparr>pc := p\<rparr>) r = ended s r" "ended (s\<lparr>res := q\<rparr>) r = ended s r" "ended (set_buf st f s) r = ended s r"
  "ended (set_copier st c s) r = ended s r" "ended (s\<lparr>done_ch := d\<rparr>) r = ended s r"
  "faithful (s\<lparr>pc := p\<rparr>) r st q = faithful s r st q" "faithful (s\<lparr>res := q'\<rparr>) r st q = faithful s r st q"
  "faithful (set_buf st' f s) r st q = faithful s r st q" "faithful (set_copier st' c s) r st q = faithful s r st q"
  "faithful (s\<lparr>done_ch := d\<rparr>) r st q = faithful s r st q" "faithful (s\<lparr>closed := z\<rparr>) r st q = faithful s r st q"
  by (auto simp: ended_def faithful_def split: session_end.splits)

lemma data_local: "local_step s t \<Longrightarrow> data_ok s \<Longrightarrow> data_ok t"
  by (induction rule: local_step.induct) (auto simp: data_ok_def)

lemma data_outer: "outer_step lib s t \<Longrightarrow> data_ok s \<Longrightarrow> data_ok t"
  by (induction rule: outer_step.induct) (auto simp: data_ok_def)

lemma run_local: "local_step s t \<Longrightarrow> run_ok s \<Longrightarrow> run_ok t"
  by (induction rule: local_step.induct) (auto simp: run_ok_def)

lemma run_outer: "outer_step lib s t \<Longrightarrow> waits_for_output lib \<Longrightarrow> run_ok s \<Longrightarrow> run_ok t"
  by (induction rule: outer_step.induct) (auto simp: run_ok_def waits_for_output_def)

text \<open>A step that keeps what the caller has read, how the session ended and what was delivered.\<close>

lemma faithful_step:
  "faithful s r st out \<Longrightarrow> prefix (delivered s st) (delivered t st) \<Longrightarrow>
   (\<And>e. r = Finished e \<Longrightarrow> delivered t st = delivered s st) \<Longrightarrow> faithful t r st out"
  by (auto simp: faithful_def intro: prefix_order.trans)

lemma caller_ok_step:
  assumes ok: "caller_ok r0 s" and same: "pc t = pc s" "res t = res s"
    and keep: "\<And>r. ended s r \<Longrightarrow> ended t r" "\<And>e. ctx s = Some e \<Longrightarrow> ctx t = Some e"
    and data: "\<And>st. prefix (delivered s st) (delivered t st)"
      "\<And>st e. ended s (Finished e) \<Longrightarrow> delivered t st = delivered s st"
  shows "caller_ok r0 t"
proof -
  have "faithful t r st out" if "faithful s r st out" "ended s r" for r st out
    using that(1) data(1) by (rule faithful_step) (use that(2) data(2) in auto)
  with ok keep show ?thesis unfolding caller_ok_def same by blast
qed

lemma caller_outer:
  assumes "outer_step lib s t" and "run_ok s" and "caller_ok r0 s"
  shows "caller_ok r0 t"
proof (cases "\<exists>out. pc s = Deferred out \<and> t = s\<lparr>pc := Returned out\<rparr>")
  case True
  then show ?thesis using assms(3) by (auto simp: caller_ok_def)
next
  case False
  have same: "pc t = pc s" "res t = res s" using assms(1) False by (cases; auto)+
  show ?thesis
    using assms(3) same
  proof (rule caller_ok_step)
    show "ended t r" if "ended s r" for r
      using assms(1) that by cases (auto simp: ended_def split: session_end.splits)
    show "ctx t = Some e" if "ctx s = Some e" for e using assms(1) that by cases auto
    show "prefix (delivered s st) (delivered t st)" for st using assms(1) by cases auto
    show "delivered t st = delivered s st" if "ended s (Finished e)" for st e
      using assms(1,2) that by cases (auto simp: ended_def run_ok_def)
  qed
qed

lemma caller_local:
  assumes "local_step s t" and "data_ok s" and "run_ok s" and "caller_ok r0 s"
  shows "caller_ok r0 t"
  using assms(1)
proof cases
  case (read_string st r)
  have stored_text: "text_of st (store st x q) = x" "st' \<noteq> st \<Longrightarrow> text_of st' (store st x q) = text_of st' q"
    "HostKeyFingerprint' (store st x q) = HostKeyFingerprint' q" for x q st'
    by (cases st; cases st'; simp add: text_of_def store_def)+
  have "ended s r" and read: "has_read st' (pc s) \<Longrightarrow> faithful s r st' (res s)" for st'
    using assms(4) read_string(2) by (auto simp: caller_ok_def)
  have now: "faithful s r st (store st (b (buf s st)) (res s))"
    using assms(2,3) \<open>ended s r\<close> by (auto simp: faithful_def stored_text data_ok_def run_ok_def ended_def)
  have "faithful s r st' (store st (b (buf s st)) (res s))" if "has_read st' (RUnlock st r)" for st'
  proof (cases "st' = st")
    case False
    with that have "has_read st' (pc s)" using read_string(2) by (cases st; cases st') auto
    with read [OF this] False show ?thesis by (simp add: faithful_def stored_text)
  qed (use now in simp)
  then show ?thesis
    using assms(4) \<open>ended s r\<close> unfolding read_string(1) by (auto simp: caller_ok_def stored_text)
next
  case (select_done e)
  then show ?thesis using assms(3,4) by (auto simp: caller_ok_def run_ok_def ended_def)
next
  case (close_client e)
  then show ?thesis using assms(4) by (auto simp: caller_ok_def ended_def)
next
  case (read_unlock st r)
  then show ?thesis using assms(4) by (cases st) (auto simp: caller_ok_def)
qed (use assms(4) in \<open>auto simp: caller_ok_def\<close>)

lemma reachable_ok:
  assumes "reachable lib r s" and "waits_for_output lib"
  shows "data_ok s \<and> run_ok s \<and> caller_ok r s"
  using assms(1)
proof (induction rule: reachable.induct)
  case init
  show ?case by (simp add: start_def data_ok_def run_ok_def caller_ok_def)
next
  case (local s t)
  then show ?case using data_local run_local caller_local by blast
next
  case (outer s t)
  then show ?case using data_outer run_outer [OF _ assms(2)] caller_outer by blast
qed

subsection \<open>Every interleaving returns what runSession computes\<close>

lemma runSession_answer:
  assumes "net_NewSession N w = None" and "net_Session N (OpenedSession None # w) cmd stdin = (out, errout, r)"
  shows "fst (run_state (runSession N cmd stdin res0) w) =
    (case session_result r (res0\<lparr>Stdout := out, Stderr := errout\<rparr>) of (q, e) \<Rightarrow> (Some q, e))"
  using assms by (cases "(r, res0)" rule: session_result.cases) (auto simp: runSession_def Let_def)

lemma result_eq: "res1 = res0\<lparr>Stdout := Stdout res1, Stderr := Stderr res1\<rparr>"
  if "HostKeyFingerprint' res1 = HostKeyFingerprint' res0" for res0 res1 :: Result
  using that by simp

text \<open>C31. \<^bold>\<open>Whatever the goroutines do, a session returns what the sequential program returns.\<close> In every interleaving
  of the caller, the goroutine that runs the command, the copying of the output and the end of the
  context, a result that the caller returns is the one that \<open>runSession\<close> computes from the text
  that was read and from how the session ended. Of either stream, the text that was read is a beginning of what the
  machine sent, and all of it if the command had ended; if the context ended the session, the
  connection was closed.\<close>

theorem session_interleavings:
  assumes "reachable lib res0 s" and "waits_for_output lib" and "pc s = Returned (out, e)"
  shows "\<exists>r. prefix (Stdout out) (delivered s Out) \<and> prefix (Stderr out) (delivered s Err) \<and>
    (case r of Finished _ \<Rightarrow> Stdout out = delivered s Out \<and> Stderr out = delivered s Err
             | TimedOut x \<Rightarrow> closed s \<and> ctx s = Some x) \<and>
    (\<forall>N cmd stdin w. net_NewSession N w = None \<and>
       net_Session N (OpenedSession None # w) cmd stdin = (Stdout out, Stderr out, r) \<longrightarrow>
       fst (run_state (runSession N cmd stdin res0) w) = (Some out, e))"
proof -
  from reachable_ok [OF assms(1,2)] assms(3) obtain r where ok: "(out, e) = session_result r (res s)" "ended s r"
    "\<And>st. faithful s r st (res s)" "HostKeyFingerprint' (res s) = HostKeyFingerprint' res0"
    by (auto simp: caller_ok_def)
  have out: "out = res s" using ok(1) by (cases "(r, res s)" rule: session_result.cases) auto
  have eq: "res s = res0\<lparr>Stdout := Stdout out, Stderr := Stderr out\<rparr>" using result_eq [OF ok(4)] out by simp
  have read: "prefix (Stdout out) (delivered s Out)" "prefix (Stderr out) (delivered s Err)"
    "\<And>x. r = Finished x \<Longrightarrow> Stdout out = delivered s Out \<and> Stderr out = delivered s Err"
    using ok(3) [of Out] ok(3) [of Err] out by (auto simp: faithful_def text_of_def)
  show ?thesis
    using read ok(1,2) eq by (intro exI [of _ r]) (auto simp: ended_def runSession_answer split: session_end.splits prod.splits)
qed

subsection \<open>The caller always gets away\<close>

text \<open>The steps that a thread has still to take on its own: the caller until its deferred call, a copier until its \<^verbatim>\<open>Write\<close>
  is over. Every local step takes one of them; of the other steps, only the arrival of data adds to them.\<close>

fun caller_rank :: "caller_pc \<Rightarrow> nat" where
  "caller_rank Selecting = 9"
| "caller_rank (Closing e) = 8"
| "caller_rank (RLock st r) = (if st = Out then 7 else 4)"
| "caller_rank (RString st r) = (if st = Out then 6 else 3)"
| "caller_rank (RUnlock st r) = (if st = Out then 5 else 2)"
| "caller_rank (Returning r) = 1"
| "caller_rank (Deferred out) = 0"
| "caller_rank (Returned out) = 0"

fun copier_rank :: "copier_pc \<Rightarrow> nat" where
  "copier_rank (WLock p) = 3"
| "copier_rank (WAppend p) = 2"
| "copier_rank WUnlock = 1"
| "copier_rank _ = 0"

definition rank :: "session \<Rightarrow> nat" where
  "rank s = caller_rank (pc s) + copier_rank (copier s Out) + copier_rank (copier s Err)"


lemma rank_local: "local_step s t \<Longrightarrow> rank t < rank s"
proof (induction rule: local_step.induct)
  case (write_lock s st p)
  then show ?case by (cases st) (simp_all add: rank_def)
next
  case (write_append s st p)
  then show ?case by (cases st) (simp_all add: rank_def)
next
  case (write_unlock s st)
  then show ?case by (cases st) (simp_all add: rank_def)
qed (simp_all add: rank_def)


text \<open>A run with \<open>n\<close> local and \<open>m\<close> other steps, in any order.\<close>

inductive run :: "session_lib \<Rightarrow> nat \<Rightarrow> nat \<Rightarrow> session \<Rightarrow> session \<Rightarrow> bool" for lib where
  none: "run lib 0 0 s s"
| own: "run lib n m s t \<Longrightarrow> local_step t u \<Longrightarrow> run lib (Suc n) m s u"
| other: "run lib n m s t \<Longrightarrow> outer_step lib t u \<Longrightarrow> run lib n (Suc m) s u"


lemma run_reachable: "run lib n m s t \<Longrightarrow> reachable lib r s \<Longrightarrow> reachable lib r t"
  by (induction rule: run.induct) (auto intro: reachable.intros)

text \<open>The session is over: what the \<^verbatim>\<open>select\<close> waits for has happened.\<close>

definition over :: "session \<Rightarrow> bool" where
  "over s \<longleftrightarrow> ctx s \<noteq> None \<or> done_ch s \<noteq> None \<or> pc s \<noteq> Selecting"

lemma over_local: "local_step s t \<Longrightarrow> over s \<Longrightarrow> over t"
  by (induction rule: local_step.induct) (auto simp: over_def)



definition away :: "session \<Rightarrow> bool" where
  "away s \<longleftrightarrow> (\<exists>out. pc s = Deferred out \<or> pc s = Returned out)"

text \<open>A caller that waits for a lock waits for a copier inside \<^verbatim>\<open>Write\<close>, which can go on.\<close>

lemma not_stuck:
  assumes "locks_ok s" and "over s" and "\<not> away s"
  shows "\<exists>t. local_step s t"
proof (cases "pc s")
  case Selecting
  with assms(2) show ?thesis unfolding over_def using select_ctx select_done by fast
next
  case (RLock st r)
  show ?thesis
  proof (cases "writing (copier s st)")
    case True
    then consider p where "copier s st = WAppend p" | "copier s st = WUnlock" by (cases "copier s st") auto
    then show ?thesis using write_append write_unlock by cases blast+
  next
    case False
    with RLock locks_okD(1) [OF assms(1), of st] have "mu (buf s st) = None" by simp
    with RLock show ?thesis using read_lock by blast
  qed
next
  case (Closing e)
  then show ?thesis using close_client by blast
next
  case (RString st r)
  then show ?thesis using read_string by blast
next
  case (RUnlock st r)
  then show ?thesis using read_unlock by blast
next
  case (Returning r)
  then show ?thesis using return_result by blast
qed (use assms(3) in \<open>auto simp: away_def\<close>)


text \<open>In particular there is a run that gets the caller away by local steps alone.\<close>

lemma gets_away:
  assumes "locks_ok s" and "over s"
  shows "\<exists>t n. run lib n 0 s t \<and> away t"
proof -
  have "\<exists>u n'. run lib n' 0 s u \<and> away u" if "run lib n 0 s t" "locks_ok t" "over t" for t n
    using that
  proof (induction "rank t" arbitrary: t n rule: less_induct)
    case less
    show ?case
    proof (cases "away t")
      case True
      with less.prems(1) show ?thesis by blast
    next
      case False
      with not_stuck less.prems(2,3) obtain u where u: "local_step t u" by blast
      from less.hyps [OF rank_local [OF u] run.own [OF less.prems(1) u] locks_local [OF u less.prems(2)] over_local [OF u less.prems(3)]]
      show ?thesis .
    qed
  qed
  from this [OF run.none assms] show ?thesis by blast
qed

subsection \<open>A command that hangs\<close>

text \<open>The machine has sent some output, the copier is in the middle of its \<^verbatim>\<open>Write\<close>, and the context ends.\<close>

definition full_copy :: session_lib where
  "full_copy = \<lparr>run_may_return = \<lambda>s e. copier s Out = Eof \<and> copier s Err = Eof, close_may_return = closed\<rparr>"

lemma full_copy_waits: "waits_for_output full_copy"
  unfolding waits_for_output_def full_copy_def session_lib.select_convs by (metis stream.exhaust)


lemma hanging_reachable:
  "\<exists>s. reachable full_copy empty_result s \<and> ctx s = Some (Errorf ''context deadline exceeded'') \<and> runner s = Running \<and>
     copier s Out = WAppend ''ok'' \<and> delivered s Out = ''ok''"
proof -
  let ?s1 = "(set_copier Out (WLock ''ok'') (start empty_result))\<lparr>delivered := (delivered (start empty_result))(Out := delivered (start empty_result) Out @ ''ok'')\<rparr>"
  let ?s2 = "set_copier Out (WAppend ''ok'') (set_buf Out (mu_update (\<lambda>_. Some Copier)) ?s1)"
  let ?s3 = "?s2\<lparr>ctx := Some (Errorf ''context deadline exceeded'')\<rparr>"
  have "reachable full_copy empty_result ?s1" by (rule reachable.outer [OF reachable.init], rule data) (simp add: start_def)
  then have "reachable full_copy empty_result ?s2" by (rule reachable.local, intro write_lock) (simp_all add: start_def)
  then have "reachable full_copy empty_result ?s3" by (rule reachable.outer, intro expire) (simp add: start_def)
  then show ?thesis by (intro exI [of _ ?s3]) (simp add: start_def)
qed

text \<open>The caller gets away and returns; the command's goroutine still runs.\<close>

lemma run_runner: "run lib n 0 s t \<Longrightarrow> runner t = runner s"
  by (induction n "0::nat" s t rule: run.induct) (auto elim: local_step.cases)


theorem session_interleavings_witness:
  "\<exists>s out e. reachable full_copy empty_result s \<and> pc s = Returned (out, e) \<and> prefix (Stdout out) (delivered s Out)"
proof -
  obtain s where s: "reachable full_copy empty_result s" "ctx s = Some (Errorf ''context deadline exceeded'')" "runner s = Running"
    using hanging_reachable by blast
  then have "over s" by (simp add: over_def)
  from gets_away [OF reachable_locks [OF s(1)] this] obtain t n where t: "run full_copy n 0 s t" "away t" by blast
  have reach: "reachable full_copy empty_result t" by (rule run_reachable [OF t(1) s(1)])
  have "\<exists>u out. reachable full_copy empty_result u \<and> pc u = Returned out"
  proof (cases "\<exists>out. pc t = Returned out")
    case False
    with t(2) obtain out where out: "pc t = Deferred out" by (auto simp: away_def)
    obtain r where "ended t r" using reachable_ok [OF reach full_copy_waits] out caller_ended by blast
    with run_runner [OF t(1)] s(3) have "closed t" by (auto simp: ended_def split: session_end.splits)
    with out have "outer_step full_copy t (t\<lparr>pc := Returned out\<rparr>)" by (intro close_session) (simp_all add: full_copy_def)
    from reachable.outer [OF reach this] show ?thesis by auto
  qed (use reach in blast)
  then obtain u out e where "reachable full_copy empty_result u" "pc u = Returned (out, e)" by auto
  with session_interleavings [OF _ full_copy_waits] show ?thesis by blast
qed

end
