(* ===== verification/Progress.thy ===== *)
theory Progress
  imports ProbeFacts Lifecycle
begin

section \<open>Progress: nothing fails without a cause\<close>

text \<open>
  The safety theorems hold for every behaviour of the outside, also for one that refuses everything. This
  theory shows the other half: when the answers do not stand in the way, a launch ends with a node and a
  healthy machine becomes Available. The judgement is \<open>rg\<close> with the favourable answers as its rely:
  if every answer is favourable, the result is a success. Read the other way round, every failure
  can be traced to an answer that caused it.

  \<open>launch_progress\<close> is the interface for launches: what the pool, the tokens, the phases and the
  adoption deliver under favourable answers. \<open>Create\<close> is shown once over this interface; the
  providers of the program interpret it.
\<close>

abbreviation succeeds :: "('e \<Rightarrow> bool) \<Rightarrow> ('e, 'a) prog \<Rightarrow> ('a \<Rightarrow> bool) \<Rightarrow> bool" where
  "succeeds \<rho> m Q \<equiv> rg \<rho> (\<lambda>_. True) m Q"

lemma succeeds_any: "grows m \<Longrightarrow> succeeds \<rho> m (\<lambda>_. True)"
  by (erule guar_weaken) simp_all

text \<open>Sequences that stop at an error.\<close>

lemma succeeds_bind_Inr:
  assumes "succeeds \<rho> m (\<lambda>r. \<exists>x. r = Inr x \<and> Q x)" and "\<And>x. Q x \<Longrightarrow> succeeds \<rho> (g x) R"
    and "\<And>e. grows (f e)" and "\<And>x. grows (g x)"
  shows "succeeds \<rho> (State_Monad.bind m (\<lambda>r. case r of Inl e \<Rightarrow> f e | Inr x \<Rightarrow> g x)) R"
  by (rule rg_bind [OF assms(1)]) (use assms(2-4) in \<open>auto split: sum.splits\<close>)

lemma succeeds_bind_None:
  assumes "succeeds \<rho> m (\<lambda>r. fst r = None \<and> Q (snd r))" and "\<And>s. Q s \<Longrightarrow> succeeds \<rho> (f s) R"
    and "\<And>e s. grows (g e s)" and "\<And>s. grows (f s)"
  shows "succeeds \<rho> (State_Monad.bind m (\<lambda>(e, s). case e of None \<Rightarrow> f s | Some x \<Rightarrow> g x s)) R"
  by (rule rg_bind [OF assms(1)]) (use assms(2-4) in \<open>auto split: option.splits\<close>)

subsection \<open>Launches over any provider\<close>

locale launch_progress =
  fixes P :: host_provider and B :: bootstrap_provider and E :: world and \<rho> :: "event \<Rightarrow> bool"
    and usable :: "SSHHost \<Rightarrow> bool" and valid_selector :: "LabelSelector option \<Rightarrow> bool"
    and nodeClass :: SSHNodeClass and cls :: string
  assumes ByClaim_ok: "succeeds \<rho> (hp_ByClaim P nc) (\<lambda>r. \<exists>found. r = Inr found \<and> (\<forall>h. found = Some h \<longrightarrow> usable h))"
    and Available_ok: "valid_selector sel \<Longrightarrow> succeeds \<rho> (hp_Available P sel c)
      (\<lambda>r. \<exists>cs. r = Inr cs \<and> (\<forall>h \<in> set cs. usable h) \<and> (c = cls \<longrightarrow> cs \<noteq> []))"
    and Claim_ok: "usable h \<Longrightarrow> succeeds \<rho> (hp_Claim P h nc) (\<lambda>r. fst r = Inr True \<and> usable (snd r))"
    and SetProviderID_ok: "succeeds \<rho> (hp_SetProviderID P h pid) (\<lambda>r. fst r = None)"
    and join_ok: "usable h \<Longrightarrow> succeeds \<rho> (join P B E nodeClass nc h) (\<lambda>r. fst r = None)"
    and adopt_ok: "succeeds \<rho> (adoptProviderID E h) (\<lambda>r. \<exists>p. r = Inr p)"
    and pool_grows: "grows (hp_Claim P h nc)" "grows (hp_Available P sel c)" "grows (hp_MarkInUse P h)"
      "grows (hp_SetProviderID P h pid)" "grows (release P B h healthy reason)" "grows (join P B E nodeClass nc h)"
begin

lemma claim_grows:
  "grows (claim_first P nc cs)" "grows (claim_types P nodeClass nc its)" "grows (finish_create P nc h pid)"
proof -
  show f: "grows (claim_first P nc cs)" for cs by (induction cs) (auto intro!: guar_rules pool_grows)
  show "grows (claim_types P nodeClass nc its)" by (induction its) (auto intro!: guar_rules pool_grows f)
  show "grows (finish_create P nc h pid)" unfolding finish_create_def by (auto intro!: guar_rules pool_grows)
qed

lemma claim_first_ok:
  "\<forall>h \<in> set cs. usable h \<Longrightarrow>
   succeeds \<rho> (claim_first P nc cs) (\<lambda>r. \<exists>found. r = Inr found \<and> (cs \<noteq> [] \<longrightarrow> found \<noteq> None) \<and> (\<forall>h. found = Some h \<longrightarrow> usable h))"
proof (cases cs)
  case (Cons c cs')
  assume "\<forall>h \<in> set cs. usable h"
  with Cons have "usable c" by simp
  then show ?thesis
    unfolding Cons claim_first.simps by (intro rg_bind [OF Claim_ok]) (auto intro!: guar_rules claim_grows)
qed (simp add: guar_return)

lemma claim_types_ok:
  assumes "valid_selector (HostSelector (ncl_Spec nodeClass))" and "cls \<in> it_Name ` set its"
  shows "succeeds \<rho> (claim_types P nodeClass nc its) (\<lambda>r. \<exists>h. r = Inr (Some h) \<and> usable h)"
  using assms(2)
proof (induction its)
  case (Cons it its)
  have rest: "succeeds \<rho> (do { r \<leftarrow> claim_first P nc cs; case r of Inl e \<Rightarrow> ret (Inl e) | Inr (Some h) \<Rightarrow> ret (Inr (Some h))
      | Inr None \<Rightarrow> claim_types P nodeClass nc its }) (\<lambda>r. \<exists>h. r = Inr (Some h) \<and> usable h)"
    if "\<forall>h \<in> set cs. usable h" "it_Name it = cls \<longrightarrow> cs \<noteq> []" for cs
    using that Cons
    by (intro rg_bind [OF claim_first_ok [OF that(1)]]) (auto intro!: guar_rules claim_grows split: option.splits sum.splits)
  show ?case
    unfolding claim_types.simps
    by (rule rg_bind [OF Available_ok [OF assms(1)]])
       (use rest in \<open>auto intro!: guar_rules claim_grows split: sum.splits option.splits\<close>)
qed simp

lemma acquire_ok:
  assumes "valid_selector (HostSelector (ncl_Spec nodeClass))" and "cls \<in> it_Name ` set its"
  shows "succeeds \<rho> (acquire P nodeClass nc its) (\<lambda>r. \<exists>h. r = Inr (Some h) \<and> usable h)"
proof -
  have "cls \<in> it_Name ` set (sortByPrice its)" using assms(2) by (simp add: sortByPrice_def)
  from claim_types_ok [OF assms(1) this] show ?thesis
    unfolding acquire_def
    by (intro rg_bind [OF ByClaim_ok]) (auto intro!: guar_rules claim_grows split: option.splits sum.splits)
qed

lemma finish_create_ok: "succeeds \<rho> (finish_create P nc h pid) (\<lambda>r. \<exists>i. r = Inr i \<and> i_NodeName i = nc_Name nc)"
  unfolding finish_create_def
  by (rule rg_bind [OF SetProviderID_ok]) (auto intro!: guar_rules pool_grows succeeds_any [OF pool_grows(3)] simp: toInstance_def)

lemma Create_ok:
  assumes "valid_selector (HostSelector (ncl_Spec nodeClass))" and "cls \<in> it_Name ` set its"
  shows "succeeds \<rho> (Create P B E nodeClass nc its) (\<lambda>r. \<exists>i. r = Inr i \<and> i_NodeName i = nc_Name nc)"
proof -
  have adopt: "succeeds \<rho> (do { p \<leftarrow> adoptProviderID E h;
      case p of Inl e \<Rightarrow> do { release P B h False (''providerID adoption failed: '' @ Error e);
            ret (Inl (CreateError e ''AdoptFailed'' ''node did not appear for providerID adoption'')) }
        | Inr adopted \<Rightarrow> finish_create P nc h adopted }) (\<lambda>r. \<exists>i. r = Inr i \<and> i_NodeName i = nc_Name nc)" for h
    by (rule rg_bind [OF adopt_ok]) (auto intro!: guar_rules finish_create_ok pool_grows claim_grows split: sum.splits)
  have "grows (adoptProviderID E h)" for h using adopt_ok by (rule rg_grows)
  then show ?thesis
    unfolding Create_def
    by (intro rg_bind [OF acquire_ok [OF assms]])
       (auto intro!: guar_steps rg_bind [OF join_ok] adopt finish_create_ok grows_bind pool_grows claim_grows
          split: option.splits sum.splits)
qed

end

subsection \<open>Answers that do not stand in the way\<close>

text \<open>A host the profile can be run on: its key Secret is not the join Secret, and the scripts of the
  profile render, or pass the checks of verified execution.\<close>

definition launchable :: "world \<Rightarrow> SSHNodeClass \<Rightarrow> SSHJoinProfile \<Rightarrow> SSHHost \<Rightarrow> bool" where
  "launchable E nodeClass prof h \<longleftrightarrow> Some (SSHKeySecretRef (Spec h)) \<noteq> JoinSecretRef (ncl_Spec nodeClass) \<and>
     (\<forall>phase \<in> {PhaseInstall, PhaseJoin}.
        if spec_ExecMode (Spec h) = Verified then verified_check E h prof phase = None
        else \<forall>ctx. \<exists>script. Render (w_Templates E) prof phase ctx = Inr script)"

lemma launchable_Spec:
  assumes "Spec h = Spec h'"
  shows "launchable E nodeClass prof h \<longleftrightarrow> launchable E nodeClass prof h'"
proof -
  have "verified_check E h prof phase = None \<longleftrightarrow> verified_check E h' prof phase = None" for phase
    using assms by (auto simp: verified_check_def Let_def split: sum.splits option.splits)
  then show ?thesis using assms by (simp add: launchable_def)
qed

definition credentials_ok :: "world \<Rightarrow> secret_data \<Rightarrow> bool" where
  "credentials_ok E data \<longleftrightarrow> map_of data SSHKeySecretKey \<noteq> None \<and>
     (\<forall>kh. map_of data KnownHostSecretKey = Some kh \<longrightarrow> (\<exists>fp. PinnedFingerprintFromKnownHost (w_Ssh E) kh = Inr fp))"

text \<open>Reads succeed and show what is needed, writes are accepted, scripts run.\<close>

fun favourable :: "world \<Rightarrow> SSHNodeClass \<Rightarrow> SSHJoinProfile \<Rightarrow> string \<Rightarrow> event \<Rightarrow> bool" where
  "favourable E nodeClass prof cls (ListHosts ns sel r) \<longleftrightarrow> (\<exists>hs. r = Inr hs \<and>
     (\<forall>h \<in> set hs. launchable E nodeClass prof h) \<and> (\<exists>h \<in> set hs. claimable h \<and> in_class cls h))"
| "favourable E nodeClass prof cls (UpdateHostStatus new r) \<longleftrightarrow> (\<exists>h. r = Inr h \<and> Spec h = Spec new)"
| "favourable E nodeClass prof cls (PatchHostStatus orig new r) \<longleftrightarrow> (\<exists>h. r = Inr h \<and> Spec h = Spec new)"
| "favourable E nodeClass prof cls (GetProfile n r) \<longleftrightarrow> r = Inr prof"
| "favourable E nodeClass prof cls (GetSecret ns n r) \<longleftrightarrow> (\<exists>data. r = Inr data \<and>
     (if Some n = JoinSecretRef (ncl_Spec nodeClass) then distinct (map secretEnvName (map fst data)) else credentials_ok E data))"
| "favourable E nodeClass prof cls (GetConfigMap ns n r) \<longleftrightarrow> (\<exists>cm kc clusters. r = Inr cm \<and> map_of cm ''kubeconfig'' = Some kc \<and>
     w_LoadKubeconfig E kc = Inr clusters \<and> clusters \<noteq> [])"
| "favourable E nodeClass prof cls (GenerateToken r) \<longleftrightarrow> (\<exists>t. r = Inr t \<and> CHR ''.'' \<in> set t)"
| "favourable E nodeClass prof cls (CreateSecret s r) \<longleftrightarrow> r = None"
| "favourable E nodeClass prof cls (Exec d t script env r) \<longleftrightarrow> (\<exists>x. r = Inr x)"
| "favourable E nodeClass prof cls (ExecShim d t e r) \<longleftrightarrow> (\<exists>x. r = Inr x)"
| "favourable E nodeClass prof cls (ListNodes ip r) \<longleftrightarrow> (\<exists>nodes. r = Inr nodes \<and> (\<exists>n \<in> set nodes. n_ProviderID n \<noteq> ''''))"
| "favourable E nodeClass prof cls _ \<longleftrightarrow> True"

definition valid_selector :: "world \<Rightarrow> LabelSelector option \<Rightarrow> bool" where
  "valid_selector E sel \<longleftrightarrow> (\<forall>s. sel = Some s \<longrightarrow> w_SelectorError E s = None)"

subsection \<open>The program's providers\<close>

lemma setStatus_ok:
  "succeeds (favourable E nodeClass prof cls) (setStatus E h f) (\<lambda>r. fst r = None \<and> Spec (snd r) = Spec h)"
proof -
  have once: "succeeds (favourable E nodeClass prof cls) (set_status_once E c f h) (\<lambda>r. fst r = None \<and> Spec (snd r) = Spec h)" for c
  proof -
    have "succeeds (favourable E nodeClass prof cls) (casPatch E (with_status f h) h) (\<lambda>r. fst r = None \<and> Spec (snd r) = Spec h)"
      unfolding casPatch_def call_defs
      by (rule rg_bind [OF guar_issue [where Q = "\<lambda>r. \<exists>h'. r = Inr h' \<and> Spec h' = Spec h"]]) (auto intro!: guar_rules)
    then show ?thesis
      unfolding set_status_once_def
      by (rule rg_bind) (auto intro!: guar_rules grows_rules split: option.splits)
  qed
  show ?thesis
    unfolding setStatus_def
    by (subst RetryOnConflict.simps, rule rg_bind [OF once]) (auto intro!: guar_rules RetryOnConflict_calls grows_rules split: option.splits nat.splits)
qed

lemma pool_writes_ok:
  "succeeds (favourable E nodeClass prof cls) (SetInstalled E h m) (\<lambda>r. fst r = None \<and> Spec (snd r) = Spec h)"
  "succeeds (favourable E nodeClass prof cls) (SetBootstrapTokenID E h t) (\<lambda>r. fst r = None \<and> Spec (snd r) = Spec h)"
  "succeeds (favourable E nodeClass prof cls) (SetProviderID E h pid) (\<lambda>r. fst r = None \<and> Spec (snd r) = Spec h)"
  unfolding SetInstalled_def SetBootstrapTokenID_def SetProviderID_def by (rule setStatus_ok)+

lemma exec_ok:
  "succeeds (favourable E nodeClass prof cls) (exec E d t script env) (\<lambda>r. \<exists>x. r = Inr x)"
  "succeeds (favourable E nodeClass prof cls) (execShim E d t e) (\<lambda>r. \<exists>x. r = Inr x)"
  unfolding call_defs by (rule guar_issue; simp)+

lemma runPhase_ok:
  assumes "launchable E nodeClass prof h" and "phase \<in> {PhaseInstall, PhaseJoin}"
  shows "succeeds (favourable E nodeClass prof cls) (runPhase E d t h prof phase pctx env) (\<lambda>r. r = None)"
proof (cases "spec_ExecMode (Spec h) = Verified")
  case True
  with assms have "verified_check E h prof phase = None" by (auto simp: launchable_def)
  with True show ?thesis
    by (simp add: runPhase_def runVerifiedPhase_def) (rule rg_bind [OF exec_ok(2)], auto simp: error_of_def intro!: guar_rules)
next
  case False
  with assms obtain script where "Render (w_Templates E) prof phase pctx = Inr script" unfolding launchable_def by metis
  with False show ?thesis
    by (simp add: runPhase_def) (rule rg_bind [OF exec_ok(1)], auto simp: error_of_def intro!: guar_rules)
qed

lemma CreateToken_ok: "succeeds (favourable E nodeClass prof cls) (CreateToken E ttl d) (\<lambda>r. \<exists>t. r = Inr t)"
proof -
  have gen: "succeeds (favourable E nodeClass prof cls) (issue (w_GenerateToken E) GenerateToken) (\<lambda>r. \<exists>t. r = Inr t \<and> CHR ''.'' \<in> set t)"
    by (rule guar_issue) auto
  have make: "succeeds (favourable E nodeClass prof cls) (issue (\<lambda>w. w_CreateSecret E w s) (CreateSecret s)) (\<lambda>r. r = None)" for s
    by (rule guar_issue) auto
  show ?thesis
    unfolding CreateToken_def call_defs
    by (rule rg_bind [OF gen]) (auto simp: Cut_None intro!: guar_rules rg_bind [OF make] split: option.splits)
qed

lemma sshTarget_ok:
  assumes "launchable E nodeClass prof h"
  shows "succeeds (favourable E nodeClass prof cls) (sshTarget E h) (\<lambda>r. \<exists>t. r = Inr t \<and> True)"
proof -
  have "succeeds (favourable E nodeClass prof cls) (getSecret E ns (SSHKeySecretRef (Spec h)))
      (\<lambda>r. \<exists>data. r = Inr data \<and> credentials_ok E data)" for ns
    unfolding call_defs by (rule guar_issue) (use assms in \<open>auto simp: launchable_def split: if_splits\<close>)
  then have "succeeds (favourable E nodeClass prof cls) (ReadSSHCredentials E h) (\<lambda>r. \<exists>c. r = Inr c)"
    unfolding ReadSSHCredentials_def
    by (rule rg_bind) (auto simp: credentials_ok_def intro!: guar_rules)
  then show ?thesis
    unfolding sshTarget_def by (rule rg_bind) (auto intro!: guar_rules)
qed

lemma ClusterInfo_ok: "succeeds (favourable E nodeClass prof cls) (GetClusterInfo E nodeClass) (\<lambda>r. \<exists>i. r = Inr i \<and> True)"
proof -
  have "succeeds (favourable E nodeClass prof cls) (getConfigMap E ns n) (\<lambda>r. \<exists>cm kc clusters. r = Inr cm \<and>
      map_of cm ''kubeconfig'' = Some kc \<and> w_LoadKubeconfig E kc = Inr clusters \<and> clusters \<noteq> [])" for ns n
    unfolding call_defs by (rule guar_issue) auto
  note read = rg_bind [OF this]
  have sorted: "sort_key fst clusters \<noteq> []" if "clusters \<noteq> []" for clusters :: "(string \<times> string \<times> string) list"
    using that by (metis length_0_conv length_sort)
  show ?thesis
    unfolding GetClusterInfo_def Let_def
    by (auto intro!: guar_rules read split: option.splits list.splits sum.splits dest: sorted)
qed

lemma join_secrets_ok:
  "succeeds (favourable E nodeClass prof cls) (join_secrets E nodeClass h)
    (\<lambda>r. \<exists>data. r = Inr data \<and> distinct (map secretEnvName (map fst data)))"
proof -
  have "succeeds (favourable E nodeClass prof cls) (getSecret E ns ref)
      (\<lambda>r. \<exists>data. r = Inr data \<and> distinct (map secretEnvName (map fst data)))"
    if "JoinSecretRef (ncl_Spec nodeClass) = Some ref" for ns ref
    unfolding call_defs by (rule guar_issue) (use that in \<open>auto split: if_splits\<close>)
  note read = rg_bind [OF this]
  show ?thesis
    unfolding join_secrets_def by (auto intro!: guar_rules read split: option.splits)
qed

lemma join_config_ok:
  assumes "launchable E nodeClass prof h"
  shows "succeeds (favourable E nodeClass prof cls) (join_config (DefaultBootstrapProvider E) E nodeClass nc h)
    (\<lambda>r. \<exists>t c env. r = Inr (prof, t, c, env) \<and> distinct (map secretEnvName (map fst (Secrets c))))"
proof -
  have prof: "succeeds (favourable E nodeClass prof cls) (getProfile E n) (\<lambda>r. \<exists>p. r = Inr p \<and> p = prof)" for n
    unfolding call_defs by (rule guar_issue) auto
  have env: "succeeds (favourable E nodeClass prof cls) (let pctx = join_context nodeClass nc h info data in
        case Env pctx of Inl e \<Rightarrow> ret (Inl (ConfigError e)) | Inr env \<Rightarrow> ret (Inr (p, target, pctx, env)))
      (\<lambda>r. \<exists>t c env. r = Inr (prof, t, c, env) \<and> distinct (map secretEnvName (map fst (Secrets c))))"
    if "p = prof" "distinct (map secretEnvName (map fst data))" for info target data p
  proof -
    have "Secrets (join_context nodeClass nc h info data) = data" by (simp add: join_context_def)
    moreover from this that obtain env where "Env (join_context nodeClass nc h info data) = Inr env"
      using Env_Inr [of "join_context nodeClass nc h info data"] by auto
    ultimately show ?thesis using that by (auto simp: Let_def intro!: guar_return)
  qed
  have grow: "grows (sshTarget E h)" "grows (GetClusterInfo E nodeClass)" "grows (join_secrets E nodeClass h)"
    using sshTarget_ok [OF assms] ClusterInfo_ok join_secrets_ok by (blast intro: rg_grows)+
  have quiet: "grows (let pctx = join_context nodeClass nc h info data in
        case Env pctx of Inl e \<Rightarrow> ret (Inl (ConfigError e)) | Inr env \<Rightarrow> ret (Inr (prof', target, pctx, env)))"
    for info data prof' and target :: Target
    by (auto simp: Let_def intro!: guar_rules)
  show ?thesis
    unfolding join_config_def default_bootstrap_sel
    by (intro succeeds_bind_Inr [OF prof] succeeds_bind_Inr [OF sshTarget_ok [OF assms]]
        succeeds_bind_Inr [OF ClusterInfo_ok] succeeds_bind_Inr [OF join_secrets_ok] env quiet
        guar_return guar_case_sum grows_bind grow) simp_all
qed

lemma join_install_ok:
  assumes "launchable E nodeClass prof h"
  shows "succeeds (favourable E nodeClass prof cls) (join_install (DefaultHostProvider E) E h prof t pctx env)
    (\<lambda>r. fst r = None \<and> launchable E nodeClass prof (snd r))"
proof -
  have install: "succeeds (favourable E nodeClass prof cls) (SetInstalled E h m)
      (\<lambda>r. fst r = None \<and> launchable E nodeClass prof (snd r))" for m
    by (rule guar_post [OF pool_writes_ok(1)]) (use assms launchable_Spec in blast)
  have obs: "succeeds \<rho> (ObservePhase p e) (\<lambda>_. True)" for \<rho> p e
    unfolding call_defs by (rule guar_issue) auto
  show ?thesis
    unfolding join_install_def default_sel
    by (intro guar_if guar_return rg_bind [OF runPhase_ok [OF assms]] conjI impI)
       (use assms in \<open>auto intro!: guar_bind_any [OF obs] guar_steps install grows_rules\<close>)
qed

lemma join_token_ok:
  assumes "launchable E nodeClass prof h" and "distinct (map secretEnvName (map fst (Secrets pctx)))"
  shows "succeeds (favourable E nodeClass prof cls)
    (join_token (DefaultHostProvider E) (DefaultBootstrapProvider E) E nc h prof t pctx) (\<lambda>r. fst r = None)"
proof -
  have env: "\<exists>env. Env (pctx\<lparr>BootstrapToken := token\<rparr>) = Inr env" for token
    using Env_Inr [of "pctx\<lparr>BootstrapToken := token\<rparr>"] assms(2) by auto
  have token: "succeeds (favourable E nodeClass prof cls) (CreateToken E ttl d) (\<lambda>r. \<exists>t. r = Inr t \<and> True)" for ttl d
    using CreateToken_ok by simp
  have set: "succeeds (favourable E nodeClass prof cls) (SetBootstrapTokenID E h i)
      (\<lambda>r. fst r = None \<and> launchable E nodeClass prof (snd r))" for i
    by (rule guar_post [OF pool_writes_ok(2)]) (use assms launchable_Spec in blast)
  have obs: "succeeds \<rho> (ObservePhase p e) (\<lambda>_. True)" for \<rho> p e
    unfolding call_defs by (rule guar_issue) auto
  note grow = lifecycle.join_grows(1) lifecycle.calls_grow grows_rules runPhase_calls [THEN rg_grows] obs
  have run: "succeeds (favourable E nodeClass prof cls) (do {
        je \<leftarrow> runPhase E d t h1 prof PhaseJoin c env;
        ObservePhase PhaseJoin je;
        case je of
          Some e \<Rightarrow> do { h2 \<leftarrow> deleteToken (DefaultHostProvider E) (DefaultBootstrapProvider E) h1 token;
             ret (Some (redactPhaseErr c PhaseJoin e), h2) }
        | None \<Rightarrow> ret (None, h1) }) (\<lambda>r. fst r = None)"
    if "launchable E nodeClass prof h1" for d h1 c env token
    by (rule rg_bind [OF runPhase_ok [OF that]])
       (auto intro!: guar_bind_any [OF obs] guar_steps grows_bind grow)
  show ?thesis
    unfolding join_token_def default_sel default_bootstrap_sel
  proof (rule succeeds_bind_Inr [OF token])
    fix token
    obtain env where env: "Env (pctx\<lparr>BootstrapToken := token\<rparr>) = Inr env" using env by blast
    show "succeeds (favourable E nodeClass prof cls) (let pctx' = pctx\<lparr>BootstrapToken := token\<rparr> in
        case Env pctx' of
            Inl e \<Rightarrow> do { h' \<leftarrow> deleteToken (DefaultHostProvider E) (DefaultBootstrapProvider E) h token; ret (Some e, h') }
          | Inr env \<Rightarrow> do {
              (se, h1) \<leftarrow> SetBootstrapTokenID E h (TokenID token);
              case se of
                Some e \<Rightarrow> do {
                  h2 \<leftarrow> deleteToken (DefaultHostProvider E) (DefaultBootstrapProvider E) h1 token;
                  ret (Some (Wrapf ''recording bootstrap token: '' e), h2) }
              | None \<Rightarrow> do {
                  je \<leftarrow> runPhase E (Timeout prof PhaseJoin joinTimeout) t h1 prof PhaseJoin pctx' env;
                  ObservePhase PhaseJoin je;
                  case je of
                    Some e \<Rightarrow> do {
                      h2 \<leftarrow> deleteToken (DefaultHostProvider E) (DefaultBootstrapProvider E) h1 token;
                      ret (Some (redactPhaseErr pctx' PhaseJoin e), h2) }
                  | None \<Rightarrow> ret (None, h1) } }) (\<lambda>r. fst r = None)"
      unfolding Let_def env sum.case
      by (intro succeeds_bind_None [OF set] run grows_bind grow) (auto intro!: guar_steps grows_bind grow guar_bind_any [OF obs])
  qed (auto simp: Let_def intro!: guar_steps grows_bind grow guar_bind_any [OF obs])
qed

lemma join_ok:
  assumes "launchable E nodeClass prof h"
  shows "succeeds (favourable E nodeClass prof cls)
    (join (DefaultHostProvider E) (DefaultBootstrapProvider E) E nodeClass nc h) (\<lambda>r. fst r = None)"
proof (unfold join_def, rule rg_bind [OF join_config_ok [OF assms]], intro conjI impI)
  fix c
  note grow = lifecycle.join_grows(2,3)
  show "grows (case c of Inl e \<Rightarrow> ret (Some e, h) | Inr (prof, target, pctx, env) \<Rightarrow> do {
         (ie, h1) \<leftarrow> join_install (DefaultHostProvider E) E h prof target pctx env;
         case ie of Some e \<Rightarrow> ret (Some e, h1)
         | None \<Rightarrow> join_token (DefaultHostProvider E) (DefaultBootstrapProvider E) E nc h1 prof target pctx })"
    by (auto intro!: guar_steps grows_bind grow split: sum.splits prod.splits)
  assume "\<exists>t x env. c = Inr (prof, t, x, env) \<and> distinct (map secretEnvName (map fst (Secrets x)))"
  then obtain t x env where c: "c = Inr (prof, t, x, env)" and d: "distinct (map secretEnvName (map fst (Secrets x)))" by blast
  show "succeeds (favourable E nodeClass prof cls) (case c of Inl e \<Rightarrow> ret (Some e, h) | Inr (prof, target, pctx, env) \<Rightarrow> do {
         (ie, h1) \<leftarrow> join_install (DefaultHostProvider E) E h prof target pctx env;
         case ie of Some e \<Rightarrow> ret (Some e, h1)
         | None \<Rightarrow> join_token (DefaultHostProvider E) (DefaultBootstrapProvider E) E nc h1 prof target pctx }) (\<lambda>r. fst r = None)"
    unfolding c sum.case prod.case
    by (rule succeeds_bind_None [OF join_install_ok [OF assms]]) (auto intro!: join_token_ok [OF _ d] guar_steps grow)
qed

lemma list_pool_ok:
  assumes "valid_selector E sel"
  shows "succeeds (favourable E nodeClass prof cls) (list_pool E sel) (\<lambda>r. \<exists>hs. r = Inr hs \<and>
    (\<forall>h \<in> set hs. launchable E nodeClass prof h) \<and> (\<exists>h \<in> set hs. claimable h \<and> in_class cls h))"
  using assms by (auto simp: list_pool_def valid_selector_def call_defs intro!: guar_issue split: option.splits)

lemma adopt_ok: "succeeds (favourable E nodeClass prof cls) (adoptProviderID E h) (\<lambda>r. \<exists>p. r = Inr p)"
proof -
  have list: "succeeds (favourable E nodeClass prof cls) (listNodes E ip)
      (\<lambda>r. \<exists>nodes. r = Inr nodes \<and> (\<exists>n \<in> set nodes. n_ProviderID n \<noteq> ''''))" for ip
    unfolding call_defs by (rule guar_issue) auto
  have found: "List.find P nodes \<noteq> None" if "n \<in> set nodes" "P n" for P and nodes :: "Node list" and n
    using that by (auto simp: find_None_iff)
  have poll: "succeeds (favourable E nodeClass prof cls) (adopt_poll E h) (\<lambda>r. r \<noteq> None)"
    unfolding adopt_poll_def by (rule rg_bind [OF list]) (auto intro!: guar_rules dest: found)
  have "succeeds (favourable E nodeClass prof cls) (adopt_wait E h n) (\<lambda>r. r \<noteq> None)" for n
  proof (cases n)
    case (Suc m)
    show ?thesis
      unfolding Suc adopt_wait.simps
      by (rule rg_bind [OF poll]) (auto intro!: guar_rules lifecycle.adopt_wait_calls [THEN rg_grows] split: option.splits)
  qed (use poll in simp)
  then show ?thesis
    unfolding adoptProviderID_def by (rule rg_bind) (auto intro!: guar_rules split: option.splits)
qed

interpretation launches: launch_progress "DefaultHostProvider E" "DefaultBootstrapProvider E" E "favourable E nodeClass prof cls"
  "launchable E nodeClass prof" "valid_selector E" nodeClass cls for E nodeClass prof cls
proof
  show "succeeds (favourable E nodeClass prof cls) (hp_ByClaim (DefaultHostProvider E) nc)
      (\<lambda>r. \<exists>found. r = Inr found \<and> (\<forall>h. found = Some h \<longrightarrow> launchable E nodeClass prof h))" for nc
    unfolding default_sel ByClaim_def
    by (rule rg_bind [OF list_pool_ok]) (auto simp: valid_selector_def intro!: guar_rules dest: find_SomeD)
  show "succeeds (favourable E nodeClass prof cls) (hp_Available (DefaultHostProvider E) sel c)
      (\<lambda>r. \<exists>cs. r = Inr cs \<and> (\<forall>h \<in> set cs. launchable E nodeClass prof h) \<and> (c = cls \<longrightarrow> cs \<noteq> []))"
    if "valid_selector E sel" for sel c
  proof -
    have ne: "sort_key age_key (filter P hs) \<noteq> []" if "h \<in> set hs" "P h" for P hs h
    proof -
      have "h \<in> set (sort_key age_key (filter P hs))" using that by simp
      then show ?thesis by (metis list.set(1) empty_iff)
    qed
    show ?thesis
      unfolding default_sel Available_hosts_def
      by (rule rg_bind [OF list_pool_ok [OF that]])
         (use ne [where P = "\<lambda>h. claimable h \<and> in_class c h"] in \<open>auto intro!: guar_rules\<close>)
  qed
  show "succeeds (favourable E nodeClass prof cls) (hp_Claim (DefaultHostProvider E) h nc)
      (\<lambda>r. fst r = Inr True \<and> launchable E nodeClass prof (snd r))" if "launchable E nodeClass prof h" for h nc
  proof -
    have "succeeds (favourable E nodeClass prof cls) (updateHostStatus E (with_status f h)) (\<lambda>r. \<exists>h'. r = Inr h' \<and> Spec h' = Spec h)" for f
      unfolding call_defs by (rule guar_issue) auto
    moreover have keep: "launchable E nodeClass prof h'" if "Spec h' = Spec h" for h'
      using that \<open>launchable E nodeClass prof h\<close> launchable_Spec by blast
    ultimately show ?thesis
      unfolding default_sel Claim_def Let_def
      by (rule_tac rg_bind) (auto intro!: guar_rules keep)
  qed
  show "succeeds (favourable E nodeClass prof cls) (hp_SetProviderID (DefaultHostProvider E) h pid) (\<lambda>r. fst r = None)" for h pid
    unfolding default_sel by (rule guar_post [OF pool_writes_ok(3)]) simp
qed (simp_all add: join_ok adopt_ok lifecycle.calls_grow lifecycle.finish_grows grows_rules)

text \<open>C8. \<^bold>\<open>A launch fails only for a cause.\<close> If the node class selector is valid and every answer a
  \<^verbatim>\<open>Create\<close> gets is favourable (each listing shows a free host of one of the requested classes, the profile fits
  the hosts, Secrets and cluster info are readable, writes are accepted, scripts succeed, and with adopted
  identities a Node shows up), the launch ends with an instance for the NodeClaim. So every failed
  launch has met an answer that is not favourable.\<close>

theorem Create_succeeds:
  assumes "valid_selector E (HostSelector (ncl_Spec nodeClass))" and "cls \<in> it_Name ` set its"
  shows "succeeds (favourable E nodeClass prof cls)
    (Instance.Create (DefaultHostProvider E) (DefaultBootstrapProvider E) E nodeClass nc its)
    (\<lambda>r. \<exists>i. r = Inr i \<and> i_NodeName i = nc_Name nc)"
  using assms by (rule launches.Create_ok)

text \<open>A world that accepts every write, with one free host.\<close>

definition willing_world :: world where
  "willing_world = (ready_world sample_host sample_profile)\<lparr>
     w_UpdateHostStatus := \<lambda>_ new. Inr new, w_PatchHostStatus := \<lambda>_ orig new. Inr new\<rparr>"

fun willing_answer :: "event \<Rightarrow> bool" where
  "willing_answer (ListHosts ns sel r) \<longleftrightarrow> r = Inr [sample_host]"
| "willing_answer (UpdateHostStatus new r) \<longleftrightarrow> r = Inr new"
| "willing_answer (PatchHostStatus orig new r) \<longleftrightarrow> r = Inr new"
| "willing_answer (GetProfile n r) \<longleftrightarrow> r = Inr sample_profile"
| "willing_answer (GetSecret ns n r) \<longleftrightarrow> r = Inr [(''privateKey'', ''pem'')]"
| "willing_answer (GenerateToken r) \<longleftrightarrow> r = Inr ''abcdef.0123456789abcdef''"
| "willing_answer (CreateSecret s r) \<longleftrightarrow> r = None"
| "willing_answer (Exec d t script env r) \<longleftrightarrow> r = Inr empty_result"
| "willing_answer (ExecShim d t e r) \<longleftrightarrow> r = Inr empty_result"
| "willing_answer (GetConfigMap ns n r) \<longleftrightarrow> False"
| "willing_answer (ListNodes ip r) \<longleftrightarrow> False"
| "willing_answer _ \<longleftrightarrow> True"

lemma sample_launchable: "launchable willing_world plain_class sample_profile sample_host"
  by (auto simp: launchable_def willing_world_def ready_world_def one_host_world_def dead_world_def sample_host_def
      plain_class_def Render_def parse_script_def verbatim_engine_def Script_def sample_profile_def phase_defs Let_def)

lemma willing_favourable:
  assumes "willing_answer e"
  shows "favourable willing_world plain_class sample_profile ''default'' e"
proof -
  have "credentials_ok willing_world [(''privateKey'', ''pem'')]"
    by (simp add: credentials_ok_def SSHKeySecretKey_def KnownHostSecretKey_def)
  moreover have "claimable sample_host" "in_class ''default'' sample_host" by code_simp+
  ultimately show ?thesis using assms sample_launchable by (cases e) (auto simp: plain_class_def)
qed

theorem Create_succeeds_witness:
  "\<exists>i. fst (run_state (Instance.Create (DefaultHostProvider willing_world) (DefaultBootstrapProvider willing_world)
      willing_world plain_class other_claim
      [\<lparr>it_Name = ''default'', it_Requirements = [], it_Offerings = [], it_Capacity = [], it_KubeReserved = []\<rparr>]) []) = Inr i \<and>
    i_NodeName i = ''pool-abc''"
proof -
  let ?its = "[\<lparr>it_Name = ''default'', it_Requirements = [], it_Offerings = [], it_Capacity = [], it_KubeReserved = []\<rparr>]"
  let ?m = "Instance.Create (DefaultHostProvider willing_world) (DefaultBootstrapProvider willing_world)
      willing_world plain_class other_claim ?its"
  have "list_all willing_answer (snd (run_state ?m []))" by code_simp
  then have "list_all (favourable willing_world plain_class sample_profile ''default'') (snd (run_state ?m []))"
    using willing_favourable by (auto simp: list_all_iff)
  moreover have "succeeds (favourable willing_world plain_class sample_profile ''default'') ?m
      (\<lambda>r. \<exists>i. r = Inr i \<and> i_NodeName i = nc_Name other_claim)"
    by (rule Create_succeeds) (simp_all add: valid_selector_def plain_class_def)
  ultimately show ?thesis by (auto elim!: rgD [of _ _ _ _ "[]" "fst (run_state ?m [])" "snd (run_state ?m [])"] simp: other_claim_def)
qed

subsection \<open>A healthy machine is admitted\<close>

text \<open>Answers to a probe that finds the machine healthy and without a kubelet.\<close>

fun healthy_answer :: "world \<Rightarrow> event \<Rightarrow> bool" where
  "healthy_answer E (GetSecret ns n r) \<longleftrightarrow> (\<exists>data. r = Inr data \<and> credentials_ok E data)"
| "healthy_answer E (Exec d t script env r) \<longleftrightarrow>
     (\<exists>out. r = Inr out \<and> \<not> pr_kubeletActive (parseProbeOutput (Stdout out) (HostKeyFingerprint' out)))"
| "healthy_answer E (ExecShim d t e r) \<longleftrightarrow>
     (\<exists>out. r = Inr out \<and> \<not> pr_kubeletActive (parseProbeOutput (Stdout out) (HostKeyFingerprint' out)))"
| "healthy_answer E (PatchHostStatus orig new r) \<longleftrightarrow> (\<exists>h. r = Inr h)"
| "healthy_answer E _ \<longleftrightarrow> True"

definition probe_due :: "world \<Rightarrow> SSHHost \<Rightarrow> bool" where
  "probe_due E h \<longleftrightarrow> (\<forall>p. LastProbeTime (Status h) = Some p \<longrightarrow>
     SSHHostStatus.ObservedGeneration (Status h) \<noteq> h_Generation h \<or> (\<forall>w. w_Now E w - p \<ge> ProbeInterval))"

lemma probe_ok: "succeeds (healthy_answer E) (probe E h) (\<lambda>r. \<exists>res. r = Inr res \<and> \<not> pr_kubeletActive res)"
proof -
  have read: "succeeds (healthy_answer E) (getSecret E ns n) (\<lambda>r. \<exists>data. r = Inr data \<and> credentials_ok E data)" for ns n
    unfolding call_defs by (rule guar_issue) auto
  have creds: "succeeds (healthy_answer E) (ReadSSHCredentials E h) (\<lambda>r. \<exists>c. r = Inr c \<and> True)"
    unfolding ReadSSHCredentials_def by (rule rg_bind [OF read]) (auto simp: credentials_ok_def intro!: guar_rules)
  have run: "succeeds (healthy_answer E) (if b then execShim E d t e else exec E d t' s env)
      (\<lambda>r. \<exists>out. r = Inr out \<and> \<not> pr_kubeletActive (parseProbeOutput (Stdout out) (HostKeyFingerprint' out)))" for b d t e t' s env
    unfolding call_defs by (auto intro!: guar_issue)
  have grow: "grows (if b then execShim E d t e else exec E d t' s env)" for b d t e t' s env
    unfolding call_defs by (auto intro!: guar_issue)
  have quiet: "grows (ret x)" for x :: "err + probeResult" by (rule guar_return) simp
  show ?thesis
    unfolding probe_def Let_def
    by (intro succeeds_bind_Inr [OF creds] succeeds_bind_Inr [OF run] grows_bind [OF grow] guar_case_sum quiet)
       (auto intro!: guar_return)
qed

lemma dispatch_unclaimed:
  assumes "State' (Status orig) \<notin> {Claimed, InUse}" and "map_of (h_Annotations orig) MaintenanceAnnotation = None"
  obtains host where "dispatch B E orig = stale_guard E orig host" and "h_Generation host = h_Generation orig"
    and "LastProbeTime (Status host) = LastProbeTime (Status orig)"
    and "SSHHostStatus.ObservedGeneration (Status host) = SSHHostStatus.ObservedGeneration (Status orig)"
proof
  show "dispatch B E orig = stale_guard E orig (maintenance_state orig)"
    using assms by (auto simp: dispatch_def maintenance_state_def Let_def split: HostState.split)
qed (auto simp: maintenance_state_def Let_def)

text \<open>Success together with what the calls have brought about.\<close>

definition brings :: "('e \<Rightarrow> bool) \<Rightarrow> ('e, 'a) prog \<Rightarrow> ('a \<Rightarrow> 'e log \<Rightarrow> bool) \<Rightarrow> bool" where
  "brings \<rho> m R \<longleftrightarrow> (\<forall>w r w'. run_state m w = (r, w') \<longrightarrow> (\<exists>evs. w' = evs @ w \<and> (list_all \<rho> evs \<longrightarrow> R r evs)))"

lemma bringsD: "brings \<rho> m R \<Longrightarrow> run_state m w = (r, evs @ w) \<Longrightarrow> list_all \<rho> evs \<Longrightarrow> R r evs"
  unfolding brings_def by (metis append_same_eq)

lemma brings_bind:
  assumes m: "succeeds \<rho> m Q" and rest: "\<And>a. Q a \<Longrightarrow> brings \<rho> (f a) R" and grow: "\<And>a. grows (f a)"
    and mono: "\<And>r a b. R r a \<Longrightarrow> R r (a @ b)"
  shows "brings \<rho> (State_Monad.bind m f) R"
  unfolding brings_def
proof (intro allI impI)
  fix w r w'
  assume run: "run_state (State_Monad.bind m f) w = (r, w')"
  obtain a v where a: "run_state m w = (a, v)" by (cases "run_state m w")
  with run have run': "run_state (f a) v = (r, w')" by simp
  from m a obtain evs where evs: "v = evs @ w" "list_all \<rho> evs \<longrightarrow> Q a" by (rule rgD)
  from grow run' obtain later where later: "w' = later @ v" by (blast elim: rgD)
  have "R r (later @ evs)" if "list_all \<rho> (later @ evs)"
    using that evs(2) rest [of a] run' later by (auto intro: mono bringsD)
  with evs(1) later show "\<exists>evs. w' = evs @ w \<and> (list_all \<rho> evs \<longrightarrow> R r evs)" by auto
qed

definition admitted_in :: "SSHHost \<Rightarrow> reconcile \<Rightarrow> event log \<Rightarrow> bool" where
  "admitted_in orig r evs \<longleftrightarrow> r = (ProbeInterval, None) \<and> (State' (Status orig) \<noteq> Available \<longrightarrow>
     (\<exists>new h. PatchHostStatus orig new (Inr h) \<in> set evs \<and> State' (Status new) = Available \<and> LastProbeError (Status new) = ''''))"

lemma admitted_in_mono: "admitted_in orig r a \<Longrightarrow> admitted_in orig r (a @ b)"
  unfolding admitted_in_def by auto

lemma patchStatus_admits:
  assumes "State' (Status host) = Available" and "LastProbeError (Status host) = ''''"
  shows "brings (healthy_answer E) (patchStatus E orig host ProbeInterval) (admitted_in orig)"
proof -
  have diff: "\<not> same_status (Status orig) (Status (setReadyCondition E t host))" if "State' (Status orig) \<noteq> Available" for t
    using that assms(1) by (auto simp: same_status_def setReadyCondition_def dest!: arg_cong [where f = State'])
  show ?thesis
    unfolding brings_def patchStatus_def admitted_in_def Let_def
    using diff assms by (auto simp: call_defs setReadyCondition_def split: sum.splits)
qed

lemma probe_branch_admits: "brings (healthy_answer E) (probe_branch E orig host) (admitted_in orig)"
proof -
  have quiet: "succeeds \<rho> (ObserveProbe x) (\<lambda>_. True)" "succeeds \<rho> (now E) (\<lambda>_. True)"
    "succeeds \<rho> (warnOnCapacityDrift E h1 h2) (\<lambda>_. True)" for \<rho> x h1 h2
    by (auto simp: call_defs warnOnCapacityDrift_def record_event_def Let_def intro!: guar_rules)
  note grow = quiet patchStatus_grows handleZombie_grows lifecycle.calls_grow
  have patch: "grows (patchHostStatus E a b)" for a b by (auto simp: call_defs intro!: guar_rules)
  show ?thesis
    unfolding probe_branch_def
    by (intro brings_bind [OF probe_ok] brings_bind [OF quiet(1)] brings_bind [OF quiet(2)] grows_bind grow guar_case_sum)
       (auto simp: Let_def intro!: brings_bind [OF quiet(3)] patchStatus_admits admitted_in_mono guar_steps grows_bind grow patch)
qed

text \<open>C15. \<^bold>\<open>A healthy machine becomes Available.\<close> Let a host be neither claimed nor under maintenance, with a
  probe due. If its key Secret can be read, the probe runs and finds no kubelet, and the status write is
  accepted, the reconcile asks to be called again after the probe interval and leaves the host Available
  without a probe error: it writes that state unless the host was Available already.\<close>

theorem healthy_host_admitted:
  assumes "State' (Status orig) \<notin> {Claimed, InUse}" and "map_of (h_Annotations orig) MaintenanceAnnotation = None"
    and "probe_due E orig" and "w_GetHost E [] req = Inr orig"
    and "run_state (HostProbe.Reconcile (DefaultBootstrapProvider E) E req) [] = (r, w)" and "list_all (healthy_answer E) w"
  shows "r = (ProbeInterval, None) \<and> (State' (Status orig) = Available \<or>
    (\<exists>new h. PatchHostStatus orig new (Inr h) \<in> set w \<and> State' (Status new) = Available \<and> LastProbeError (Status new) = ''''))"
proof -
  from assms(1,2) obtain host where disp: "dispatch (DefaultBootstrapProvider E) E orig = stale_guard E orig host"
    and same: "h_Generation host = h_Generation orig" "LastProbeTime (Status host) = LastProbeTime (Status orig)"
      "SSHHostStatus.ObservedGeneration (Status host) = SSHHostStatus.ObservedGeneration (Status orig)"
    by (rule dispatch_unclaimed)
  have "brings (healthy_answer E) (stale_guard E orig host) (admitted_in orig)"
  proof (cases "LastProbeTime (Status host) \<noteq> None \<and> SSHHostStatus.ObservedGeneration (Status host) = h_Generation host")
    case True
    then obtain p where "LastProbeTime (Status host) = Some p" by auto
    then have due: "w_Now E v - p \<ge> ProbeInterval" for v using True assms(3) same by (auto simp: probe_due_def)
    show ?thesis
      unfolding brings_def
    proof (intro allI impI)
      fix v r' v'
      assume "run_state (stale_guard E orig host) v = (r', v')"
      then have "run_state (probe_branch E orig host) (Clock (w_Now E v) # v) = (r', v')"
        using True \<open>LastProbeTime (Status host) = Some p\<close> due [of v] by (simp add: stale_guard_def call_defs)
      with probe_branch_admits [of E orig host] obtain evs where "v' = evs @ Clock (w_Now E v) # v"
        and "list_all (healthy_answer E) evs \<longrightarrow> admitted_in orig r' evs" unfolding brings_def by blast
      then show "\<exists>evs. v' = evs @ v \<and> (list_all (healthy_answer E) evs \<longrightarrow> admitted_in orig r' evs)"
        by (intro exI [of _ "evs @ [Clock (w_Now E v)]"]) (auto intro: admitted_in_mono)
    qed
  next
    case False
    then have "stale_guard E orig host = probe_branch E orig host" by (auto simp: stale_guard_def split: option.splits)
    then show ?thesis using probe_branch_admits by metis
  qed
  moreover have "run_state (stale_guard E orig host) [GetHost req (Inr orig)] = (r, w)"
    using assms(4,5) disp by (simp add: HostProbe.Reconcile_def call_defs)
  ultimately obtain evs where "w = evs @ [GetHost req (Inr orig)]" and "list_all (healthy_answer E) evs \<longrightarrow> admitted_in orig r evs"
    unfolding brings_def by blast
  then show ?thesis using assms(6) by (auto simp: admitted_in_def)
qed

definition sick_host :: SSHHost where
  "sick_host = sample_host\<lparr>Status := sample_status\<lparr>State' := Unhealthy, LastProbeError := ''no route''\<rparr>\<rparr>"

theorem healthy_host_admitted_witness:
  "let E = (ready_world sick_host sample_profile)\<lparr>w_PatchHostStatus := \<lambda>_ orig new. Inr new\<rparr>;
       run = run_state (HostProbe.Reconcile (DefaultBootstrapProvider E) E (''kpssh-system'', ''metal-1'')) [] in
   fst run = (ProbeInterval, None) \<and> (\<exists>new h. PatchHostStatus sick_host new (Inr h) \<in> set (snd run) \<and> State' (Status new) = Available)"
proof -
  let ?E = "(ready_world sick_host sample_profile)\<lparr>w_PatchHostStatus := \<lambda>_ orig new. Inr new\<rparr>"
  let ?run = "run_state (HostProbe.Reconcile (DefaultBootstrapProvider ?E) ?E (''kpssh-system'', ''metal-1'')) []"
  have answers: "willing_answer e \<Longrightarrow> healthy_answer ?E e" for e
  proof -
    have "credentials_ok ?E [(''privateKey'', ''pem'')]" by (simp add: credentials_ok_def SSHKeySecretKey_def KnownHostSecretKey_def)
    moreover have "\<not> pr_kubeletActive (parseProbeOutput (Stdout empty_result) (HostKeyFingerprint' empty_result))" by code_simp
    ultimately show "willing_answer e \<Longrightarrow> healthy_answer ?E e" by (cases e) auto
  qed
  have "list_all willing_answer (snd ?run)" by code_simp
  then have ok: "list_all (healthy_answer ?E) (snd ?run)" using answers by (auto simp: list_all_iff)
  have host: "State' (Status sick_host) \<notin> {Claimed, InUse}" "map_of (h_Annotations sick_host) MaintenanceAnnotation = None"
    "probe_due ?E sick_host" "w_GetHost ?E [] (''kpssh-system'', ''metal-1'') = Inr sick_host"
    by (simp_all add: sick_host_def sample_host_def sample_status_def probe_due_def ready_world_def one_host_world_def)
  have "?run = (fst ?run, snd ?run)" by simp
  from healthy_host_admitted [OF host this ok] show ?thesis unfolding Let_def by (auto simp: sick_host_def)
qed

subsection \<open>A dead machine does not hold up a deletion\<close>

text \<open>Answers of an API server that is up and knows the NodeClaim as the holder of its host. Nothing is asked of
  the machine, the profile or the Secrets.\<close>

fun api_up :: "NodeClaim \<Rightarrow> event \<Rightarrow> bool" where
  "api_up nc (GetHost nn r) \<longleftrightarrow> (\<exists>h. r = Inr h \<and> ClaimHeldBy h nc)"
| "api_up nc (ListHosts ns sel r) \<longleftrightarrow> (\<exists>hs. r = Inr hs \<and> (\<exists>h \<in> set hs. ProviderID' (Status h) = nc_ProviderID nc) \<and>
     (\<forall>h \<in> set hs. ProviderID' (Status h) = nc_ProviderID nc \<longrightarrow> ClaimHeldBy h nc))"
| "api_up nc (PatchHostStatus orig new r) \<longleftrightarrow> (\<exists>h. r = Inr h)"
| "api_up nc _ \<longleftrightarrow> True"

text \<open>A providerID the program can resolve: one it rendered, or one that was adopted.\<close>

definition resolvable :: "string \<Rightarrow> bool" where
  "resolvable pid \<longleftrightarrow> pid \<noteq> '''' \<and> (\<forall>rest. CutPrefix pid ProviderPrefix = Some rest \<longrightarrow> CHR ''/'' \<in> set rest)"

lemma ByProviderID_ok:
  assumes "resolvable (nc_ProviderID nc)"
  shows "succeeds (api_up nc) (ByProviderID E (nc_ProviderID nc)) (\<lambda>r. \<exists>h. r = Inr h \<and> ClaimHeldBy h nc)"
proof (cases "CutPrefix (nc_ProviderID nc) ProviderPrefix")
  case None
  have list: "succeeds (api_up nc) (list_pool E None) (\<lambda>r. \<exists>hs. r = Inr hs \<and> (\<exists>h \<in> set hs. ProviderID' (Status h) = nc_ProviderID nc) \<and>
     (\<forall>h \<in> set hs. ProviderID' (Status h) = nc_ProviderID nc \<longrightarrow> ClaimHeldBy h nc))"
    by (auto simp: list_pool_def call_defs intro!: guar_issue)
  have found: "\<exists>h. List.find P hs = Some h \<and> h \<in> set hs \<and> P h" if "x \<in> set hs" "P x" for P x and hs :: "SSHHost list"
    using that by (cases "List.find P hs") (auto simp: find_None_iff dest: find_SomeD)
  let ?rest = "\<lambda>hs. ret (case List.find (\<lambda>h. ProviderID' (Status h) = nc_ProviderID nc) hs of
      Some h \<Rightarrow> Inr h | None \<Rightarrow> Inl (host_not_found (nc_ProviderID nc))) :: (err + SSHHost) io"
  have pick: "succeeds (api_up nc) (?rest hs) (\<lambda>r. \<exists>h. r = Inr h \<and> ClaimHeldBy h nc)"
    if "\<exists>h \<in> set hs. ProviderID' (Status h) = nc_ProviderID nc"
      "\<forall>h \<in> set hs. ProviderID' (Status h) = nc_ProviderID nc \<longrightarrow> ClaimHeldBy h nc" for hs
  proof -
    from that(1) obtain x where "x \<in> set hs" "ProviderID' (Status x) = nc_ProviderID nc" by (rule bexE)
    from found [of x hs "\<lambda>h. ProviderID' (Status h) = nc_ProviderID nc", OF this] obtain h
      where "List.find (\<lambda>h. ProviderID' (Status h) = nc_ProviderID nc) hs = Some h"
      "h \<in> set hs" "ProviderID' (Status h) = nc_ProviderID nc" by blast
    with that(2) show ?thesis by (simp add: guar_return)
  qed
  from assms None have "ByProviderID E (nc_ProviderID nc) =
      State_Monad.bind (list_pool E None) (\<lambda>r. case r of Inl e \<Rightarrow> ret (Inl e) | Inr hs \<Rightarrow> ?rest hs)"
    by (simp add: ByProviderID_def resolvable_def)
  moreover have "succeeds (api_up nc) (State_Monad.bind (list_pool E None)
      (\<lambda>r. case r of Inl e \<Rightarrow> ret (Inl e) | Inr hs \<Rightarrow> ?rest hs)) (\<lambda>r. \<exists>h. r = Inr h \<and> ClaimHeldBy h nc)"
    by (rule succeeds_bind_Inr [OF list]) (use pick in \<open>auto intro!: guar_return\<close>)
  ultimately show ?thesis by simp
next
  case (Some rest)
  with assms have "CHR ''/'' \<in> set rest" by (simp add: resolvable_def)
  then obtain ns name where "SplitN2 CHR ''/'' rest = [ns, name]"
    by (cases "Cut CHR ''/'' rest") (auto simp: SplitN2_def Cut_None)
  with Some assms show ?thesis
    unfolding ByProviderID_def by (auto simp: resolvable_def call_defs intro!: guar_issue)
qed

text \<open>C14. \<^bold>\<open>A dead machine does not hold up a deletion.\<close> Whatever the machine, the profile and the Secrets do
  (unreachable, wrong key, script failing), a \<^verbatim>\<open>Delete\<close> of the holder succeeds as long as the API server
  resolves the providerID to the host the NodeClaim holds and accepts the release.\<close>

theorem Delete_not_held_up:
  assumes "resolvable (nc_ProviderID nc)"
  shows "succeeds (api_up nc) (Instance.Delete (DefaultHostProvider E) (DefaultBootstrapProvider E) E nc) (\<lambda>r. r = None)"
proof -
  have release: "succeeds (api_up nc) (Release E h ok reason) (\<lambda>r. fst r = None \<and> True)" for h ok reason
  proof -
    have patch: "succeeds (api_up nc) (patchHostStatus E a b) (\<lambda>r. \<exists>h. r = Inr h \<and> True)" for a b
      unfolding call_defs by (rule guar_issue) auto
    show ?thesis
      unfolding Release_def casPatch_def by (rule succeeds_bind_Inr [OF patch]) (auto intro!: guar_rules)
  qed
  have leave: "succeeds \<rho> (LeaveHost E h) (\<lambda>_. True)" for \<rho> h
    unfolding LeaveHost_def by (auto intro!: guar_rules guar_weaken [OF runInstalledPhase_calls])
  have token: "succeeds \<rho> (deleteBootstrapToken (DefaultBootstrapProvider E) h) (\<lambda>_. True)" for \<rho> h
    by (auto simp: deleteBootstrapToken_def intro!: guar_rules guar_weaken [OF DeleteTokenByID_calls])
  let ?finish = "\<lambda>h ok. do { deleteBootstrapToken (DefaultBootstrapProvider E) h;
      (e, h') \<leftarrow> Release E h ok ''leave phase did not complete cleanly''; ret (map_option Plain e) }"
  have finish: "succeeds (api_up nc) (?finish h ok) (\<lambda>r. r = None)" and grow: "grows (?finish h ok)" for h ok
    by (auto intro!: guar_bind_any [OF token] rg_bind [OF release] guar_steps grows_bind token release [THEN rg_grows])
  show ?thesis
    unfolding Delete_def default_sel
  proof (rule succeeds_bind_Inr [OF ByProviderID_ok [OF assms]])
    fix h assume "ClaimHeldBy h nc"
    then show "succeeds (api_up nc) (case ClaimRef (Status h) of
        None \<Rightarrow> ret (Some (NodeClaimNotFoundError (not_claimed h)))
      | Some ref \<Rightarrow>
          if \<not> ClaimHeldBy h nc then
            ret (Some (NodeClaimNotFoundError (Errorf (''host '' @ h_Name h @ '' is claimed by NodeClaim '' @
              ref_Name ref @ '', not '' @ nc_Name nc))))
          else do {
            leaveOK \<leftarrow> (if InstalledProfile (Status h) \<noteq> '''' then do { e \<leftarrow> LeaveHost E h; ret (e = None) } else ret False);
            ?finish h leaveOK }) (\<lambda>r. r = None)"
      using finish [of h] grow [of h]
      by (cases "ClaimRef (Status h)") (auto simp: ClaimHeldBy_def intro!: guar_bind_any [OF leave])
  qed (auto intro!: guar_steps grows_bind leave grow split: option.splits)
qed

text \<open>The host's machine is dead: the world answers no script. The claim still goes.\<close>

definition silent_world :: world where
  "silent_world = (one_host_world claimed_host)\<lparr>w_PatchHostStatus := \<lambda>_ orig new. Inr new\<rparr>"

fun silent_answer :: "event \<Rightarrow> bool" where
  "silent_answer (GetHost nn r) \<longleftrightarrow> r = Inr claimed_host"
| "silent_answer (ListHosts ns sel r) \<longleftrightarrow> False"
| "silent_answer (PatchHostStatus orig new r) \<longleftrightarrow> r = Inr new"
| "silent_answer (Exec d t script env r) \<longleftrightarrow> False"
| "silent_answer (ExecShim d t e r) \<longleftrightarrow> False"
| "silent_answer _ \<longleftrightarrow> True"

theorem Delete_not_held_up_witness:
  "fst (run_state (Instance.Delete (DefaultHostProvider silent_world) (DefaultBootstrapProvider silent_world)
     silent_world held_claim) []) = None"
proof -
  let ?m = "Instance.Delete (DefaultHostProvider silent_world) (DefaultBootstrapProvider silent_world) silent_world held_claim"
  have "ClaimHeldBy claimed_host held_claim" by code_simp
  then have "silent_answer e \<Longrightarrow> api_up held_claim e" for e by (cases e) auto
  moreover have "list_all silent_answer (snd (run_state ?m []))" by code_simp
  ultimately have "list_all (api_up held_claim) (snd (run_state ?m []))" by (auto simp: list_all_iff)
  moreover have "resolvable (nc_ProviderID held_claim)"
    by (auto simp: resolvable_def held_claim_def other_claim_def ProviderPrefix_def CutPrefix_def)
  from Delete_not_held_up [OF this] have "succeeds (api_up held_claim) ?m (\<lambda>r. r = None)" .
  moreover have "run_state ?m [] = (fst (run_state ?m []), snd (run_state ?m []))" by simp
  ultimately show ?thesis by (blast elim: rgD [where w = "[]"] dest: append_Nil2 [THEN subst])
qed

end
