(* ===== verification/Spec2Isabelle.thy ===== *)
theory Spec2Isabelle
  imports HostSpec Teardown ProbeFacts VerifiedExec Session Progress
begin

text \<open>
  \<^bold>\<open>karpenter-provider-ssh, verified.\<close>

  \<^bold>\<open>The program.\<close> A karpenter cloud provider over a pool of machines that are reachable by SSH. An
  SSHHost object describes a machine; its status is the lock by which replicas of the controller and
  different NodeClaims compete for it. Karpenter core calls the cloud provider, which resolves an
  SSHNodeClass, offers one instance type per host class, and launches a NodeClaim by claiming a host and
  running the scripts of an SSHJoinProfile on it. Three controllers run beside it: the host probe
  (admits hosts, pins their keys, cleans up machines that still run a kubelet), the node class
  controller (readiness, finalizer) and the startup taint gate. A host may demand verified
  execution: then every script needs a signature, and a shim on the machine checks it once more.

  \<^bold>\<open>How it is modelled.\<close> An operation is a state-monad program over the log of the calls it makes
  (Prelude); \<open>event\<close> lists the calls with their arguments and answers, \<open>world\<close> the functions that
  answer them from the log so far (Environment). So a theorem that holds for every world holds for every
  behaviour of the API server, of the other replicas, of karpenter core, of the machines and of the
  clock. Errors are values (Errors). Objects that Go mutates are passed on explicitly. The Go interfaces
  between components are records of operations; what a client may rely on of them is a locale, and the
  program's own providers interpret it. Go maps are association lists, quantities integers in
  nano-units, durations integers in nanoseconds, wire integers \<open>32 word\<close>, bytes characters.

  \<^bold>\<open>Theories\<close>, in the order of their imports, with the code they model (paths under src/):
  \<^item> Prelude: programs over a log; the judgement \<open>rg \<rho> \<phi> m Q\<close> (as long as the answers satisfy \<open>\<rho>\<close>, every
    call of \<open>m\<close> satisfies \<open>\<phi>\<close>, and the result \<open>Q\<close>), Hoare triples \<open>valid\<close>, and their rules.
  \<^item> GoStrings, Errors, Codec: the strings, strconv and fmt functions the program uses; errors with their
    classification; encodings and the locales \<open>codec\<close>, \<open>line_codec\<close> and \<open>prefix_codec\<close>.
  \<^item> ApiTypes (pkg/apis/v1beta1) and JoinHash (JoinHash of sshnodeclass_types.go, with the JSON encoder as far
    as it needs it).
  \<^item> Profile (internal/profile/profile.go): rendering, environment, redaction, validation, markers.
  \<^item> Envelope (internal/sshexec/envelope.go and shim/kpssh-shim), SshSig (internal/sshexec/sshsig.go), SshExec
    (internal/sshexec/sshexec.go): the wire format and the shim that reads it, signature verification,
    connections with pinned host keys and the script stream.
  \<^item> Session (\<^verbatim>\<open>runSession\<close> and \<^verbatim>\<open>lockedBuffer\<close> of internal/sshexec/sshexec.go): a session with its goroutines, its
    channel and the locked buffers, as a step relation. SshExec has the sequential program.
  \<^item> Environment: the calls and the world; what a status write does on the API server (\<open>merge_status\<close>).
  \<^item> HostRules: the rules of the host state machine, \<open>host_inv\<close> for one version and \<open>legal\<close> for a step.
  \<^item> HostPool (pkg/providers/host/host.go): the pool and its contract \<open>pool_contract\<close>.
  \<^item> Bootstrap (pkg/providers/bootstrap/bootstrap.go), Phases (pkg/providers/instance/leave.go and the phase
    runner of instance.go), Instance and Lifecycle (pkg/providers/instance/instance.go): launches and
    teardowns, over any pool that keeps the contract (\<open>instance_client\<close>).
  \<^item> VerifiedExec (internal/sshexec/envelope.go, shim/kpssh-shim): a verified phase from the controller to the script
    that runs on the machine, the shim's whole program included.
  \<^item> InstanceTypes (pkg/providers/instancetype/instancetype.go), CloudProvider (pkg/cloudprovider).
  \<^item> HostProbe and ProbeFacts (pkg/controllers/hostprobe.go), NodeClassController
    (pkg/controllers/nodeclass.go), TaintGate (pkg/controllers/startuptaintgate.go), Metrics
    (pkg/metrics/metrics.go: the pool collector and the declared metrics; the observations are in Environment).
  \<^item> Operator (pkg/operator/operator.go, pkg/controllers/controllers.go, cmd/controller/main.go): the providers and
    controllers the program is assembled from.
  \<^item> HostMachine: the whole system, all operations of the assembled program running concurrently over one
    API server with stale reads, optimistic locks and users' edits, as an inductive step relation. Users may also clear the
    install marker and the recorded host key in the status, as docs/operations.md has them do.
  \<^item> HostSpec: the abstract pool, slots that are idle in a lifecycle state or held by a NodeClaim, and the refinement
    of the whole system to it.
  \<^item> Launch and Teardown: what a successful launch leaves on the API server, what a repeated one does, and which host
    the deletion of its NodeClaim frees.
  \<^item> Progress: when the answers do not stand in the way, operations succeed (\<open>launch_progress\<close>).

  \<^bold>\<open>What is shown.\<close>
  \<^item> The host lock: each operation, on its own, writes only legal steps as long as its reads are versions
    that obey the invariant (Instance, HostProbe, CloudProvider); closing the circle over the
    interleaved system, every version obeys the invariant, no NodeClaim takes a host from another, and
    only users remove a pinned host key (HostMachine). Seen from outside, the system is a pool of slots (HostSpec).
  \<^item> Progress: a launch fails only for a cause, a healthy machine becomes Available, and a dead machine, a missing profile
    or a wrong key does not hold up a deletion (Progress).
  \<^item> Launch and teardown: that a Create reports the host it holds, and how a lost race can make it report the wrong
    providerID (Launch); that a repeated Create takes up its host, and that a Delete frees the host of the launch
    (Teardown); what a Delete leaves behind, that a stale Delete or Reboot touches nothing, that
    a failed join leaves no token, which providerID is adopted, the order of candidates, which errors mean a
    lack of capacity (Instance, Lifecycle, CloudProvider).
  \<^item> What is promised to karpenter: capacities that every host of a class delivers, when a class is
    advertised, when a node has drifted, what the node class hash covers (InstanceTypes, CloudProvider,
    JoinHash).
  \<^item> Remote execution: nothing is disclosed to a machine whose key does not match the pin, what the
    remote shell reads, that the goroutines of a session cannot change its result nor hold up its caller (Session), that a host
    in verified mode only ever runs signed scripts, which signatures are accepted, and that the shim runs exactly what was signed and sent (SshExec, Phases, SshSig, Envelope). Put together,
    from the phase the controller starts to the environment of the script on the machine (VerifiedExec).
  \<^item> Controllers: the zombie guard is fenced by its own status write, a claimed host is left alone, the
    Ready condition, probe output; when a node class is ready and when its finalizer goes; which taints a
    gate removes, and that the events it drops carry no work (ProbeFacts, NodeClassController, TaintGate).
  \<^item> Metrics: the gauges count the pool, and observations fit the declared labels (Metrics).
  \<^item> The pieces: environment, redaction, markers and validation of profiles, resolving providerIDs,
    who may be offered for a claim (Profile, HostPool).

  \<^bold>\<open>Bounds and termination.\<close> Every operation is a total function. \<^verbatim>\<open>RetryOnConflict\<close> recurses over the
  number \<open>w_Retries\<close> of retries its backoff allows, \<^verbatim>\<open>adoptProviderID\<close> over the number \<open>w_Polls\<close> of polls that
  fit in its deadline; the theorems hold for every value of both. Number parsing and the products
  computed from probe output wrap at 64 bits as in Go.

  \<^bold>\<open>Not modelled.\<close> Starting karpenter core and the controller manager, registering indexes,
  and the \<^verbatim>\<open>Register\<close> methods that set up watches (their filters and mappings are modelled, the queue is not). zz_generated.deepcopy.go is generated; HOL values are not shared. Log lines and
  the durations recorded in metrics are left out. Context cancellation appears in Session as a step of its own, elsewhere only as errors that the
  world returns. The API server's admission rules are no part of the program. Code outside the
  repository is a parameter: the template engine, the SSH and crypto library, the condition helpers,
  karpenter's scheduling library (\<open>karpenter_lib\<close>), token generation, kubeconfig parsing, floating-point
  parsing, and the iteration order of Go maps where the program's result depends on it. Two library functions that call
  back into the program are written out as they are documented, over parameters: \<^verbatim>\<open>ssh.NewClientConn\<close> (SshExec) and
  \<^verbatim>\<open>retry.RetryOnConflict\<close> (HostPool).
\<close>

end
